(* ===== verification/Prelude.thy ===== *)
theory Prelude
  imports Main "HOL-Library.Word"
begin

text \<open>
  Shared vocabulary of the development: the result type of fallible operations, checked access to
  a \<open>std::vector\<close>, and the little-endian view of 16-bit values that the loader, the decoder, the
  memory model and the ELF writer all use.

  C++ \<open>std::expected<T, E>\<close> becomes \<open>('e, 'a) res\<close>: \<open>Inr\<close> is the value, \<open>Inl (Fail e)\<close> the error
  object \<open>e\<close>, and \<open>Inl Undefined\<close> an execution whose behaviour the C++ standard leaves undefined
  (an index outside a vector or an array). Theorems that an operation is memory safe are theorems
  that \<open>Inl Undefined\<close> is not a result.
\<close>

unbundle bit_operations_syntax

named_theorems res_simps \<open>evaluation and inversion of the result monad\<close>
named_theorems byte_simps \<open>little-endian encodings and vector updates\<close>

type_synonym byte = "8 word"
type_synonym u16 = "16 word"
type_synonym u32 = "32 word"
type_synonym u64 = "64 word"

section \<open>Results\<close>

datatype 'e failure = Fail 'e | Undefined

type_synonym ('e, 'a) res = "'e failure + 'a"

fun bindE :: "('e, 'a) res \<Rightarrow> ('a \<Rightarrow> ('e, 'b) res) \<Rightarrow> ('e, 'b) res" where
  "bindE (Inl e) f = Inl e"
| "bindE (Inr x) f = f x"

fun map_failure :: "('e \<Rightarrow> 'f) \<Rightarrow> 'e failure \<Rightarrow> 'f failure" where
  "map_failure f (Fail e) = Fail (f e)"
| "map_failure f Undefined = Undefined"

text \<open>Wrapping the error of a callee into the caller's error type.\<close>

fun wrapE :: "('e \<Rightarrow> 'f) \<Rightarrow> ('e, 'a) res \<Rightarrow> ('f, 'a) res" where
  "wrapE f (Inl e) = Inl (map_failure f e)"
| "wrapE f (Inr x) = Inr x"

definition is_ok :: "('e, 'a) res \<Rightarrow> bool" where
  "is_ok r = (case r of Inl _ \<Rightarrow> False | Inr _ \<Rightarrow> True)"

lemma bindE_eq_Inr [res_simps]: "bindE m f = Inr y \<longleftrightarrow> (\<exists>x. m = Inr x \<and> f x = Inr y)"
  by (cases m) auto

lemma bindE_eq_Inl [res_simps]:
  "bindE m f = Inl e \<longleftrightarrow> m = Inl e \<or> (\<exists>x. m = Inr x \<and> f x = Inl e)"
  by (cases m) auto

lemma bindE_assoc: "bindE (bindE m f) g = bindE m (\<lambda>x. bindE (f x) g)"
  by (cases m) auto

lemma bindE_cong [fundef_cong]:
  "m = m' \<Longrightarrow> (\<And>x. m' = Inr x \<Longrightarrow> f x = g x) \<Longrightarrow> bindE m f = bindE m' g"
  by (cases m') auto

lemma wrapE_eq_Inr [simp]: "wrapE f m = Inr x \<longleftrightarrow> m = Inr x"
  by (cases m) auto

lemma map_failure_eq_Undefined [simp]: "map_failure f e = Undefined \<longleftrightarrow> e = Undefined"
  by (cases e) auto

lemma wrapE_eq_Undefined [simp]: "wrapE f m = Inl Undefined \<longleftrightarrow> m = Inl Undefined"
  by (cases m) auto

lemma is_ok_simps [simp]: "is_ok (Inr x)" "\<not> is_ok (Inl e)"
  by (simp_all add: is_ok_def)

lemma is_ok_iff: "is_ok m \<longleftrightarrow> (\<exists>x. m = Inr x)"
  by (cases m) auto

lemma is_ok_wrapE [simp]: "is_ok (wrapE f m) = is_ok m"
  by (cases m) auto

section \<open>Vectors\<close>

text \<open>\<open>v[i]\<close> on a \<open>std::vector\<close>: undefined outside the bounds.\<close>

definition at :: "'a list \<Rightarrow> nat \<Rightarrow> ('e, 'a) res" where
  "at xs i = (if i < length xs then Inr (xs ! i) else Inl Undefined)"

definition put :: "'a list \<Rightarrow> nat \<Rightarrow> 'a \<Rightarrow> ('e, 'a list) res" where
  "put xs i v = (if i < length xs then Inr (xs[i := v]) else Inl Undefined)"

lemma at_in [simp]: "i < length xs \<Longrightarrow> at xs i = Inr (xs ! i)"
  by (simp add: at_def)

lemma at_eq_Inr [res_simps]: "at xs i = Inr x \<longleftrightarrow> i < length xs \<and> xs ! i = x"
  by (simp add: at_def)

lemma at_eq_Inl [res_simps]: "at xs i = Inl e \<longleftrightarrow> length xs \<le> i \<and> e = Undefined"
  by (auto simp: at_def)

lemma put_in [simp]: "i < length xs \<Longrightarrow> put xs i v = Inr (xs[i := v])"
  by (simp add: put_def)

lemma put_eq_Inr [res_simps]: "put xs i v = Inr ys \<longleftrightarrow> i < length xs \<and> ys = xs[i := v]"
  by (auto simp: put_def)

section \<open>Little-endian 16-bit values\<close>

definition le16 :: "byte \<Rightarrow> byte \<Rightarrow> u16" where
  "le16 lo hi = ucast lo OR push_bit 8 (ucast hi)"

definition lo8 :: "u16 \<Rightarrow> byte" where
  "lo8 w = ucast w"

definition hi8 :: "u16 \<Rightarrow> byte" where
  "hi8 w = ucast (drop_bit 8 w)"

lemma le16_parts [simp, byte_simps]: "le16 (lo8 w) (hi8 w) = w"
  by (rule bit_word_eqI)
    (auto simp: le16_def lo8_def hi8_def bit_simps not_less)

lemma lo8_le16 [simp, byte_simps]: "lo8 (le16 a b) = a"
  by (rule bit_word_eqI) (auto simp: le16_def lo8_def bit_simps)

lemma hi8_le16 [simp, byte_simps]: "hi8 (le16 a b) = b"
  by (rule bit_word_eqI) (auto simp: le16_def hi8_def bit_simps dest: bit_imp_le_length)

lemma le16_inject [simp]: "le16 a b = le16 c d \<longleftrightarrow> a = c \<and> b = d"
  by (metis lo8_le16 hi8_le16)

lemma le16_0 [simp]: "le16 0 0 = 0"
  by (simp add: le16_def)

end
