(* ===== verification/InstructionDecoder.thy ===== *)
theory InstructionDecoder
  imports Prelude
begin

text \<open>
  \<open>decoder/instruction_decoder.hpp\<close> and \<open>decoder/instruction_decoder.cpp\<close>: the decoder of the
  8086 subset. The opcode dispatch of \<open>decode_at\<close> is one long chain of early returns; it is split
  here into groups of consecutive tests, each returning \<open>None\<close> where control falls through to the
  next test, and \<open>decode_opcode\<close> tries the groups in the order of the source.
\<close>

section \<open>Instructions\<close>

datatype instruction_kind =
  k_nop | k_move_immediate | k_move | k_arithmetic | k_compare | k_stack | k_flags | k_string
| k_io | k_coprocessor | k_interrupt | k_call | k_jump | k_conditional_jump | k_loop | k_return

datatype operand_width = w_byte | w_word

datatype register_name =
  R_al | R_cl | R_dl | R_bl | R_ah | R_ch | R_dh | R_bh
| R_ax | R_cx | R_dx | R_bx | R_sp | R_bp | R_si | R_di
| R_es | R_cs | R_ss | R_ds

datatype operand_kind = o_none | o_reg | o_immediate | o_memory

datatype branch_condition =
  c_overflow | c_not_overflow | c_below | c_above_or_equal | c_equal | c_not_equal
| c_below_or_equal | c_above | c_sign | c_not_sign | c_parity | c_not_parity | c_less
| c_greater_or_equal | c_less_or_equal | c_greater | c_loop_not_equal | c_loop_equal | c_loop
| c_cx_zero | c_always

datatype alu_operation =
  a_none | a_add | a_adc | a_or | a_sbb | a_and | a_subtract | a_xor | a_compare | a_test

datatype rep_prefix = rep_none | rep_rep | rep_repe | rep_repne

record operand =
  op_kind :: operand_kind
  op_width :: operand_width
  op_reg :: register_name
  op_immediate :: u16
  op_modrm :: byte
  op_address_registers :: "register_name \<times> register_name"
  op_address_register_count :: nat
  op_displacement :: u16
  op_direct_address :: bool

record instruction =
  ins_kind :: instruction_kind
  ins_offset :: nat
  ins_size :: nat
  ins_relative_target :: int
  ins_interrupt_number :: byte
  ins_operands :: "operand \<times> operand"
  ins_operand_count :: nat
  ins_condition :: branch_condition
  ins_alu :: alu_operation
  ins_stack_pop :: bool
  ins_indirect :: bool
  ins_rep :: rep_prefix
  ins_operand_size_override :: bool
  ins_address_size_override :: bool

text \<open>
  The member initialisers. The displacement is \<open>std::int16_t\<close> in the code; it is kept as the
  16-bit pattern and read with \<open>sint\<close> where its sign matters.
\<close>

definition default_operand :: operand where
  "default_operand = \<lparr>op_kind = o_none, op_width = w_byte, op_reg = R_al, op_immediate = 0,
     op_modrm = 0, op_address_registers = (R_al, R_al), op_address_register_count = 0,
     op_displacement = 0, op_direct_address = False\<rparr>"

definition basic :: "instruction_kind \<Rightarrow> nat \<Rightarrow> nat \<Rightarrow> int \<Rightarrow> byte \<Rightarrow> instruction" where
  "basic kind offset sz target interrupt =
     \<lparr>ins_kind = kind, ins_offset = offset, ins_size = sz, ins_relative_target = target,
      ins_interrupt_number = interrupt, ins_operands = (default_operand, default_operand),
      ins_operand_count = 0, ins_condition = c_always, ins_alu = a_none, ins_stack_pop = False,
      ins_indirect = False, ins_rep = rep_none, ins_operand_size_override = False,
      ins_address_size_override = False\<rparr>"

definition with_operands :: "instruction \<Rightarrow> operand \<Rightarrow> operand \<Rightarrow> nat \<Rightarrow> alu_operation \<Rightarrow> instruction" where
  "with_operands i a b n alu =
     i\<lparr>ins_operands := (a, b), ins_operand_count := n, ins_alu := alu\<rparr>"

text \<open>The error messages, one constructor per message with the values it prints.\<close>

datatype decode_error =
  OffsetOutsideImage
| Truncated nat
| TooManyPrefixes
| ExceedsLengthLimit
| IndirectControlFlow
| UnsupportedFEGroup
| UnsupportedOpcode byte nat

section \<open>Operands\<close>

definition byte_at :: "byte list \<Rightarrow> nat \<Rightarrow> (decode_error, byte) res" where
  "byte_at code offset = at code offset"

definition truncated :: "nat \<Rightarrow> (decode_error, 'a) res" where
  "truncated offset = Inl (Fail (Truncated offset))"

definition read_u16 :: "byte list \<Rightarrow> nat \<Rightarrow> (decode_error, u16) res" where
  "read_u16 code offset =
     bindE (byte_at code offset) (\<lambda>lo. bindE (byte_at code (offset + 1)) (\<lambda>hi. Inr (le16 lo hi)))"

text \<open>The expression \<open>(modrm >> 3U) & 7U\<close>, the register field or opcode extension.\<close>

definition modrm_extension :: "byte \<Rightarrow> byte" where
  "modrm_extension modrm = drop_bit 3 modrm AND 7"

definition modrm_displacement_size :: "byte \<Rightarrow> nat" where
  "modrm_displacement_size modrm =
     (let mode = drop_bit 6 modrm; rm = modrm AND 7
      in if mode = 0 \<and> rm = 6 then 2
         else if mode = 1 then 1
         else if mode = 2 then 2
         else 0)"

definition modrm_size :: "byte list \<Rightarrow> nat \<Rightarrow> nat \<Rightarrow> (decode_error, nat) res" where
  "modrm_size code offset immediate_size =
     (if offset \<ge> length code then truncated offset
      else bindE (byte_at code offset) (\<lambda>modrm.
        let size = 2 + modrm_displacement_size modrm + immediate_size
        in if length code - offset < size - 1 then truncated (offset - 1) else Inr size))"

definition is_modrm_arithmetic :: "byte \<Rightarrow> bool" where
  "is_modrm_arithmetic opcode \<longleftrightarrow>
     (opcode \<le> 0x3b \<and> opcode AND 4 \<noteq> 4) \<or> opcode = 0x84 \<or> opcode = 0x85 \<or>
     opcode = 0x86 \<or> opcode = 0x87"

definition is_prefix :: "byte \<Rightarrow> bool" where
  "is_prefix opcode \<longleftrightarrow>
     opcode = 0x26 \<or> opcode = 0x2e \<or> opcode = 0x36 \<or> opcode = 0x3e \<or>
     opcode = 0xf0 \<or> opcode = 0xf2 \<or> opcode = 0xf3 \<or> opcode = 0x66 \<or> opcode = 0x67"

definition byte_registers :: "register_name list" where
  "byte_registers = [R_al, R_cl, R_dl, R_bl, R_ah, R_ch, R_dh, R_bh]"

definition word_registers :: "register_name list" where
  "word_registers = [R_ax, R_cx, R_dx, R_bx, R_sp, R_bp, R_si, R_di]"

definition decoder_register_for :: "byte \<Rightarrow> operand_width \<Rightarrow> (decode_error, register_name) res" where
  "decoder_register_for encoding width =
     (case width of w_byte \<Rightarrow> at byte_registers (unat encoding)
      | w_word \<Rightarrow> at word_registers (unat encoding))"

definition register_operand :: "operand_width \<Rightarrow> byte \<Rightarrow> (decode_error, operand) res" where
  "register_operand width encoding =
     bindE (decoder_register_for encoding width) (\<lambda>r.
       Inr (default_operand\<lparr>op_kind := o_reg, op_width := width, op_reg := r\<rparr>))"

definition immediate_operand :: "operand_width \<Rightarrow> u16 \<Rightarrow> operand" where
  "immediate_operand width v =
     default_operand\<lparr>op_kind := o_immediate, op_width := width, op_immediate := v\<rparr>"

definition immediate_move ::
  "nat \<Rightarrow> operand_width \<Rightarrow> byte \<Rightarrow> u16 \<Rightarrow> (decode_error, instruction) res" where
  "immediate_move offset width encoding immediate =
     bindE (register_operand width encoding) (\<lambda>r.
       Inr (with_operands
         (basic k_move_immediate offset (case width of w_byte \<Rightarrow> 2 | w_word \<Rightarrow> 3) 0 0)
         r (immediate_operand width immediate) 2 a_none))"

definition address_pairs :: "(register_name \<times> register_name) list" where
  "address_pairs =
     [(R_bx, R_si), (R_bx, R_di), (R_bp, R_si), (R_bp, R_di),
      (R_si, R_al), (R_di, R_al), (R_bp, R_al), (R_bx, R_al)]"

definition memory_operand ::
  "operand_width \<Rightarrow> byte \<Rightarrow> nat \<Rightarrow> u16 \<Rightarrow> bool \<Rightarrow> operand" where
  "memory_operand width modrm count displacement direct =
     \<lparr>op_kind = o_memory, op_width = width, op_reg = R_al, op_immediate = 0, op_modrm = modrm,
      op_address_registers = address_pairs ! unat (modrm AND 7), op_address_register_count = count,
      op_displacement = displacement, op_direct_address = direct\<rparr>"

definition rm_operand ::
  "byte list \<Rightarrow> nat \<Rightarrow> operand_width \<Rightarrow> byte \<Rightarrow> (decode_error, operand) res" where
  "rm_operand code offset width modrm =
     (let mode = drop_bit 6 modrm; rm = modrm AND 7; count = (if rm \<le> 3 then 2 else 1)
      in if mode = 3 then register_operand width (modrm AND 7)
         else if mode = 0 \<and> rm = 6 then
           bindE (read_u16 code (offset + 1)) (\<lambda>d. Inr (memory_operand width modrm 0 d True))
         else if mode = 1 then
           bindE (byte_at code (offset + 1)) (\<lambda>d. Inr (memory_operand width modrm count (scast d) False))
         else if mode = 2 then
           bindE (read_u16 code (offset + 1)) (\<lambda>d. Inr (memory_operand width modrm count d False))
         else Inr (memory_operand width modrm count 0 False))"

definition alu_table :: "alu_operation list" where
  "alu_table = [a_add, a_or, a_adc, a_sbb, a_and, a_subtract, a_xor, a_compare]"

definition alu_for_extension :: "byte \<Rightarrow> alu_operation" where
  "alu_for_extension extension = alu_table ! unat (extension AND 7)"

definition width_of :: "byte \<Rightarrow> operand_width" where
  "width_of opcode = (if opcode AND 1 = 0 then w_byte else w_word)"

definition accumulator_immediate ::
  "instruction_kind \<Rightarrow> byte list \<Rightarrow> nat \<Rightarrow> byte \<Rightarrow> (decode_error, instruction) res" where
  "accumulator_immediate kind code offset opcode =
     (let width = width_of opcode;
          accumulator = (case width of w_byte \<Rightarrow> R_al | w_word \<Rightarrow> R_ax);
          alu = (if opcode = 0xa8 \<or> opcode = 0xa9 then a_test
                 else alu_for_extension (drop_bit 3 opcode AND 7))
      in bindE (byte_at code (offset + 1)) (\<lambda>lo.
         bindE (case width of w_byte \<Rightarrow> Inr (ucast lo) | w_word \<Rightarrow>
                  bindE (byte_at code (offset + 2)) (\<lambda>hi. Inr (le16 lo hi))) (\<lambda>immediate.
         Inr (with_operands
           (basic kind offset (case width of w_byte \<Rightarrow> 2 | w_word \<Rightarrow> 3) 0 0)
           (default_operand\<lparr>op_kind := o_reg, op_width := width, op_reg := accumulator\<rparr>)
           (immediate_operand width immediate) 2 alu))))"

section \<open>The opcode groups\<close>

type_synonym decode_group = "byte list \<Rightarrow> nat \<Rightarrow> byte \<Rightarrow> (decode_error, instruction) res option"

definition is_string_opcode :: "byte \<Rightarrow> bool" where
  "is_string_opcode op \<longleftrightarrow> (op \<ge> 0xa4 \<and> op \<le> 0xa7) \<or> (op \<ge> 0xaa \<and> op \<le> 0xaf)"

definition need :: "byte list \<Rightarrow> nat \<Rightarrow> nat \<Rightarrow> (decode_error, 'a) res \<Rightarrow> (decode_error, 'a) res" where
  "need code offset n r = (if length code - offset < n then truncated offset else r)"

definition decode_fixed :: decode_group where
  "decode_fixed code offset opcode =
     (if opcode = 0x90 then Some (Inr (basic k_nop offset 1 0 0))
      else if opcode \<ge> 0x91 \<and> opcode \<le> 0x97 then Some (Inr (basic k_move offset 1 0 0))
      else if opcode = 0xd7 then Some (Inr (basic k_move offset 1 0 0))
      else if opcode = 0x98 \<or> opcode = 0x99 then Some (Inr (basic k_arithmetic offset 1 0 0))
      else if opcode = 0x27 \<or> opcode = 0x2f \<or> opcode = 0x37 \<or> opcode = 0x3f
        then Some (Inr (basic k_arithmetic offset 1 0 0))
      else if opcode = 0xd4 \<or> opcode = 0xd5
        then Some (need code offset 2 (Inr (basic k_arithmetic offset 2 0 0)))
      else if opcode \<ge> 0xa0 \<and> opcode \<le> 0xa3
        then Some (need code offset 3 (Inr (basic k_move offset 3 0 0)))
      else if opcode = 0xf4 \<or> opcode = 0xf5 \<or> (opcode \<ge> 0xf8 \<and> opcode \<le> 0xfd)
        then Some (Inr (basic k_flags offset 1 0 0))
      else if opcode = 0x9e \<or> opcode = 0x9f then Some (Inr (basic k_flags offset 1 0 0))
      else if opcode = 0x9c \<or> opcode = 0x9d \<or> opcode = 0x0f
        then Some (Inr (basic k_stack offset 1 0 0))
      else if opcode = 0x9b then Some (Inr (basic k_nop offset 1 0 0))
      else None)"

text \<open>
  The string group. Its first half tests for a repeat prefix followed by a string opcode; since
  \<open>decode_at\<close> has consumed every prefix before it reaches this test, only the second half can
  apply (\<open>decode_string_no_repeat\<close>).
\<close>

definition decode_string :: decode_group where
  "decode_string code offset opcode =
     (let plain = (if is_string_opcode opcode then Some (Inr (basic k_string offset 1 0 0)) else None)
      in if (opcode = 0xf2 \<or> opcode = 0xf3) \<and> offset + 1 < length code then
           (case byte_at code (offset + 1) of
              Inl e \<Rightarrow> Some (Inl e)
            | Inr next_op \<Rightarrow>
                if is_string_opcode next_op then
                  Some (Inr ((basic k_string offset 2 0 0)\<lparr>ins_rep :=
                    (if opcode = 0xf3 then
                       (if next_op = 0xa6 \<or> next_op = 0xa7 \<or> next_op = 0xae \<or> next_op = 0xaf
                        then rep_repe else rep_rep)
                     else rep_repne)\<rparr>))
                else plain)
         else plain)"

definition decode_io :: decode_group where
  "decode_io code offset opcode =
     (if opcode = 0xe4 \<or> opcode = 0xe5 \<or> opcode = 0xe6 \<or> opcode = 0xe7
        then Some (need code offset 2 (Inr (basic k_io offset 2 0 0)))
      else if opcode \<ge> 0xec \<and> opcode \<le> 0xef then Some (Inr (basic k_io offset 1 0 0))
      else None)"

definition decode_immediate_move :: decode_group where
  "decode_immediate_move code offset opcode =
     (if opcode \<ge> 0xb0 \<and> opcode \<le> 0xb7 then
        Some (need code offset 2 (bindE (byte_at code (offset + 1)) (\<lambda>b.
          immediate_move offset w_byte (opcode - 0xb0) (ucast b))))
      else if opcode \<ge> 0xb8 \<and> opcode \<le> 0xbf then
        Some (need code offset 3 (bindE (read_u16 code (offset + 1)) (\<lambda>v.
          immediate_move offset w_word (opcode - 0xb8) v)))
      else None)"

definition accumulator_opcodes :: "byte list" where
  "accumulator_opcodes =
     [0x04, 0x05, 0x0c, 0x0d, 0x14, 0x15, 0x1c, 0x1d, 0x24, 0x25, 0x2c, 0x2d,
      0x34, 0x35, 0x3c, 0x3d, 0xa8, 0xa9]"

definition decode_accumulator :: decode_group where
  "decode_accumulator code offset opcode =
     (if opcode \<in> set accumulator_opcodes then
        Some (need code offset (if opcode AND 1 = 0 then 2 else 3)
          (accumulator_immediate
            (if opcode AND 0xf8 = 0x38 \<or> opcode = 0xa8 \<or> opcode = 0xa9 then k_compare
             else k_arithmetic) code offset opcode))
      else None)"

definition stack_instruction :: "nat \<Rightarrow> byte \<Rightarrow> bool \<Rightarrow> (decode_error, instruction) res" where
  "stack_instruction offset encoding pop =
     bindE (register_operand w_word encoding) (\<lambda>r.
       Inr ((with_operands (basic k_stack offset 1 0 0) r default_operand 1 a_none)
              \<lparr>ins_stack_pop := pop\<rparr>))"

definition decode_stack :: decode_group where
  "decode_stack code offset opcode =
     (if opcode \<ge> 0x50 \<and> opcode \<le> 0x57 then Some (stack_instruction offset (opcode - 0x50) False)
      else if opcode \<ge> 0x58 \<and> opcode \<le> 0x5f then
        Some (stack_instruction offset (opcode - 0x58) True)
      else if opcode \<in> {0x06, 0x07, 0x0e, 0x16, 0x17, 0x1e, 0x1f} then
        Some (Inr (basic k_stack offset 1 0 0))
      else None)"

definition step_instruction :: "nat \<Rightarrow> byte \<Rightarrow> alu_operation \<Rightarrow> (decode_error, instruction) res" where
  "step_instruction offset opcode alu =
     bindE (register_operand w_word (opcode AND 7)) (\<lambda>r.
       Inr (with_operands (basic k_arithmetic offset 1 0 0) r (immediate_operand w_word 1) 2 alu))"

definition decode_inc_dec :: decode_group where
  "decode_inc_dec code offset opcode =
     (if opcode \<ge> 0x40 \<and> opcode \<le> 0x47 then Some (step_instruction offset opcode a_add)
      else if opcode \<ge> 0x48 \<and> opcode \<le> 0x4f then Some (step_instruction offset opcode a_subtract)
      else None)"

text \<open>The register and register/memory operands of a two-operand opcode, in destination order.\<close>

definition modrm_operands ::
  "byte list \<Rightarrow> nat \<Rightarrow> byte \<Rightarrow> (decode_error, operand \<times> operand) res" where
  "modrm_operands code offset opcode =
     (let width = width_of opcode
      in bindE (byte_at code (offset + 1)) (\<lambda>modrm.
         bindE (register_operand width (modrm_extension modrm)) (\<lambda>reg.
         bindE (rm_operand code (offset + 1) width modrm) (\<lambda>rm.
           Inr (if opcode AND 2 = 0 then (rm, reg) else (reg, rm))))))"

definition decode_modrm_arithmetic :: decode_group where
  "decode_modrm_arithmetic code offset opcode =
     (if is_modrm_arithmetic opcode then
        Some (bindE (modrm_size code (offset + 1) 0) (\<lambda>sz.
              bindE (modrm_operands code offset opcode) (\<lambda>(destination, source).
                let alu = (if opcode = 0x84 \<or> opcode = 0x85 then a_test
                           else alu_for_extension (drop_bit 3 opcode AND 7));
                    kind = (if opcode AND 0xf8 = 0x38 \<or> opcode = 0x84 \<or> opcode = 0x85
                            then k_compare else k_arithmetic)
                in Inr (with_operands (basic kind offset sz 0 0) destination source 2 alu))))
      else None)"

definition sized :: "byte list \<Rightarrow> nat \<Rightarrow> nat \<Rightarrow> instruction_kind \<Rightarrow> (decode_error, instruction) res" where
  "sized code offset immediate_size kind =
     bindE (modrm_size code (offset + 1) immediate_size) (\<lambda>sz. Inr (basic kind offset sz 0 0))"

definition decode_move_modrm :: decode_group where
  "decode_move_modrm code offset opcode =
     (if opcode \<ge> 0x88 \<and> opcode \<le> 0x8b then
        Some (bindE (modrm_size code (offset + 1) 0) (\<lambda>sz.
              bindE (modrm_operands code offset opcode) (\<lambda>(destination, source).
                Inr (with_operands (basic k_move offset sz 0 0) destination source 2 a_none))))
      else if (opcode \<ge> 0x8c \<and> opcode \<le> 0x8e) \<or> opcode = 0x8d \<or> opcode = 0x8f \<or>
              opcode = 0xc4 \<or> opcode = 0xc5 then Some (sized code offset 0 k_move)
      else None)"

definition immediate_store ::
  "byte list \<Rightarrow> nat \<Rightarrow> byte \<Rightarrow> nat \<Rightarrow> nat \<Rightarrow> byte \<Rightarrow> (decode_error, instruction) res" where
  "immediate_store code offset opcode immediate_size sz modrm =
     (let width = (if opcode = 0xc6 then w_byte else w_word);
          imm_offset = offset + 2 + modrm_displacement_size modrm
      in bindE (if immediate_size = 1 then
                  bindE (byte_at code imm_offset) (\<lambda>b. Inr (ucast b))
                else read_u16 code imm_offset) (\<lambda>immediate.
         bindE (rm_operand code (offset + 1) width modrm) (\<lambda>rm.
           Inr (with_operands (basic k_move offset sz 0 0) rm
                  (immediate_operand width immediate) 2 a_none))))"

definition immediate_arithmetic ::
  "byte list \<Rightarrow> nat \<Rightarrow> byte \<Rightarrow> nat \<Rightarrow> byte \<Rightarrow> (decode_error, instruction) res" where
  "immediate_arithmetic code offset opcode sz modrm =
     (let alu = alu_for_extension (modrm_extension modrm);
          width = (if opcode = 0x81 \<or> opcode = 0x83 then w_word else w_byte);
          imm_offset = offset + 2 + modrm_displacement_size modrm;
          kind = (if alu = a_compare then k_compare else k_arithmetic)
      in bindE (byte_at code imm_offset) (\<lambda>b.
         bindE (if opcode = 0x83 then Inr (scast b)
                else if opcode = 0x81 then read_u16 code imm_offset
                else Inr (ucast b)) (\<lambda>immediate.
         bindE (rm_operand code (offset + 1) width modrm) (\<lambda>rm.
           Inr (with_operands (basic kind offset sz 0 0) rm
                  (immediate_operand width immediate) 2 alu)))))"

definition group_immediate_opcodes :: "byte list" where
  "group_immediate_opcodes = [0xc6, 0xc7, 0x80, 0x82, 0x83, 0x81]"

definition immediate_group :: "byte list \<Rightarrow> nat \<Rightarrow> byte \<Rightarrow> nat \<Rightarrow> (decode_error, instruction) res" where
  "immediate_group code offset opcode immediate_size =
     bindE (modrm_size code (offset + 1) immediate_size) (\<lambda>sz.
     bindE (byte_at code (offset + 1)) (\<lambda>modrm.
       if opcode = 0xc6 \<or> opcode = 0xc7
       then immediate_store code offset opcode immediate_size sz modrm
       else immediate_arithmetic code offset opcode sz modrm))"

definition decode_group_immediate :: decode_group where
  "decode_group_immediate code offset opcode =
     (if opcode \<in> set group_immediate_opcodes then
        Some (immediate_group code offset opcode (if opcode = 0xc7 \<or> opcode = 0x81 then 2 else 1))
      else None)"

text \<open>
  Opcode FF. The operand of an indirect CALL or JMP is read with \<open>offset + 2\<close>, one byte further
  than every other group reads it.
\<close>

definition decode_ff :: decode_group where
  "decode_ff code offset opcode =
     (if opcode = 0xff then
        Some (bindE (modrm_size code (offset + 1) 0) (\<lambda>sz.
              bindE (byte_at code (offset + 1)) (\<lambda>modrm.
                let extension = modrm_extension modrm in
                if extension = 2 \<or> extension = 4 then
                  bindE (rm_operand code (offset + 2) w_word modrm) (\<lambda>rm.
                    Inr ((with_operands (basic (if extension = 2 then k_call else k_jump) offset sz 0 0)
                            rm default_operand 1 a_none)\<lparr>ins_indirect := True\<rparr>))
                else if extension \<ge> 3 \<and> extension \<le> 5 then Inl (Fail IndirectControlFlow)
                else Inr (basic (if extension = 6 then k_stack else k_arithmetic) offset sz 0 0))))
      else None)"

definition decode_groups :: decode_group where
  "decode_groups code offset opcode =
     (if opcode = 0xf6 \<or> opcode = 0xf7 then
        Some (if offset + 1 \<ge> length code then truncated offset
              else bindE (byte_at code (offset + 1)) (\<lambda>modrm.
                let extension = modrm_extension modrm;
                    immediate_size = (if extension = 0 then (if opcode = 0xf6 then 1 else 2) else 0)
                in sized code offset immediate_size
                     (if extension = 0 then k_compare else k_arithmetic)))
      else if opcode = 0xfe then
        Some (bindE (modrm_size code (offset + 1) 0) (\<lambda>sz.
              bindE (byte_at code (offset + 1)) (\<lambda>modrm.
                if modrm_extension modrm > 1 then Inl (Fail UnsupportedFEGroup)
                else Inr (basic k_arithmetic offset sz 0 0))))
      else if opcode \<ge> 0xd0 \<and> opcode \<le> 0xd3 then Some (sized code offset 0 k_arithmetic)
      else if opcode \<ge> 0xd8 \<and> opcode \<le> 0xdf then Some (sized code offset 0 k_coprocessor)
      else None)"

definition jcc_conditions :: "branch_condition list" where
  "jcc_conditions =
     [c_overflow, c_not_overflow, c_below, c_above_or_equal, c_equal, c_not_equal, c_below_or_equal,
      c_above, c_sign, c_not_sign, c_parity, c_not_parity, c_less, c_greater_or_equal,
      c_less_or_equal, c_greater]"

definition loop_conditions :: "branch_condition list" where
  "loop_conditions = [c_loop_not_equal, c_loop_equal, c_loop, c_cx_zero]"

definition relative8 ::
  "byte list \<Rightarrow> nat \<Rightarrow> instruction_kind \<Rightarrow> branch_condition \<Rightarrow> (decode_error, instruction) res" where
  "relative8 code offset kind condition =
     need code offset 2 (bindE (byte_at code (offset + 1)) (\<lambda>d.
       Inr ((basic kind offset 2 (sint d) 0)\<lparr>ins_condition := condition\<rparr>)))"

definition decode_control :: decode_group where
  "decode_control code offset opcode =
     (if opcode = 0xcd then
        Some (need code offset 2 (bindE (byte_at code (offset + 1)) (\<lambda>n.
          Inr (basic k_interrupt offset 2 0 n))))
      else if opcode = 0xcc then Some (Inr (basic k_interrupt offset 1 0 3))
      else if opcode = 0xce then Some (Inr (basic k_interrupt offset 1 0 4))
      else if opcode = 0xc3 \<or> opcode = 0xcb then Some (Inr (basic k_return offset 1 0 0))
      else if opcode = 0xcf then Some (Inr (basic k_return offset 1 0 0))
      else if opcode = 0xc2 then Some (need code offset 3 (Inr (basic k_return offset 3 0 0)))
      else if opcode = 0xca then Some (need code offset 3 (Inr (basic k_return offset 3 0 0)))
      else if opcode = 0xe8 \<or> opcode = 0xe9 then
        Some (need code offset 3 (bindE (read_u16 code (offset + 1)) (\<lambda>d.
          Inr (basic (if opcode = 0xe8 then k_call else k_jump) offset 3 (sint d) 0))))
      else if opcode = 0xeb then Some (relative8 code offset k_jump c_always)
      else if opcode \<ge> 0x70 \<and> opcode \<le> 0x7f then
        Some (relative8 code offset k_conditional_jump (jcc_conditions ! unat (opcode - 0x70)))
      else if opcode \<ge> 0xe0 \<and> opcode \<le> 0xe3 then
        Some (relative8 code offset k_loop (loop_conditions ! unat (opcode - 0xe0)))
      else None)"

section \<open>Dispatch and prefixes\<close>

fun first_group ::
  "decode_group list \<Rightarrow> byte list \<Rightarrow> nat \<Rightarrow> byte \<Rightarrow> (decode_error, instruction) res" where
  "first_group [] code offset opcode = Inl (Fail (UnsupportedOpcode opcode offset))"
| "first_group (g # gs) code offset opcode =
     (case g code offset opcode of Some r \<Rightarrow> r | None \<Rightarrow> first_group gs code offset opcode)"

definition opcode_groups :: "decode_group list" where
  "opcode_groups =
     [decode_fixed, decode_string, decode_io, decode_immediate_move, decode_accumulator,
      decode_stack, decode_inc_dec, decode_modrm_arithmetic, decode_move_modrm,
      decode_group_immediate, decode_ff, decode_groups, decode_control]"

definition decode_opcode :: "byte list \<Rightarrow> nat \<Rightarrow> byte \<Rightarrow> (decode_error, instruction) res" where
  "decode_opcode = first_group opcode_groups"

record prefix_state =
  pf_next :: nat
  pf_count :: nat
  pf_rep :: rep_prefix
  pf_op_override :: bool
  pf_addr_override :: bool

definition add_prefix :: "byte \<Rightarrow> prefix_state \<Rightarrow> prefix_state" where
  "add_prefix p s =
     (let s' = (if p = 0xf3 then s\<lparr>pf_rep := (if pf_rep s = rep_none then rep_rep else pf_rep s)\<rparr>
                else if p = 0xf2 then
                  s\<lparr>pf_rep := (if pf_rep s = rep_none then rep_repne else pf_rep s)\<rparr>
                else if p = 0x66 then s\<lparr>pf_op_override := True\<rparr>
                else if p = 0x67 then s\<lparr>pf_addr_override := True\<rparr>
                else s)
      in s'\<lparr>pf_count := pf_count s + 1, pf_next := pf_next s + 1\<rparr>)"

lemma add_prefix_next [simp]: "pf_next (add_prefix p s) = pf_next s + 1"
  by (simp add: add_prefix_def Let_def)

lemma add_prefix_count [simp]: "pf_count (add_prefix p s) = pf_count s + 1"
  by (simp add: add_prefix_def Let_def)

function scan_prefixes :: "byte list \<Rightarrow> prefix_state \<Rightarrow> (decode_error, prefix_state) res" where
  "scan_prefixes code s =
     (if pf_next s < length code \<and> is_prefix (code ! pf_next s) then
        if pf_count s = 15 then Inl (Fail TooManyPrefixes)
        else scan_prefixes code (add_prefix (code ! pf_next s) s)
      else Inr s)"
  by pat_completeness auto
termination
  by (relation "measure (\<lambda>(code, s). length code - pf_next s)") auto

declare scan_prefixes.simps [simp del]

definition scan_start :: "nat \<Rightarrow> prefix_state" where
  "scan_start offset = \<lparr>pf_next = offset, pf_count = 0, pf_rep = rep_none,
     pf_op_override = False, pf_addr_override = False\<rparr>"

definition apply_prefixes ::
  "nat \<Rightarrow> prefix_state \<Rightarrow> instruction \<Rightarrow> (decode_error, instruction) res" where
  "apply_prefixes offset s i =
     (if ins_size i > 15 - pf_count s then Inl (Fail ExceedsLengthLimit)
      else Inr (i\<lparr>ins_offset := offset, ins_size := ins_size i + pf_count s,
                  ins_rep := (if pf_rep s \<noteq> rep_none then pf_rep s else ins_rep i),
                  ins_operand_size_override := pf_op_override s,
                  ins_address_size_override := pf_addr_override s\<rparr>))"

lemma scan_prefixes_scanned:
  "scan_prefixes code s = Inr t \<Longrightarrow> pf_count s \<le> 15 \<Longrightarrow>
     pf_next s \<le> pf_next t \<and> pf_next t - pf_next s = pf_count t - pf_count s \<and>
     pf_count s \<le> pf_count t \<and> pf_count t \<le> 15 \<and>
     \<not> (pf_next t < length code \<and> is_prefix (code ! pf_next t))"
proof (induction code s rule: scan_prefixes.induct)
  case (1 code s)
  show ?case
  proof (cases "pf_next s < length code \<and> is_prefix (code ! pf_next s)")
    case False
    with 1 show ?thesis by (auto simp: scan_prefixes.simps [of code s])
  next
    case True
    with "1.prems" have "pf_count s \<noteq> 15"
      and "scan_prefixes code (add_prefix (code ! pf_next s) s) = Inr t"
      by (auto simp: scan_prefixes.simps [of code s] split: if_splits)
    with "1.IH" True "1.prems" show ?thesis by auto
  qed
qed

lemma scan_prefixes_progress:
  assumes "scan_prefixes code s = Inr t" and "pf_next s < length code"
    and "is_prefix (code ! pf_next s)" and "pf_count s \<le> 15"
  shows "pf_next s < pf_next t"
  using scan_prefixes_scanned [OF assms(1,4)] assms(2,3) by (metis le_neq_implies_less)

function decode_at :: "byte list \<Rightarrow> nat \<Rightarrow> (decode_error, instruction) res" where
  "decode_at code offset =
     (if offset \<ge> length code then Inl (Fail OffsetOutsideImage)
      else bindE (byte_at code offset) (\<lambda>opcode.
        if is_prefix opcode then
          bindE (scan_prefixes code (scan_start offset)) (\<lambda>s.
            if pf_next s = length code then truncated offset
            else bindE (decode_at code (pf_next s)) (apply_prefixes offset s))
        else decode_opcode code offset opcode))"
  by pat_completeness auto
termination
proof (relation "measure (\<lambda>(code, offset). length code - offset)", goal_cases)
  case 1
  show ?case by simp
next
  case (2 code offset opcode s)
  then have "pf_next (scan_start offset) < pf_next s"
    by (intro scan_prefixes_progress [of code]) (auto simp: scan_start_def byte_at_def)
  with 2 show ?case by (auto simp: scan_start_def)
qed

declare decode_at.simps [simp del]

end
