(* ===== verification/DecoderFacts.thy ===== *)
theory DecoderFacts
  imports InstructionDecoder
begin

text \<open>
  What the rest of the pipeline relies on about the decoder: a decoded instruction starts where it
  was asked for, is not empty, is at most 15 bytes long and lies inside the code image, and the
  decoder reads outside the image in one situation only. The first fact is stated as the interface
  \<open>code_decoder\<close> that the control-flow passes are proved against.
\<close>

section \<open>Selectors and encodings\<close>

lemma basic_sel [simp]:
  "ins_kind (basic k off n t v) = k" "ins_offset (basic k off n t v) = off"
  "ins_size (basic k off n t v) = n" "ins_relative_target (basic k off n t v) = t"
  "ins_interrupt_number (basic k off n t v) = v" "ins_operand_count (basic k off n t v) = 0"
  "ins_condition (basic k off n t v) = c_always" "ins_rep (basic k off n t v) = rep_none"
  "ins_alu (basic k off n t v) = a_none" "ins_indirect (basic k off n t v) = False"
  by (simp_all add: basic_def)

lemma with_operands_sel [simp]:
  "ins_kind (with_operands i a b n u) = ins_kind i"
  "ins_offset (with_operands i a b n u) = ins_offset i"
  "ins_size (with_operands i a b n u) = ins_size i"
  "ins_relative_target (with_operands i a b n u) = ins_relative_target i"
  "ins_operands (with_operands i a b n u) = (a, b)"
  "ins_operand_count (with_operands i a b n u) = n"
  "ins_alu (with_operands i a b n u) = u"
  "ins_indirect (with_operands i a b n u) = ins_indirect i"
  by (simp_all add: with_operands_def)

lemma unat_and_7: "unat (w AND 7 :: byte) < 8"
proof -
  have "unat (w AND 7) \<le> unat (7 :: byte)"
    by (rule word_le_nat_alt [THEN iffD1, OF word_and_le1])
  then show ?thesis by simp
qed

lemma register_operand_ok:
  "unat enc < 8 \<Longrightarrow> \<exists>r. register_operand w enc = Inr (default_operand\<lparr>op_kind := o_reg, op_width := w, op_reg := r\<rparr>)"
  by (cases w) (auto simp: register_operand_def decoder_register_for_def byte_registers_def
      word_registers_def)

lemma register_operand_and7 [simp]: "register_operand w (e AND 7) \<noteq> Inl x"
  using register_operand_ok [OF unat_and_7, of w e] by auto

lemma unat_diff_range: "lo \<le> w \<Longrightarrow> w \<le> lo + 7 \<Longrightarrow> unat lo + 7 < 256 \<Longrightarrow> unat (w - lo :: byte) < 8"
  by (simp add: unat_sub word_le_nat_alt unat_word_ariths)

lemma register_operand_range:
  "lo \<le> w \<Longrightarrow> w \<le> lo + 7 \<Longrightarrow> unat lo + 7 < 256 \<Longrightarrow> register_operand v (w - lo) \<noteq> Inl x"
  using register_operand_ok [OF unat_diff_range, of lo w v] by auto

lemma modrm_size_Inr:
  "modrm_size code (Suc off) n = Inr sz \<longleftrightarrow>
     Suc off < length code \<and> sz = 2 + modrm_displacement_size (code ! Suc off) + n \<and>
     off + sz \<le> length code"
  by (auto simp: modrm_size_def byte_at_def truncated_def Let_def split: if_splits)

lemma modrm_displacement_size_le: "modrm_displacement_size m \<le> 2"
  by (simp add: modrm_displacement_size_def Let_def)

lemma modrm_size_bounds:
  "modrm_size code (Suc off) n = Inr sz \<Longrightarrow>
     Suc off < length code \<and> 2 \<le> sz \<and> sz \<le> 4 + n \<and> off + sz \<le> length code"
  using modrm_displacement_size_le [of "code ! Suc off"] by (auto simp: modrm_size_Inr)

lemma modrm_size_safe [simp]: "modrm_size code off n \<noteq> Inl Undefined"
  by (auto simp: modrm_size_def byte_at_def truncated_def Let_def res_simps)

lemma need_Inr [simp]: "need code off n r = Inr i \<longleftrightarrow> n \<le> length code - off \<and> r = Inr i"
  by (auto simp: need_def truncated_def)

lemma need_Undefined [simp]:
  "need code off n r = Inl Undefined \<longleftrightarrow> n \<le> length code - off \<and> r = Inl Undefined"
  by (auto simp: need_def truncated_def)

lemma truncated_neq [simp]: "truncated off \<noteq> Inr i" "truncated off \<noteq> Inl Undefined"
  by (simp_all add: truncated_def)

lemma read_u16_ok [simp]:
  "off + 1 < length code \<Longrightarrow> read_u16 code off = Inr (le16 (code ! off) (code ! (off + 1)))"
  by (simp add: read_u16_def byte_at_def)

section \<open>Every group yields an instruction inside the image\<close>

definition fits :: "byte list \<Rightarrow> nat \<Rightarrow> nat \<Rightarrow> instruction \<Rightarrow> bool" where
  "fits code offset limit i \<longleftrightarrow>
     ins_offset i = offset \<and> 1 \<le> ins_size i \<and> ins_size i \<le> limit \<and>
     offset + ins_size i \<le> length code"

definition group_fits :: "decode_group \<Rightarrow> bool" where
  "group_fits g \<longleftrightarrow>
     (\<forall>code off opc i. g code off opc = Some (Inr i) \<longrightarrow> off < length code \<longrightarrow> fits code off 6 i)"

lemmas group_defs =
  decode_fixed_def decode_string_def decode_io_def decode_immediate_move_def
  decode_accumulator_def decode_stack_def decode_inc_dec_def decode_modrm_arithmetic_def
  decode_move_modrm_def decode_group_immediate_def decode_ff_def decode_groups_def
  decode_control_def

lemma decode_fixed_fits: "group_fits decode_fixed"
  by (auto simp: group_fits_def fits_def decode_fixed_def split: if_splits)

lemma decode_string_fits: "group_fits decode_string"
  by (auto simp: group_fits_def fits_def decode_string_def Let_def split: if_splits sum.splits)

lemma decode_io_fits: "group_fits decode_io"
  by (auto simp: group_fits_def fits_def decode_io_def split: if_splits)

lemma decode_immediate_move_fits: "group_fits decode_immediate_move"
  by (auto simp: group_fits_def fits_def decode_immediate_move_def immediate_move_def res_simps
      split: if_splits)

lemma decode_accumulator_fits: "group_fits decode_accumulator"
  by (auto simp: group_fits_def fits_def decode_accumulator_def accumulator_immediate_def width_of_def
      res_simps Let_def split: if_splits)

lemma decode_stack_fits: "group_fits decode_stack"
  by (auto simp: group_fits_def fits_def decode_stack_def stack_instruction_def res_simps
      split: if_splits)

lemma decode_inc_dec_fits: "group_fits decode_inc_dec"
  by (auto simp: group_fits_def fits_def decode_inc_dec_def step_instruction_def res_simps
      split: if_splits)

lemma sized_fits: "sized code off n k = Inr i \<Longrightarrow> n \<le> 2 \<Longrightarrow> fits code off 6 i"
  by (auto simp: sized_def fits_def res_simps dest!: modrm_size_bounds)

lemma modrm_shape_fits:
  "\<exists>sz. modrm_size code (Suc off) n = Inr sz \<and> ins_offset i = off \<and> ins_size i = sz \<Longrightarrow> n \<le> 2 \<Longrightarrow>
     fits code off 6 i"
  by (auto simp: fits_def dest: modrm_size_bounds)

lemma decode_modrm_arithmetic_fits: "group_fits decode_modrm_arithmetic"
  by (auto simp: group_fits_def fits_def decode_modrm_arithmetic_def res_simps Let_def
      dest!: modrm_size_bounds split: if_splits prod.splits)

lemma decode_move_modrm_fits: "group_fits decode_move_modrm"
  by (auto simp: group_fits_def decode_move_modrm_def res_simps
      intro: sized_fits modrm_shape_fits [where n = 0] split: if_splits prod.splits)

lemma immediate_store_shape:
  "immediate_store code off opc n sz m = Inr i \<Longrightarrow> ins_offset i = off \<and> ins_size i = sz"
  by (auto simp: immediate_store_def res_simps Let_def)

lemma immediate_arithmetic_shape:
  "immediate_arithmetic code off opc sz m = Inr i \<Longrightarrow> ins_offset i = off \<and> ins_size i = sz"
  by (auto simp: immediate_arithmetic_def res_simps Let_def)

lemma immediate_group_fits:
  assumes "immediate_group code off opc n = Inr i" and "n \<le> 2"
  shows "fits code off 6 i"
proof -
  from assms(1) obtain sz m where sz: "modrm_size code (Suc off) n = Inr sz"
    and i: "(if opc = 0xc6 \<or> opc = 0xc7 then immediate_store code off opc n sz m
          else immediate_arithmetic code off opc sz m) = Inr i"
    unfolding immediate_group_def bindE_eq_Inr Suc_eq_plus1 by blast
  have "ins_offset i = off \<and> ins_size i = sz"
  proof (cases "opc = 0xc6 \<or> opc = 0xc7")
    case True
    with i have "immediate_store code off opc n sz m = Inr i" by (simp only: if_True)
    then show ?thesis by (rule immediate_store_shape)
  next
    case False
    with i have "immediate_arithmetic code off opc sz m = Inr i" by (simp only: if_False)
    then show ?thesis by (rule immediate_arithmetic_shape)
  qed
  with modrm_size_bounds [OF sz] assms(2) show ?thesis by (simp add: fits_def)
qed

lemma decode_group_immediate_fits: "group_fits decode_group_immediate"
  using immediate_group_fits
  by (simp add: group_fits_def decode_group_immediate_def split: if_split)

lemma decode_ff_shape:
  "decode_ff code off opc = Some (Inr i) \<Longrightarrow>
     \<exists>sz. modrm_size code (Suc off) 0 = Inr sz \<and> ins_offset i = off \<and> ins_size i = sz"
  by (auto simp: decode_ff_def res_simps Let_def split: if_split_asm)

lemma decode_ff_fits: "group_fits decode_ff"
  by (auto simp: group_fits_def dest: decode_ff_shape intro: modrm_shape_fits)

lemma fe_shape:
  "bindE (modrm_size code (Suc off) 0) (\<lambda>sz. bindE (byte_at code (Suc off)) (\<lambda>modrm.
     if modrm_extension modrm > 1 then Inl (Fail UnsupportedFEGroup)
     else Inr (basic k_arithmetic off sz 0 0))) = Inr i \<Longrightarrow> fits code off 6 i"
  by (rule modrm_shape_fits [where n = 0]) (auto simp: res_simps split: if_split_asm)

lemma f6_shape:
  "bindE (byte_at code (Suc off)) (\<lambda>modrm.
      sized code off (if modrm_extension modrm = 0 then v else 0)
        (if modrm_extension modrm = 0 then k_compare else k_arithmetic)) = Inr i \<Longrightarrow> v \<le> 2 \<Longrightarrow>
     fits code off 6 i"
  by (auto simp: res_simps intro: sized_fits split: if_split_asm)

lemma decode_groups_fits: "group_fits decode_groups"
  by (auto simp: group_fits_def decode_groups_def Let_def split: if_split_asm
      intro: sized_fits fe_shape f6_shape)

lemma decode_control_fits: "group_fits decode_control"
  by (auto simp: group_fits_def fits_def decode_control_def relative8_def res_simps
      split: if_splits)

lemmas groups_fit =
  decode_fixed_fits decode_string_fits decode_io_fits decode_immediate_move_fits
  decode_accumulator_fits decode_stack_fits decode_inc_dec_fits decode_modrm_arithmetic_fits
  decode_move_modrm_fits decode_group_immediate_fits decode_ff_fits decode_groups_fits
  decode_control_fits

lemma first_group_fits:
  "\<forall>g \<in> set gs. group_fits g \<Longrightarrow> first_group gs code off opc = Inr i \<Longrightarrow> off < length code \<Longrightarrow>
     fits code off 6 i"
  by (induction gs) (auto simp: group_fits_def split: option.splits)

lemma decode_opcode_fits:
  "decode_opcode code off opc = Inr i \<Longrightarrow> off < length code \<Longrightarrow> fits code off 6 i"
  unfolding decode_opcode_def
  by (rule first_group_fits [where gs = opcode_groups])
    (auto simp: opcode_groups_def groups_fit)

lemma decode_at_plain:
  "off < length code \<Longrightarrow> \<not> is_prefix (code ! off) \<Longrightarrow>
     decode_at code off = decode_opcode code off (code ! off)"
  by (simp add: decode_at.simps [of code off] byte_at_def)

lemma scan_prefixes_le:
  "scan_prefixes code s = Inr t \<Longrightarrow> pf_next s \<le> length code \<Longrightarrow> pf_next t \<le> length code"
proof (induction code s rule: scan_prefixes.induct)
  case (1 code s)
  then show ?case
    by (cases "pf_next s < length code \<and> is_prefix (code ! pf_next s)")
      (auto simp: scan_prefixes.simps [of code s] split: if_splits)
qed

lemma scan_start_sel [simp]: "pf_next (scan_start off) = off" "pf_count (scan_start off) = 0"
  by (simp_all add: scan_start_def)

lemma scan_start_result:
  assumes "scan_prefixes code (scan_start off) = Inr s" and "off < length code"
    and "is_prefix (code ! off)"
  shows "off < pf_next s" and "pf_next s \<le> length code" and "pf_next s = off + pf_count s"
    and "pf_count s \<le> 15" and "pf_next s < length code \<Longrightarrow> \<not> is_prefix (code ! pf_next s)"
  using scan_prefixes_scanned [OF assms(1)] scan_prefixes_le [OF assms(1)]
    scan_prefixes_progress [OF assms(1)] assms(2,3)
  by auto

lemma decode_at_prefixed:
  assumes "off < length code" and "is_prefix (code ! off)"
  shows "decode_at code off =
       bindE (scan_prefixes code (scan_start off)) (\<lambda>s.
         if pf_next s = length code then truncated off
         else bindE (decode_opcode code (pf_next s) (code ! pf_next s)) (apply_prefixes off s))"
proof (cases "scan_prefixes code (scan_start off)")
  case (Inl e)
  with assms show ?thesis by (simp add: decode_at.simps [of code off] byte_at_def)
next
  case (Inr s)
  note scanned = scan_start_result [OF Inr assms]
  show ?thesis
  proof (cases "pf_next s = length code")
    case True
    with Inr assms show ?thesis by (simp add: decode_at.simps [of code off] byte_at_def)
  next
    case False
    with scanned have "decode_at code (pf_next s) = decode_opcode code (pf_next s) (code ! pf_next s)"
      by (intro decode_at_plain) auto
    with False Inr assms show ?thesis by (simp add: decode_at.simps [of code off] byte_at_def)
  qed
qed

lemma decode_at_inside: "decode_at code off = Inr i \<Longrightarrow> off < length code"
  by (simp add: decode_at.simps [of code off] split: if_splits)

lemma decode_at_fits:
  assumes "decode_at code off = Inr i"
  shows "fits code off 15 i"
proof (cases "is_prefix (code ! off)")
  case False
  with assms decode_at_inside [OF assms] have "fits code off 6 i"
    by (auto simp: decode_at_plain intro: decode_opcode_fits)
  then show ?thesis by (simp add: fits_def)
next
  case True
  note inside = decode_at_inside [OF assms]
  from assms obtain s j where s: "scan_prefixes code (scan_start off) = Inr s"
    and next': "pf_next s \<noteq> length code"
    and j: "decode_opcode code (pf_next s) (code ! pf_next s) = Inr j"
    and i: "apply_prefixes off s j = Inr i"
    by (auto simp: decode_at_prefixed [OF inside True] res_simps split: if_splits)
  note scanned = scan_start_result [OF s inside True]
  with next' have "fits code (pf_next s) 6 j" by (intro decode_opcode_fits [OF j]) auto
  with i scanned show ?thesis by (auto simp: apply_prefixes_def fits_def split: if_splits)
qed

section \<open>The decoder interface\<close>

text \<open>
  A decoder as its clients see it: decoding at a position yields an instruction that covers at least
  one byte and ends inside the code. This is all that termination of the block walks needs.
\<close>

locale code_decoder =
  fixes dec :: "byte list \<Rightarrow> nat \<Rightarrow> ('e, instruction) res"
  assumes dec_inside: "dec code p = Inr i \<Longrightarrow> p < length code"
    and dec_offset: "dec code p = Inr i \<Longrightarrow> ins_offset i = p"
    and dec_nonempty: "dec code p = Inr i \<Longrightarrow> 1 \<le> ins_size i"
    and dec_end: "dec code p = Inr i \<Longrightarrow> p + ins_size i \<le> length code"
begin

lemma dec_progress: "dec code p = Inr i \<Longrightarrow> length code - (p + ins_size i) < length code - p"
  using dec_inside [of code p i] dec_nonempty [of code p i] by simp

end

interpretation dec: code_decoder decode_at
  using decode_at_fits by unfold_locales (auto simp: fits_def dest: decode_at_inside)

end
