(* ===== verification/DecoderSafety.thy ===== *)
theory DecoderSafety
  imports DecoderFacts
begin

text \<open>
  Memory safety of the decoder. Each opcode group checks the size of the instruction before it
  reads its bytes, so none of them reads outside the image, except the group of opcode FF, which
  reads the displacement of an indirect CALL or JMP one byte too far.
\<close>

definition group_safe :: "decode_group \<Rightarrow> bool" where
  "group_safe g \<longleftrightarrow> (\<forall>code off opc. off < length code \<longrightarrow> g code off opc \<noteq> Some (Inl Undefined))"

lemma byte_at_Undefined [simp]: "byte_at code p = Inl Undefined \<longleftrightarrow> length code \<le> p"
  by (simp add: byte_at_def at_def)

lemma byte_at_Inr [simp]: "byte_at code p = Inr b \<longleftrightarrow> p < length code \<and> b = code ! p"
  by (auto simp: byte_at_def at_def)

lemma read_u16_Undefined [simp]: "read_u16 code p = Inl Undefined \<longleftrightarrow> length code \<le> Suc p"
  by (auto simp: read_u16_def res_simps)

lemma immediate_move_safe: "lo \<le> opc \<Longrightarrow> opc \<le> lo + 7 \<Longrightarrow> unat lo + 7 < 256 \<Longrightarrow>
    immediate_move off w (opc - lo) v \<noteq> Inl x"
  using register_operand_range [of lo opc w] by (auto simp: immediate_move_def res_simps)

lemma rm_operand_reads:
  "rm_operand code p w m = Inl Undefined \<longleftrightarrow>
     0 < modrm_displacement_size m \<and> length code \<le> p + modrm_displacement_size m"
  by (auto simp: rm_operand_def modrm_displacement_size_def Let_def res_simps)

lemma rm_operand_safe [simp]:
  "p + modrm_displacement_size m < length code \<Longrightarrow> rm_operand code p w m \<noteq> Inl Undefined"
  by (auto simp: rm_operand_reads)

lemma decode_fixed_safe: "group_safe decode_fixed"
  by (auto simp: group_safe_def decode_fixed_def split: if_split_asm)

lemma decode_string_safe: "group_safe decode_string"
  by (auto simp: group_safe_def decode_string_def Let_def split: if_split_asm sum.splits)

lemma decode_io_safe: "group_safe decode_io"
  by (auto simp: group_safe_def decode_io_def split: if_split_asm)

lemma decode_immediate_move_safe: "group_safe decode_immediate_move"
  using immediate_move_safe [of "0xb0"] immediate_move_safe [of "0xb8"]
  by (auto simp: group_safe_def decode_immediate_move_def res_simps split: if_split_asm)

lemma decode_accumulator_safe: "group_safe decode_accumulator"
  by (auto simp: group_safe_def decode_accumulator_def accumulator_immediate_def width_of_def
      res_simps Let_def split: if_split_asm)

lemma decode_stack_safe: "group_safe decode_stack"
  using register_operand_range [of "0x50"] register_operand_range [of "0x58"]
  by (auto simp: group_safe_def decode_stack_def stack_instruction_def res_simps split: if_split_asm)

lemma decode_inc_dec_safe: "group_safe decode_inc_dec"
  by (auto simp: group_safe_def decode_inc_dec_def step_instruction_def res_simps split: if_split_asm)

lemma register_operand_ext [simp]: "register_operand w (modrm_extension m) \<noteq> Inl x"
  by (simp add: modrm_extension_def)

lemma modrm_operands_safe:
  "modrm_size code (Suc off) n = Inr sz \<Longrightarrow> modrm_operands code off opc \<noteq> Inl Undefined"
  by (auto simp: modrm_operands_def modrm_size_Inr res_simps Let_def)

lemma decode_modrm_arithmetic_safe: "group_safe decode_modrm_arithmetic"
  by (auto simp: group_safe_def decode_modrm_arithmetic_def res_simps Let_def
      dest: modrm_operands_safe split: if_split_asm prod.splits)

lemma sized_safe [simp]: "sized code off n k \<noteq> Inl Undefined"
  by (auto simp: sized_def res_simps)

lemma decode_move_modrm_safe: "group_safe decode_move_modrm"
  by (auto simp: group_safe_def decode_move_modrm_def res_simps
      dest: modrm_operands_safe split: if_split_asm prod.splits)

lemma immediate_group_safe: "n = (if opc = 0xc7 \<or> opc = 0x81 then 2 else 1) \<Longrightarrow>
    immediate_group code off opc n \<noteq> Inl Undefined"
  by (auto simp: immediate_group_def immediate_store_def immediate_arithmetic_def res_simps Let_def
      modrm_size_Inr split: if_split_asm)

lemma decode_group_immediate_safe: "group_safe decode_group_immediate"
  using immediate_group_safe [OF refl]
  by (simp add: group_safe_def decode_group_immediate_def)

lemma decode_groups_safe: "group_safe decode_groups"
  by (auto simp: group_safe_def decode_groups_def res_simps Let_def modrm_size_Inr
      split: if_split_asm)

lemma decode_control_safe: "group_safe decode_control"
  by (auto simp: group_safe_def decode_control_def relative8_def res_simps split: if_split_asm)

lemmas groups_safe =
  decode_fixed_safe decode_string_safe decode_io_safe decode_immediate_move_safe
  decode_accumulator_safe decode_stack_safe decode_inc_dec_safe decode_modrm_arithmetic_safe
  decode_move_modrm_safe decode_group_immediate_safe decode_groups_safe decode_control_safe

text \<open>The FF group: undefined exactly when the displacement ends the image.\<close>

definition ff_overrun :: "byte list \<Rightarrow> nat \<Rightarrow> bool" where
  "ff_overrun code p \<longleftrightarrow>
     Suc p < length code \<and> code ! p = 0xff \<and>
     (modrm_extension (code ! Suc p) = 2 \<or> modrm_extension (code ! Suc p) = 4) \<and>
     0 < modrm_displacement_size (code ! Suc p) \<and>
     p + 2 + modrm_displacement_size (code ! Suc p) = length code"

lemma decode_ff_undefined:
  "opc = code ! p \<Longrightarrow> decode_ff code p opc = Some (Inl Undefined) \<Longrightarrow> ff_overrun code p"
  by (auto simp: decode_ff_def res_simps Let_def modrm_size_Inr rm_operand_reads ff_overrun_def
      split: if_split_asm)

lemma first_group_undefined:
  "first_group gs code off opc = Inl Undefined \<Longrightarrow>
     \<exists>g \<in> set gs. g code off opc = Some (Inl Undefined)"
  by (induction gs) (auto split: option.splits)

lemma decode_opcode_undefined:
  assumes "decode_opcode code p (code ! p) = Inl Undefined" and "p < length code"
  shows "ff_overrun code p"
proof -
  obtain g where g: "g \<in> set opcode_groups" and u: "g code p (code ! p) = Some (Inl Undefined)"
    using first_group_undefined assms(1) unfolding decode_opcode_def by blast
  have "g = decode_ff"
  proof (rule ccontr)
    assume "g \<noteq> decode_ff"
    with g have "group_safe g" by (auto simp: opcode_groups_def groups_safe)
    with u assms(2) show False by (simp add: group_safe_def)
  qed
  with u show ?thesis by (auto intro: decode_ff_undefined)
qed

lemma scan_prefixes_safe [simp]: "scan_prefixes code s \<noteq> Inl Undefined"
proof (induction code s rule: scan_prefixes.induct)
  case (1 code s)
  then show ?case by (auto simp: scan_prefixes.simps [of code s])
qed

lemma apply_prefixes_safe [simp]: "apply_prefixes off s i \<noteq> Inl Undefined"
  by (simp add: apply_prefixes_def)

lemma decode_at_undefined:
  assumes "decode_at code off = Inl Undefined"
  shows "\<exists>p \<ge> off. ff_overrun code p"
proof -
  have inside: "off < length code"
    using assms by (cases "off < length code") (auto simp: decode_at.simps [of code off])
  show ?thesis
  proof (cases "is_prefix (code ! off)")
    case False
    with assms inside show ?thesis
      by (auto simp: decode_at_plain intro!: exI [of _ off] decode_opcode_undefined)
  next
    case True
    with assms inside obtain s where s: "scan_prefixes code (scan_start off) = Inr s"
      and "pf_next s \<noteq> length code"
      and u: "decode_opcode code (pf_next s) (code ! pf_next s) = Inl Undefined"
      by (auto simp: decode_at_prefixed res_simps split: if_split_asm)
    with scan_start_result [OF s inside True] have "off < pf_next s" "pf_next s < length code" by auto
    with u show ?thesis by (intro exI [of _ "pf_next s"]) (auto intro: decode_opcode_undefined)
  qed
qed

end
