(* ===== verification/CfgBuilder.thy ===== *)
theory CfgBuilder
  imports DecoderFacts
begin

text \<open>
  \<open>cfg/cfg_builder.hpp\<close> and \<open>cfg/cfg_builder.cpp\<close>: recovery of basic blocks. The code keeps a
  \<open>std::set\<close> of block starts, walks a block from every start in ascending order, inserts the branch
  targets it meets into the set while it iterates over it, and repeats the whole pass until a pass
  inserts nothing. The set is an ascending list here, and advancing the iterator is \<open>next_start\<close>:
  elements inserted behind the iterator wait for the next pass, elements inserted ahead of it are
  visited in this one.
\<close>

section \<open>The builder\<close>

record basic_block =
  bb_start :: nat
  bb_end :: nat
  bb_successors :: "nat list"
  bb_condition :: branch_condition

type_synonym control_flow_graph = "basic_block list"

datatype cfg_error = EntryOutside | TargetOutside | DecodeFailed decode_error

definition target_for :: "instruction \<Rightarrow> nat \<Rightarrow> (cfg_error, nat) res" where
  "target_for i code_size =
     (let next = int (ins_offset i) + int (ins_size i); target = next + ins_relative_target i
      in if target < 0 \<or> target \<ge> int code_size then Inl (Fail TargetOutside)
         else Inr (nat target))"

definition ends_block :: "instruction_kind \<Rightarrow> bool" where
  "ends_block kind \<longleftrightarrow> kind = k_call \<or> kind = k_jump \<or> kind = k_conditional_jump \<or> kind = k_loop \<or>
     kind = k_return \<or> kind = k_interrupt"

definition has_direct_target :: "instruction_kind \<Rightarrow> bool" where
  "has_direct_target kind \<longleftrightarrow> kind \<noteq> k_return \<and> kind \<noteq> k_interrupt"

definition falls_through :: "instruction_kind \<Rightarrow> bool" where
  "falls_through kind \<longleftrightarrow> kind = k_call \<or> kind = k_conditional_jump \<or> kind = k_loop"

definition set_insert :: "nat \<Rightarrow> nat list \<Rightarrow> nat list" where
  "set_insert x xs = (if x \<in> set xs then xs else insort x xs)"

definition next_start :: "nat \<Rightarrow> nat list \<Rightarrow> nat option" where
  "next_start cur xs = find (\<lambda>x. cur < x) xs"

definition direct_target ::
  "byte list \<Rightarrow> nat list \<Rightarrow> instruction \<Rightarrow> (cfg_error, nat list \<times> nat list \<times> bool) res" where
  "direct_target code starts i =
     (if has_direct_target (ins_kind i) then
        bindE (target_for i (length code)) (\<lambda>t.
          Inr ([t], set_insert t starts, t \<notin> set starts))
      else Inr ([], starts, False))"

definition finish_block ::
  "byte list \<Rightarrow> nat list \<Rightarrow> nat \<Rightarrow> instruction \<Rightarrow> nat \<Rightarrow>
     (cfg_error, basic_block \<times> nat list \<times> bool) res" where
  "finish_block code starts start i next =
     bindE (direct_target code starts i) (\<lambda>(succs, starts1, changed1).
       let condition = (if ins_kind i = k_conditional_jump \<or> ins_kind i = k_loop
                        then ins_condition i else c_always);
           block = (\<lambda>ss. \<lparr>bb_start = start, bb_end = next, bb_successors = ss,
                           bb_condition = condition\<rparr>)
       in if falls_through (ins_kind i) \<and> next < length code then
            Inr (block (succs @ [next]), set_insert next starts1, next \<notin> set starts1 \<or> changed1)
          else Inr (block succs, starts1, changed1))"

function walk ::
  "byte list \<Rightarrow> nat list \<Rightarrow> nat \<Rightarrow> nat \<Rightarrow> (cfg_error, basic_block \<times> nat list \<times> bool) res" where
  "walk code starts start position =
     (if position \<noteq> start \<and> position \<in> set starts then
        Inr (\<lparr>bb_start = start, bb_end = position, bb_successors = [position],
              bb_condition = c_always\<rparr>, starts, False)
      else bindE (wrapE DecodeFailed (decode_at code position)) (\<lambda>i.
        let next = position + ins_size i
        in if \<not> ends_block (ins_kind i) then
             if next = length code then
               Inr (\<lparr>bb_start = start, bb_end = next, bb_successors = [],
                     bb_condition = c_always\<rparr>, starts, False)
             else walk code starts start next
           else finish_block code starts start i next))"
  by pat_completeness auto
termination
  by (relation "measure (\<lambda>(code, starts, start, position). length code - position)")
    (auto dest: dec.dec_progress)

declare walk.simps [simp del]

lemma walk_inside: "walk code starts s s = Inr r \<Longrightarrow> s < length code"
  by (auto simp: walk.simps [of code starts s s] bindE_eq_Inr dest: dec.dec_inside)

lemma next_start_greater: "next_start cur xs = Some n \<Longrightarrow> cur < n \<and> n \<in> set xs"
  by (auto simp: next_start_def find_Some_iff)

function pass ::
  "byte list \<Rightarrow> nat list \<Rightarrow> nat \<Rightarrow> control_flow_graph \<Rightarrow> bool \<Rightarrow>
     (cfg_error, control_flow_graph \<times> nat list \<times> bool) res" where
  "pass code starts cur graph changed =
     bindE (walk code starts cur cur) (\<lambda>(block, starts', ch).
       let graph' = graph @ [block]; changed' = ch \<or> changed
       in case next_start cur starts' of
            None \<Rightarrow> Inr (graph', starts', changed')
          | Some n \<Rightarrow> pass code starts' n graph' changed')"
  by pat_completeness auto
termination
proof (relation "measure (\<lambda>(code, starts, cur, graph, changed). length code - cur)", goal_cases)
  case 1
  show ?case by simp
next
  case (2 code starts cur graph changed r block z starts' ch graph' changed' n)
  then show ?case by (auto dest!: walk_inside next_start_greater)
qed

declare pass.simps [simp del]

section \<open>The set of starts grows inside the code\<close>

lemma set_set_insert [simp]: "set (set_insert x xs) = insert x (set xs)"
  by (auto simp: set_insert_def set_insort_key)

lemma sorted_set_insert:
  "sorted xs \<Longrightarrow> distinct xs \<Longrightarrow> sorted (set_insert x xs) \<and> distinct (set_insert x xs)"
  by (auto simp: set_insert_def sorted_insort distinct_insort)

lemma target_for_bound: "target_for i n = Inr t \<Longrightarrow> t < n"
  by (auto simp: target_for_def Let_def split: if_splits)

definition grows :: "byte list \<Rightarrow> nat list \<Rightarrow> nat list \<Rightarrow> bool \<Rightarrow> bool" where
  "grows code starts starts' ch \<longleftrightarrow>
     set starts \<subseteq> set starts' \<and> set starts' \<subseteq> set starts \<union> {..<length code} \<and>
     (ch \<longleftrightarrow> set starts' \<noteq> set starts) \<and> (\<not> ch \<longrightarrow> starts' = starts) \<and>
     (sorted starts \<and> distinct starts \<longrightarrow> sorted starts' \<and> distinct starts')"

lemma grows_refl: "grows code xs xs False"
  by (simp add: grows_def)

lemma grows_insert: "x < length code \<Longrightarrow> grows code xs (set_insert x xs) (x \<notin> set xs)"
  using sorted_set_insert [of xs x] by (auto simp: grows_def set_insert_def set_insort_key)

lemma grows_trans: "grows code xs ys a \<Longrightarrow> grows code ys zs b \<Longrightarrow> grows code xs zs (b \<or> a)"
  by (auto simp: grows_def)

lemma grows_insert_after:
  "grows code xs ys a \<Longrightarrow> x < length code \<Longrightarrow> grows code xs (set_insert x ys) (x \<in> set ys \<longrightarrow> a)"
  unfolding imp_conv_disj by (rule grows_trans [OF _ grows_insert])

lemma direct_target_grows:
  "direct_target code starts i = Inr (succs, starts', ch) \<Longrightarrow> grows code starts starts' ch"
  by (auto simp: direct_target_def bindE_eq_Inr grows_refl split: if_split_asm
      intro!: grows_insert dest: target_for_bound)

lemma finish_block_grows:
  assumes "finish_block code starts s i next = Inr (b, starts', ch)"
  shows "grows code starts starts' ch"
proof (cases "direct_target code starts i")
  case (Inl e)
  with assms show ?thesis by (simp add: finish_block_def)
next
  case (Inr r)
  then obtain succs starts1 ch1 where r: "direct_target code starts i = Inr (succs, starts1, ch1)"
    by (cases r) auto
  with assms have
    "(if falls_through (ins_kind i) \<and> next < length code
      then starts' = set_insert next starts1 \<and> ch = (next \<notin> set starts1 \<or> ch1)
      else starts' = starts1 \<and> ch = ch1)"
    by (cases "falls_through (ins_kind i) \<and> next < length code")
      (auto simp: finish_block_def Let_def)
  with direct_target_grows [OF r] show ?thesis
    by (simp split: if_split_asm add: grows_insert_after)
qed

lemma walk_grows: "walk code starts s p = Inr (b, starts', ch) \<Longrightarrow> grows code starts starts' ch"
proof (induction code starts s p rule: walk.induct)
  case (1 code starts s p)
  then show ?case
    by (auto simp: walk.simps [of code starts s p] bindE_eq_Inr Let_def grows_refl
        intro: finish_block_grows split: if_split_asm)
qed

lemma pass_grows:
  "pass code starts cur g changed = Inr (g', starts', ch') \<Longrightarrow>
     \<exists>ch. grows code starts starts' ch \<and> ch' = (ch \<or> changed)"
proof (induction code starts cur g changed rule: pass.induct)
  case (1 code starts cur g changed)
  from "1.prems" obtain b starts1 ch1 where w: "walk code starts cur cur = Inr (b, starts1, ch1)"
    by (auto simp: pass.simps [of code starts cur g changed] bindE_eq_Inr)
  show ?case
  proof (cases "next_start cur starts1")
    case None
    with w "1.prems" walk_grows [OF w] show ?thesis
      by (auto simp: pass.simps [of code starts cur g changed] Let_def)
  next
    case (Some n)
    with w "1.prems" have "pass code starts1 n (g @ [b]) (ch1 \<or> changed) = Inr (g', starts', ch')"
      by (simp add: pass.simps [of code starts cur g changed] Let_def)
    from "1.IH" [OF w refl refl refl refl Some this] obtain ch where
      "grows code starts1 starts' ch" and "ch' = (ch \<or> ch1 \<or> changed)" by blast
    with grows_trans [OF walk_grows [OF w]] show ?thesis by blast
  qed
qed

function build_loop :: "byte list \<Rightarrow> nat list \<Rightarrow> (cfg_error, control_flow_graph) res" where
  "build_loop code starts =
     (case starts of
        [] \<Rightarrow> Inr []
      | s # _ \<Rightarrow>
          bindE (pass code starts s [] False) (\<lambda>(graph, starts', changed).
            if \<not> changed then Inr graph else build_loop code starts'))"
  by pat_completeness auto
termination
proof (relation "measure (\<lambda>(code, starts). card ({..<length code} - set starts))", goal_cases)
  case 1
  show ?case by simp
next
  case (2 code starts s ss r graph z starts' changed)
  then have "grows code starts starts' True"
    using pass_grows [of code starts s "[]" False] by auto
  then have "{..<length code} - set starts' \<subset> {..<length code} - set starts"
    by (auto simp: grows_def)
  then show ?case by (auto intro: psubset_card_mono)
qed

declare build_loop.simps [simp del]

definition build :: "byte list \<Rightarrow> nat \<Rightarrow> (cfg_error, control_flow_graph) res" where
  "build code entry_offset =
     (if entry_offset \<ge> length code then Inl (Fail EntryOutside)
      else build_loop code [entry_offset])"

end
