(* ===== verification/CfgFacts.thy ===== *)
theory CfgFacts
  imports CfgBuilder
begin

text \<open>
  What \<open>cfg_builder::build\<close> makes. \<open>ireach\<close> are the instruction positions that the code follows from the
  entry: direct control flow, and the instruction behind an indirect CALL or JMP, which the decoder gives
  the relative target 0 and the builder does not tell from a direct one (\<open>DirectFlow\<close> is about programs
  that reach none). The blocks of a built graph start at
  distinct positions inside the code, end in control transfers that their successor lists describe,
  have successors that start blocks of the same graph, and cover exactly the reachable positions.
\<close>

section \<open>Specification\<close>

text \<open>The positions a block walk visits from \<open>p\<close> without meeting a terminator or another start.\<close>

inductive trail :: "byte list \<Rightarrow> nat list \<Rightarrow> nat \<Rightarrow> nat \<Rightarrow> bool" for code starts where
  trail_refl: "trail code starts p p"
| trail_step: "decode_at code p = Inr i \<Longrightarrow> \<not> ends_block (ins_kind i) \<Longrightarrow>
    p + ins_size i \<noteq> length code \<Longrightarrow> p + ins_size i \<notin> set starts \<Longrightarrow>
    trail code starts (p + ins_size i) q \<Longrightarrow> trail code starts p q"

definition exit_successors ::
  "byte list \<Rightarrow> nat list \<Rightarrow> instruction \<Rightarrow> nat \<Rightarrow> nat list \<Rightarrow> bool" where
  "exit_successors code starts i e succs \<longleftrightarrow>
     (if \<not> ends_block (ins_kind i) then
        (if e = length code then succs = [] else e \<in> set starts \<and> succs = [e])
      else \<exists>ts. (if has_direct_target (ins_kind i)
                 then \<exists>t. target_for i (length code) = Inr t \<and> ts = [t] else ts = []) \<and>
             succs = ts @ (if falls_through (ins_kind i) \<and> e < length code then [e] else []))"

definition block_ends_with :: "byte list \<Rightarrow> nat list \<Rightarrow> basic_block \<Rightarrow> instruction \<Rightarrow> bool" where
  "block_ends_with code starts b i \<longleftrightarrow>
     trail code starts (bb_start b) (ins_offset i) \<and> decode_at code (ins_offset i) = Inr i \<and>
     bb_end b = ins_offset i + ins_size i \<and>
     exit_successors code starts i (bb_end b) (bb_successors b) \<and>
     bb_condition b = (if ins_kind i = k_conditional_jump \<or> ins_kind i = k_loop
                       then ins_condition i else c_always)"

definition wf_block :: "byte list \<Rightarrow> nat list \<Rightarrow> basic_block \<Rightarrow> bool" where
  "wf_block code starts b \<longleftrightarrow> (\<exists>i. block_ends_with code starts b i)"

text \<open>The instruction positions that the code follows.\<close>

inductive ireach :: "byte list \<Rightarrow> nat \<Rightarrow> nat \<Rightarrow> bool" for code entry where
  ireach_entry: "ireach code entry entry"
| ireach_next: "ireach code entry p \<Longrightarrow> decode_at code p = Inr i \<Longrightarrow> \<not> ends_block (ins_kind i) \<Longrightarrow>
    p + ins_size i \<noteq> length code \<Longrightarrow> ireach code entry (p + ins_size i)"
| ireach_target: "ireach code entry p \<Longrightarrow> decode_at code p = Inr i \<Longrightarrow> ends_block (ins_kind i) \<Longrightarrow>
    has_direct_target (ins_kind i) \<Longrightarrow> target_for i (length code) = Inr t \<Longrightarrow> ireach code entry t"
| ireach_fall: "ireach code entry p \<Longrightarrow> decode_at code p = Inr i \<Longrightarrow> falls_through (ins_kind i) \<Longrightarrow>
    p + ins_size i < length code \<Longrightarrow> ireach code entry (p + ins_size i)"

inductive_cases trail_elim: "trail code starts p q"

definition block_starts :: "control_flow_graph \<Rightarrow> nat list" where
  "block_starts g = map bb_start g"

lemma falls_through_ends: "falls_through k \<Longrightarrow> ends_block k"
  by (auto simp: falls_through_def ends_block_def)

lemma trail_snoc:
  "trail code starts p q \<Longrightarrow> decode_at code q = Inr i \<Longrightarrow> \<not> ends_block (ins_kind i) \<Longrightarrow>
     q + ins_size i \<noteq> length code \<Longrightarrow> q + ins_size i \<notin> set starts \<Longrightarrow>
     trail code starts p (q + ins_size i)"
  by (induction rule: trail.induct) (auto intro: trail.intros)

section \<open>Single walks\<close>

lemma direct_target_Inr:
  assumes "direct_target code starts i = Inr (ts, starts', ch)"
  shows "(if has_direct_target (ins_kind i)
          then \<exists>t. target_for i (length code) = Inr t \<and> ts = [t] else ts = [])"
    and "set starts' = set starts \<union> set ts"
  using assms by (auto simp: direct_target_def bindE_eq_Inr split: if_split_asm)

lemma finish_block_Inr:
  assumes "finish_block code starts s i e = Inr (b, starts', ch)" and "ends_block (ins_kind i)"
  shows "bb_start b = s" and "bb_end b = e" and "set starts' = set starts \<union> set (bb_successors b)"
    and "exit_successors code starts0 i e (bb_successors b)"
    and "bb_condition b = (if ins_kind i = k_conditional_jump \<or> ins_kind i = k_loop
                       then ins_condition i else c_always)"
proof -
  obtain ts starts1 ch1 where t: "direct_target code starts i = Inr (ts, starts1, ch1)"
    using assms(1) by (cases "direct_target code starts i") (auto simp: finish_block_def)
  define tail where "tail = (if falls_through (ins_kind i) \<and> e < length code then [e] else [])"
  have b: "bb_start b = s \<and> bb_end b = e \<and> bb_successors b = ts @ tail \<and>
      set starts' = set starts1 \<union> set tail \<and>
      bb_condition b = (if ins_kind i = k_conditional_jump \<or> ins_kind i = k_loop
                       then ins_condition i else c_always)"
    using assms(1) t
    by (cases "falls_through (ins_kind i) \<and> e < length code")
      (auto simp: finish_block_def Let_def tail_def)
  then show "bb_start b = s" "bb_end b = e"
    and "bb_condition b = (if ins_kind i = k_conditional_jump \<or> ins_kind i = k_loop
                       then ins_condition i else c_always)"
    by blast+
  from b direct_target_Inr(2) [OF t] show "set starts' = set starts \<union> set (bb_successors b)" by auto
  from b assms(2) direct_target_Inr(1) [OF t] show "exit_successors code starts0 i e (bb_successors b)"
    by (simp add: exit_successors_def tail_def)
qed

lemma walk_Inr:
  assumes "walk code starts s p = Inr (b, starts', ch)" and "s < p \<longrightarrow> p \<notin> set starts" and "s \<le> p"
    and "trail code starts s p"
  shows "\<exists>i. bb_start b = s \<and> block_ends_with code starts b i \<and> 
      set starts' \<subseteq> set starts \<union> set (bb_successors b) \<and> set (bb_successors b) \<subseteq> set starts'"
  using assms
proof (induction code starts s p rule: walk.induct)
  case (1 code starts s p)
  have notin: "\<not> (p \<noteq> s \<and> p \<in> set starts)" using "1.prems"(2,3) by auto
  with "1.prems"(1) obtain i where i: "decode_at code p = Inr i"
    by (auto simp: walk.simps [of code starts s p] bindE_eq_Inr)
  have off: "ins_offset i = p" by (rule dec.dec_offset [OF i])
  have w: "walk code starts s p =
      (if \<not> ends_block (ins_kind i) then
             if p + ins_size i = length code then
               Inr (\<lparr>bb_start = s, bb_end = p + ins_size i, bb_successors = [],
                     bb_condition = c_always\<rparr>, starts, False)
             else walk code starts s (p + ins_size i)
       else finish_block code starts s i (p + ins_size i))"
    using notin i by (auto simp: walk.simps [of code starts s p] Let_def)
  consider (stop) "ends_block (ins_kind i)"
    | (image_end) "\<not> ends_block (ins_kind i)" "p + ins_size i = length code"
    | (next_block) "\<not> ends_block (ins_kind i)" "p + ins_size i \<noteq> length code"
        "p + ins_size i \<in> set starts"
    | (continue) "\<not> ends_block (ins_kind i)" "p + ins_size i \<noteq> length code"
        "p + ins_size i \<notin> set starts"
    by blast
  then show ?case
  proof cases
    case stop
    with w "1.prems"(1) have f: "finish_block code starts s i (p + ins_size i) = Inr (b, starts', ch)"
      by simp
    from finish_block_Inr [OF f stop] i off "1.prems"(4) show ?thesis
      by (intro exI [of _ i]) (simp add: block_ends_with_def)
  next
    case image_end
    with w "1.prems" i off show ?thesis
      by (intro exI [of _ i])
        (auto simp: block_ends_with_def exit_successors_def ends_block_def)
  next
    case next_block
    have "p + ins_size i \<noteq> s" using dec.dec_nonempty [OF i] "1.prems"(3) by simp
    with next_block w "1.prems" i off show ?thesis
      by (intro exI [of _ i])
        (auto simp: block_ends_with_def exit_successors_def ends_block_def
          walk.simps [of code starts s "p + ins_size i"])
  next
    case continue
    with w "1.prems"(1) have "walk code starts s (p + ins_size i) = Inr (b, starts', ch)" by simp
    moreover have "trail code starts s (p + ins_size i)"
      using "1.prems"(4) i continue by (rule trail_snoc)
    ultimately show ?thesis
      using "1.IH" [OF notin] i continue "1.prems"(3) by simp
  qed
qed

lemma walk_block:
  assumes "walk code starts s s = Inr (b, starts', ch)"
  shows "bb_start b = s" and "wf_block code starts b"
    and "set (bb_successors b) \<subseteq> set starts'" and "set starts' \<subseteq> set starts \<union> set (bb_successors b)"
  using walk_Inr [OF assms] by (auto simp: trail_refl wf_block_def)

section \<open>Passes over an unchanged set of starts\<close>

lemma filter_from_member:
  "sorted xs \<Longrightarrow> distinct xs \<Longrightarrow> cur \<in> set xs \<Longrightarrow>
     filter (\<lambda>x. cur \<le> x) xs = cur # filter (\<lambda>x. cur < x) (xs :: nat list)"
proof (induction xs)
  case Nil
  then show ?case by simp
next
  case (Cons x xs)
  show ?case
  proof (cases "x = cur")
    case True
    with Cons.prems have "\<forall>y \<in> set xs. cur < y" by (auto simp: le_less)
    with True show ?thesis by (simp add: filter_True less_imp_le)
  next
    case False
    with Cons show ?thesis by auto
  qed
qed

lemma next_start_None: "next_start cur xs = None \<Longrightarrow> filter (\<lambda>x. cur < x) xs = []"
  by (auto simp: next_start_def find_None_iff filter_empty_conv)

lemma next_start_Some:
  "sorted xs \<Longrightarrow> next_start cur xs = Some n \<Longrightarrow>
     filter (\<lambda>x. cur < x) xs = filter (\<lambda>x. n \<le> x) (xs :: nat list)"
proof (induction xs)
  case Nil
  then show ?case by simp
next
  case (Cons x xs)
  show ?case
  proof (cases "cur < x")
    case True
    with Cons.prems have "n = x" and "\<forall>y \<in> set xs. x \<le> y \<and> cur < y"
      by (auto simp: next_start_def)
    with True show ?thesis by (simp add: filter_True)
  next
    case False
    with Cons.prems(2) have n: "next_start cur xs = Some n" by (simp add: next_start_def)
    with False next_start_greater [OF n] Cons show ?thesis by simp
  qed
qed

lemma pass_unchanged:
  "pass code starts cur g changed = Inr (g', starts', False) \<Longrightarrow> sorted starts \<Longrightarrow> distinct starts \<Longrightarrow>
     cur \<in> set starts \<Longrightarrow>
     \<exists>bs. g' = g @ bs \<and> block_starts bs = filter (\<lambda>x. cur \<le> x) starts \<and>
       (\<forall>b \<in> set bs. wf_block code starts b \<and> set (bb_successors b) \<subseteq> set starts)"
proof (induction code starts cur g changed rule: pass.induct)
  case (1 code starts cur g changed)
  note unfold = pass.simps [of code starts cur g changed]
  from "1.prems"(1) obtain b starts1 ch1 where w: "walk code starts cur cur = Inr (b, starts1, ch1)"
    by (auto simp: unfold bindE_eq_Inr)
  have "\<not> ch1"
  proof (cases "next_start cur starts1")
    case None
    with w "1.prems"(1) show ?thesis by (simp add: unfold Let_def)
  next
    case (Some n)
    with w "1.prems"(1) show ?thesis
      by (auto simp: unfold Let_def dest!: pass_grows)
  qed
  with walk_grows [OF w] have same: "starts1 = starts" by (simp add: grows_def)
  note wf = walk_block [OF w, unfolded same]
  note here = filter_from_member [OF "1.prems"(2-4)]
  show ?case
  proof (cases "next_start cur starts")
    case None
    with w same wf "1.prems"(1) here next_start_None [OF None] show ?thesis
      by (intro exI [of _ "[b]"]) (simp add: unfold Let_def block_starts_def)
  next
    case (Some n)
    with w same "1.prems"(1)
    have "pass code starts n (g @ [b]) (ch1 \<or> changed) = Inr (g', starts', False)"
      by (simp add: unfold Let_def)
    from "1.IH" [OF w refl refl refl refl _ ] this same Some "1.prems"(2,3) next_start_greater [OF Some]
    obtain bs where "g' = (g @ [b]) @ bs" "block_starts bs = filter (\<lambda>x. n \<le> x) starts"
      "\<forall>b \<in> set bs. wf_block code starts b \<and> set (bb_successors b) \<subseteq> set starts"
      by blast
    with here wf next_start_Some [OF "1.prems"(2) Some] show ?thesis
      by (intro exI [of _ "b # bs"]) (simp add: block_starts_def)
  qed
qed

section \<open>Soundness: starts are reachable\<close>

lemma trail_ireach: "trail code starts p q \<Longrightarrow> ireach code entry p \<Longrightarrow> ireach code entry q"
  by (induction rule: trail.induct) (auto intro: ireach_next)

lemma successors_ireach:
  assumes b: "block_ends_with code starts b i" and s: "ireach code entry (bb_start b)"
    and starts: "\<forall>x \<in> set starts. ireach code entry x" and t: "t \<in> set (bb_successors b)"
  shows "ireach code entry t"
proof -
  from b s have at_end: "ireach code entry (ins_offset i)"
    by (auto simp: block_ends_with_def intro: trail_ireach)
  from b have d: "decode_at code (ins_offset i) = Inr i"
    and e: "bb_end b = ins_offset i + ins_size i"
    and x: "exit_successors code starts i (bb_end b) (bb_successors b)"
    by (auto simp: block_ends_with_def)
  show ?thesis
  proof (cases "ends_block (ins_kind i)")
    case False
    with x t starts show ?thesis by (auto simp: exit_successors_def split: if_split_asm)
  next
    case True
    with x t ireach_target [OF at_end d] ireach_fall [OF at_end d] e show ?thesis
      by (auto simp: exit_successors_def split: if_split_asm)
  qed
qed

definition sound_starts :: "byte list \<Rightarrow> nat \<Rightarrow> nat list \<Rightarrow> bool" where
  "sound_starts code entry starts \<longleftrightarrow>
     sorted starts \<and> distinct starts \<and> entry \<in> set starts \<and> set starts \<subseteq> {..<length code} \<and>
     (\<forall>x \<in> set starts. ireach code entry x)"

lemma walk_sound:
  assumes "walk code starts s s = Inr (b, starts', ch)" and "sound_starts code entry starts"
    and "s \<in> set starts"
  shows "sound_starts code entry starts'"
proof -
  obtain i where "block_ends_with code starts b i"
    using walk_block(2) [OF assms(1)] by (auto simp: wf_block_def)
  with assms(2,3) walk_block(1) [OF assms(1)]
  have "\<forall>t \<in> set (bb_successors b). ireach code entry t"
    by (auto simp: sound_starts_def intro: successors_ireach)
  with walk_block(4) [OF assms(1)] walk_grows [OF assms(1)] assms(2) show ?thesis
    unfolding sound_starts_def grows_def by blast
qed

lemma pass_sound:
  "pass code starts cur g changed = Inr (g', starts', ch') \<Longrightarrow> sound_starts code entry starts \<Longrightarrow>
     cur \<in> set starts \<Longrightarrow> sound_starts code entry starts'"
proof (induction code starts cur g changed rule: pass.induct)
  case (1 code starts cur g changed)
  note unfold = pass.simps [of code starts cur g changed]
  from "1.prems"(1) obtain b starts1 ch1 where w: "walk code starts cur cur = Inr (b, starts1, ch1)"
    by (auto simp: unfold bindE_eq_Inr)
  note sound1 = walk_sound [OF w "1.prems"(2,3)]
  show ?case
  proof (cases "next_start cur starts1")
    case None
    with w "1.prems"(1) sound1 show ?thesis by (simp add: unfold Let_def)
  next
    case (Some n)
    with w "1.prems"(1) have "pass code starts1 n (g @ [b]) (ch1 \<or> changed) = Inr (g', starts', ch')"
      by (simp add: unfold Let_def)
    from "1.IH" [OF w refl refl refl refl Some this sound1] next_start_greater [OF Some]
    show ?thesis by blast
  qed
qed

section \<open>The built graph\<close>

definition good_graph :: "byte list \<Rightarrow> nat \<Rightarrow> control_flow_graph \<Rightarrow> bool" where
  "good_graph code entry g \<longleftrightarrow>
     sound_starts code entry (block_starts g) \<and>
     (\<forall>b \<in> set g. wf_block code (block_starts g) b \<and>
        set (bb_successors b) \<subseteq> set (block_starts g))"

lemma filter_from_least: "sorted (s # ss) \<Longrightarrow> filter (\<lambda>x. s \<le> x) (s # ss) = s # (ss :: nat list)"
  by (auto simp: filter_id_conv)

lemma build_loop_good:
  "build_loop code starts = Inr g \<Longrightarrow> sound_starts code entry starts \<Longrightarrow> good_graph code entry g"
proof (induction code starts rule: build_loop.induct)
  case (1 code starts)
  from "1.prems"(2) obtain s ss where starts: "starts = s # ss"
    by (cases starts) (auto simp: sound_starts_def)
  with "1.prems"(1) obtain g1 starts1 ch1 where p: "pass code starts s [] False = Inr (g1, starts1, ch1)"
    by (auto simp: build_loop.simps [of code "s # ss"] bindE_eq_Inr)
  show ?case
  proof (cases ch1)
    case True
    with p starts "1.prems"(1) have "build_loop code starts1 = Inr g"
      by (simp add: build_loop.simps [of code "s # ss"])
    moreover have "sound_starts code entry starts1"
      using pass_sound [OF p "1.prems"(2)] starts by simp
    ultimately show ?thesis using "1.IH" [OF starts p] True by simp
  next
    case False
    with p starts "1.prems"(1) have "g = g1" by (simp add: build_loop.simps [of code "s # ss"])
    with pass_unchanged [of code starts s "[]" False g1 starts1] p False starts "1.prems"(2)
      filter_from_least [of s ss]
    have "block_starts g = starts \<and>
        (\<forall>b \<in> set g. wf_block code starts b \<and> set (bb_successors b) \<subseteq> set starts)"
      by (auto simp: sound_starts_def)
    with "1.prems"(2) show ?thesis by (simp add: good_graph_def)
  qed
qed

lemma build_good: "build code entry = Inr g \<Longrightarrow> good_graph code entry g"
  by (auto simp: build_def sound_starts_def ireach_entry split: if_split_asm intro: build_loop_good)

section \<open>Completeness: every reachable position is in a block\<close>

definition covered :: "byte list \<Rightarrow> control_flow_graph \<Rightarrow> nat \<Rightarrow> bool" where
  "covered code g p \<longleftrightarrow> (\<exists>b \<in> set g. trail code (block_starts g) (bb_start b) p)"

lemma start_covered: "p \<in> set (block_starts g) \<Longrightarrow> covered code g p"
  by (auto simp: covered_def block_starts_def intro: trail_refl)

lemma trail_cut:
  assumes "trail code starts s q" and "trail code starts s p"
  shows "trail code starts p q \<or> trail code starts q p"
  using assms
proof (induction arbitrary: p rule: trail.induct)
  case (trail_refl s)
  then show ?case by simp
next
  case (trail_step s i q)
  from trail_step.prems show ?case
  proof (cases rule: trail.cases)
    case trail_refl
    with trail_step.hyps show ?thesis by (auto intro: trail.trail_step)
  next
    case (trail_step j)
    with \<open>decode_at code s = Inr i\<close> have "trail code starts (s + ins_size i) p" by simp
    then show ?thesis by (rule trail_step.IH)
  qed
qed

lemma trail_stops:
  "trail code starts p q \<Longrightarrow> decode_at code p = Inr i \<Longrightarrow>
     ends_block (ins_kind i) \<or> p + ins_size i = length code \<or> p + ins_size i \<in> set starts \<Longrightarrow> p = q"
  by (auto elim: trail.cases)

lemma covered_end:
  assumes "covered code g p" and "decode_at code p = Inr i" and "good_graph code entry g"
    and "ends_block (ins_kind i)"
  shows "\<exists>b \<in> set g. block_ends_with code (block_starts g) b i"
proof -
  let ?S = "block_starts g"
  obtain b where b: "b \<in> set g" "trail code ?S (bb_start b) p"
    using assms(1) by (auto simp: covered_def)
  with assms(3) obtain j where j: "block_ends_with code ?S b j"
    by (auto simp: good_graph_def wf_block_def)
  then have t: "trail code ?S (bb_start b) (ins_offset j)" and dj: "decode_at code (ins_offset j) = Inr j"
    by (auto simp: block_ends_with_def)
  have "ends_block (ins_kind j) \<or> ins_offset j + ins_size j = length code \<or> 
      ins_offset j + ins_size j \<in> set ?S"
    using j by (auto simp: block_ends_with_def exit_successors_def split: if_split_asm)
  with trail_cut [OF t b(2)] trail_stops [OF _ assms(2)] trail_stops [OF _ dj] assms(4)
  have "p = ins_offset j" by blast
  with dj assms(2) j b(1) show ?thesis by auto
qed

lemma ireach_covered:
  assumes g: "good_graph code entry g"
  shows "ireach code entry p \<Longrightarrow> covered code g p"
proof (induction rule: ireach.induct)
  case ireach_entry
  with g show ?case by (auto simp: good_graph_def sound_starts_def intro: start_covered)
next
  case (ireach_next p i)
  show ?case
  proof (cases "p + ins_size i \<in> set (block_starts g)")
    case True
    then show ?thesis by (rule start_covered)
  next
    case False
    with ireach_next show ?thesis by (auto simp: covered_def intro: trail_snoc)
  qed
next
  case (ireach_target p i t)
  with g covered_end obtain b where "b \<in> set g" "block_ends_with code (block_starts g) b i" by blast
  with ireach_target have "t \<in> set (bb_successors b)"
    by (auto simp: block_ends_with_def exit_successors_def split: if_split_asm)
  with g \<open>b \<in> set g\<close> show ?case by (auto simp: good_graph_def intro!: start_covered)
next
  case (ireach_fall p i)
  with g covered_end falls_through_ends obtain b where "b \<in> set g"
    and b: "block_ends_with code (block_starts g) b i" by blast
  from b ireach_fall.hyps dec.dec_offset [OF ireach_fall.hyps(2)] falls_through_ends
  have "p + ins_size i \<in> set (bb_successors b)"
    by (auto simp: block_ends_with_def exit_successors_def)
  with g \<open>b \<in> set g\<close> show ?case by (auto simp: good_graph_def intro!: start_covered)
qed

lemma covered_iff_ireach:
  assumes g: "good_graph code entry g"
  shows "covered code g p \<longleftrightarrow> ireach code entry p"
proof
  assume "covered code g p"
  then obtain b where "b \<in> set g" "trail code (block_starts g) (bb_start b) p"
    by (auto simp: covered_def)
  moreover from this g have "ireach code entry (bb_start b)"
    by (auto simp: good_graph_def sound_starts_def block_starts_def)
  ultimately show "ireach code entry p" by (auto intro: trail_ireach)
qed (rule ireach_covered [OF g])

lemma successors_le_2:
  assumes "wf_block code starts b"
  shows "length (bb_successors b) \<le> 2"
  using assms
  by (auto simp: wf_block_def block_ends_with_def exit_successors_def split: if_split_asm)

end
