(* ===== verification/Recovery.thy ===== *)
theory Recovery
  imports CfgFacts
begin

text \<open>
  \<open>analysis/function_recovery.cpp\<close> and \<open>analysis/loop_recovery.cpp\<close>. Both decode every block again,
  from its start to its end, and look at the last instruction. The \<open>std::map\<close> from function entries
  to call sites is an association list with ascending keys.
\<close>

datatype recovery_error = InvalidBoundaries | EndNotBoundary | CallOutside

text \<open>The inner loop of both passes: the last instruction starts as the value-initialised instruction.\<close>

function scan_block ::
  "byte list \<Rightarrow> nat \<Rightarrow> nat \<Rightarrow> instruction \<Rightarrow> (recovery_error, nat \<times> instruction) res" where
  "scan_block code position finish lst =
     (if position < finish then
        (case decode_at code position of
           Inl Undefined \<Rightarrow> Inl Undefined
         | Inl (Fail _) \<Rightarrow> Inl (Fail InvalidBoundaries)
         | Inr i \<Rightarrow>
             if position + ins_size i > finish then Inl (Fail InvalidBoundaries)
             else scan_block code (position + ins_size i) finish i)
      else Inr (position, lst))"
  by pat_completeness auto
termination
  by (relation "measure (\<lambda>(code, position, finish, lst). finish - position)")
    (auto dest: dec.dec_nonempty)

declare scan_block.simps [simp del]

definition no_instruction :: instruction where
  "no_instruction = basic k_nop 0 0 0 0"

record recovered_loop =
  rl_header :: nat
  rl_latch :: nat

definition loop_branches :: "instruction_kind \<Rightarrow> bool" where
  "loop_branches k \<longleftrightarrow> k = k_jump \<or> k = k_conditional_jump \<or> k = k_loop"

definition block_loops ::
  "byte list \<Rightarrow> basic_block \<Rightarrow> (recovery_error, recovered_loop list) res" where
  "block_loops code b =
     bindE (scan_block code (bb_start b) (bb_end b) no_instruction) (\<lambda>(_, lst).
       Inr (if loop_branches (ins_kind lst)
            then map (\<lambda>t. \<lparr>rl_header = t, rl_latch = bb_start b\<rparr>)
                   (filter (\<lambda>t. t \<le> bb_start b) (bb_successors b))
            else []))"

fun recover_loops ::
  "byte list \<Rightarrow> control_flow_graph \<Rightarrow> (recovery_error, recovered_loop list) res" where
  "recover_loops code [] = Inr []"
| "recover_loops code (b # bs) =
     bindE (block_loops code b) (\<lambda>ls. bindE (recover_loops code bs) (\<lambda>rest. Inr (ls @ rest)))"

section \<open>Functions\<close>

type_synonym function_map = "(nat \<times> nat list) list"

text \<open>\<open>functions[key].push_back(site)\<close> on the ordered map.\<close>

fun push_site :: "nat \<Rightarrow> nat \<Rightarrow> function_map \<Rightarrow> function_map" where
  "push_site key site [] = [(key, [site])]"
| "push_site key site ((k, sites) # m) =
     (if key = k then (k, sites @ [site]) # m
      else if key < k then (key, [site]) # (k, sites) # m
      else (k, sites) # push_site key site m)"

definition block_functions ::
  "byte list \<Rightarrow> basic_block \<Rightarrow> function_map \<Rightarrow> (recovery_error, function_map) res" where
  "block_functions code b functions =
     bindE (scan_block code (bb_start b) (bb_end b) no_instruction) (\<lambda>(position, lst).
       if position \<noteq> bb_end b then Inl (Fail EndNotBoundary)
       else if ins_kind lst \<noteq> k_call then Inr functions
       else let target = int (bb_end b) + ins_relative_target lst in
            if target < 0 \<or> target \<ge> int (length code) then Inl (Fail CallOutside)
            else Inr (push_site (nat target) (ins_offset lst) functions))"

fun recover_blocks ::
  "byte list \<Rightarrow> control_flow_graph \<Rightarrow> function_map \<Rightarrow> (recovery_error, function_map) res" where
  "recover_blocks code [] functions = Inr functions"
| "recover_blocks code (b # bs) functions =
     bindE (block_functions code b functions) (recover_blocks code bs)"

definition recover_functions ::
  "byte list \<Rightarrow> control_flow_graph \<Rightarrow> nat \<Rightarrow> (recovery_error, function_map) res" where
  "recover_functions code g entry = recover_blocks code g [(entry, [])]"

section \<open>Blocks of a built graph scan to their terminator\<close>

lemma scan_block_trail:
  "trail code starts p q \<Longrightarrow> decode_at code q = Inr i \<Longrightarrow>
     scan_block code p (q + ins_size i) lst = Inr (q + ins_size i, i) \<and> p \<le> q"
proof (induction arbitrary: lst rule: trail.induct)
  case (trail_refl p)
  then show ?case
    using dec.dec_nonempty [OF trail_refl.prems]
    by (simp add: scan_block.simps [of code p] scan_block.simps [of code "p + ins_size i"])
next
  case (trail_step p j q)
  note ih = trail_step.IH [OF trail_step.prems]
  from ih have "p + ins_size j \<le> q + ins_size i" and "p < q + ins_size i" and "p \<le> q"
    using dec.dec_nonempty [OF trail_step.prems] dec.dec_nonempty [OF trail_step.hyps(1)]
    by fastforce+
  with ih trail_step.hyps show ?case by (simp add: scan_block.simps [of code p])
qed

lemma scan_block_ends:
  "block_ends_with code starts b i \<Longrightarrow>
     scan_block code (bb_start b) (bb_end b) no_instruction = Inr (bb_end b, i)"
  by (auto simp: block_ends_with_def scan_block_trail)

lemma block_loops_spec:
  assumes "block_ends_with code starts b i"
  shows "block_loops code b = Inr (if loop_branches (ins_kind i)
            then map (\<lambda>t. \<lparr>rl_header = t, rl_latch = bb_start b\<rparr>)
                   (filter (\<lambda>t. t \<le> bb_start b) (bb_successors b)) else [])"
  by (simp add: block_loops_def scan_block_ends [OF assms])

lemma block_ends_with_iff:
  assumes "block_ends_with code starts b i"
  shows "block_ends_with code starts b j \<longleftrightarrow> j = i"
  using scan_block_ends [OF assms] scan_block_ends [of code starts b j] assms by auto

text \<open>The loops of a graph: the backward edges of its jump, conditional and LOOP blocks.\<close>

definition back_edge :: "byte list \<Rightarrow> nat list \<Rightarrow> basic_block \<Rightarrow> nat \<Rightarrow> bool" where
  "back_edge code starts b t \<longleftrightarrow>
     (\<exists>i. block_ends_with code starts b i \<and> loop_branches (ins_kind i)) \<and>
     t \<in> set (bb_successors b) \<and> t \<le> bb_start b"

lemma back_edge_iff:
  assumes "block_ends_with code starts b i"
  shows "back_edge code starts b t \<longleftrightarrow>
     loop_branches (ins_kind i) \<and> t \<in> set (bb_successors b) \<and> t \<le> bb_start b"
  by (simp add: back_edge_def block_ends_with_iff [OF assms])

lemma recover_loops_spec:
  "\<forall>b \<in> set g. wf_block code starts b \<Longrightarrow>
     \<exists>ls. recover_loops code g = Inr ls \<and>
       (\<forall>l. l \<in> set ls \<longleftrightarrow>
          (\<exists>b \<in> set g. back_edge code starts b (rl_header l) \<and> rl_latch l = bb_start b))"
proof (induction g)
  case Nil
  then show ?case by simp
next
  case (Cons b g)
  then obtain i where i: "block_ends_with code starts b i" by (auto simp: wf_block_def)
  from Cons obtain ls where "recover_loops code g = Inr ls"
    and ls: "\<forall>l. l \<in> set ls \<longleftrightarrow>
          (\<exists>b \<in> set g. back_edge code starts b (rl_header l) \<and> rl_latch l = bb_start b)"
    by auto
  moreover define ls1 where "ls1 = (if loop_branches (ins_kind i)
            then map (\<lambda>t. \<lparr>rl_header = t, rl_latch = bb_start b\<rparr>)
                   (filter (\<lambda>t. t \<le> bb_start b) (bb_successors b)) else [])"
  moreover have "l \<in> set ls1 \<longleftrightarrow> back_edge code starts b (rl_header l) \<and> rl_latch l = bb_start b" for l
    by (cases l) (auto simp: back_edge_iff [OF i] ls1_def)
  ultimately have "recover_loops code (b # g) = Inr (ls1 @ ls)"
    and "\<forall>l. l \<in> set (ls1 @ ls) \<longleftrightarrow>
      (\<exists>c \<in> set (b # g). back_edge code starts c (rl_header l) \<and> rl_latch l = bb_start c)"
    using block_loops_spec [OF i] by (simp_all del: recover_loops.simps add: recover_loops.simps(2))
  then show ?case by blast
qed

text \<open>
  The call sites of a function as the code counts them: the call instructions that end a block and whose
  relative target it is, an indirect CALL with its target 0 included.
\<close>

definition calls_at :: "byte list \<Rightarrow> nat list \<Rightarrow> basic_block \<Rightarrow> nat \<Rightarrow> nat \<Rightarrow> bool" where
  "calls_at code starts b target site \<longleftrightarrow>
     (\<exists>i. block_ends_with code starts b i \<and> ins_kind i = k_call \<and> ins_offset i = site \<and>
        int target = int (bb_end b) + ins_relative_target i)"

definition site_of :: "function_map \<Rightarrow> nat \<Rightarrow> nat \<Rightarrow> bool" where
  "site_of m key site \<longleftrightarrow> (\<exists>sites. (key, sites) \<in> set m \<and> site \<in> set sites)"

lemma site_of_push:
  "site_of (push_site key site m) k s \<longleftrightarrow> site_of m k s \<or> k = key \<and> s = site"
  by (induction key site m rule: push_site.induct) (auto simp: site_of_def)

lemma keys_push: "fst ` set (push_site key site m) = insert key (fst ` set m)"
  by (induction key site m rule: push_site.induct) auto

lemma sorted_push:
  "sorted (map fst m) \<Longrightarrow> distinct (map fst m) \<Longrightarrow>
     sorted (map fst (push_site key site m)) \<and> distinct (map fst (push_site key site m))"
proof (induction key site m rule: push_site.induct)
  case (2 key site k sites m)
  have "set (map fst (push_site key site m)) = insert key (set (map fst m))"
    using keys_push [of key site m] by simp
  with 2 show ?case by (auto simp: less_imp_le dest: order_less_imp_not_eq2)
qed simp_all

lemma call_target:
  assumes "block_ends_with code starts b i" and "ins_kind i = k_call"
  shows "0 \<le> int (bb_end b) + ins_relative_target i"
    and "int (bb_end b) + ins_relative_target i < int (length code)"
  using assms
  by (auto simp: block_ends_with_def exit_successors_def ends_block_def has_direct_target_def
      target_for_def Let_def split: if_split_asm)

lemma recover_blocks_spec:
  "\<forall>b \<in> set g. wf_block code starts b \<Longrightarrow> sorted (map fst m) \<Longrightarrow> distinct (map fst m) \<Longrightarrow>
     \<exists>m'. recover_blocks code g m = Inr m' \<and> sorted (map fst m') \<and> distinct (map fst m') \<and>
       (\<forall>k s. site_of m' k s \<longleftrightarrow> site_of m k s \<or> (\<exists>b \<in> set g. calls_at code starts b k s)) \<and>
       fst ` set m' = fst ` set m \<union> {k. \<exists>b \<in> set g. \<exists>s. calls_at code starts b k s}"
proof (induction g arbitrary: m)
  case Nil
  then show ?case by simp
next
  case (Cons b g)
  then obtain i where i: "block_ends_with code starts b i" by (auto simp: wf_block_def)
  note scan = scan_block_ends [OF i]
  show ?case
  proof (cases "ins_kind i = k_call")
    case False
    then have "block_functions code b m = Inr m" by (simp add: block_functions_def scan)
    moreover have "calls_at code starts b = (\<lambda>k s. False)"
      using False by (simp add: calls_at_def block_ends_with_iff [OF i] fun_eq_iff)
    ultimately show ?thesis using Cons.IH [of m] Cons.prems
      by simp
  next
    case True
    define t where "t = nat (int (bb_end b) + ins_relative_target i)"
    have "block_functions code b m = Inr (push_site t (ins_offset i) m)"
      using True call_target [OF i True] by (simp add: block_functions_def scan t_def Let_def)
    moreover have "calls_at code starts b = (\<lambda>k s. k = t \<and> s = ins_offset i)"
      using True call_target [OF i True]
      by (auto simp: calls_at_def block_ends_with_iff [OF i] fun_eq_iff t_def)
    moreover obtain m' where "recover_blocks code g (push_site t (ins_offset i) m) = Inr m'"
      and "sorted (map fst m')" "distinct (map fst m')"
      and "\<forall>k s. site_of m' k s \<longleftrightarrow> site_of (push_site t (ins_offset i) m) k s \<or>
        (\<exists>b \<in> set g. calls_at code starts b k s)"
      and "fst ` set m' = fst ` set (push_site t (ins_offset i) m) \<union>
        {k. \<exists>b \<in> set g. \<exists>s. calls_at code starts b k s}"
      using Cons.IH [of "push_site t (ins_offset i) m"] Cons.prems(1)
        sorted_push [OF Cons.prems(2,3), of t "ins_offset i"]
      by auto
    ultimately show ?thesis
      by (intro exI [of _ m'] conjI) (auto simp: site_of_push keys_push)
  qed
qed

end
