(* ===== verification/DirectFlow.thy ===== *)
theory DirectFlow
  imports Recovery
begin

text \<open>
  Direct control flow, computed from the fields of the instructions, and the graphs and functions of a program in terms of
  it. An indirect CALL or JMP has no known target: \<open>cfg_builder.hpp\<close> and \<open>function_recovery.hpp\<close> leave
  these instructions out, and \<open>direct_only\<close> says that a program reaches none. The code does not test for
  them: it takes the instruction behind an indirect transfer for its target, which is what \<open>ireach\<close>
  and \<open>calls_at\<close> describe. On programs that are \<open>direct_only\<close> both descriptions agree.
\<close>

section \<open>Direct control flow\<close>

text \<open>
  Where an instruction goes on: behind itself, at its target, both, or nowhere. A graph follows no path behind
  an interrupt, which may end the program.
\<close>

definition flow_successors :: "instruction \<Rightarrow> int list" where
  "flow_successors i =
     (let next = int (ins_offset i) + int (ins_size i);
          targets = (if ins_indirect i then [] else [next + ins_relative_target i])
      in case ins_kind i of
           k_jump \<Rightarrow> targets
         | k_conditional_jump \<Rightarrow> targets @ [next]
         | k_loop \<Rightarrow> targets @ [next]
         | k_call \<Rightarrow> targets @ [next]
         | k_return \<Rightarrow> []
         | k_interrupt \<Rightarrow> []
         | _ \<Rightarrow> [next])"

inductive direct_reach :: "byte list \<Rightarrow> nat \<Rightarrow> nat \<Rightarrow> bool" for code entry where
  reach_entry: "direct_reach code entry entry"
| reach_step: "direct_reach code entry p \<Longrightarrow> decode_at code p = Inr i \<Longrightarrow> int q \<in> set (flow_successors i) \<Longrightarrow>
    q < length code \<Longrightarrow> direct_reach code entry q"

definition direct_only :: "byte list \<Rightarrow> nat \<Rightarrow> bool" where
  "direct_only code entry \<longleftrightarrow>
     (\<forall>p i. direct_reach code entry p \<longrightarrow> decode_at code p = Inr i \<longrightarrow> \<not> ins_indirect i)"

text \<open>A program without an indirect instruction at any position; this can be evaluated.\<close>

definition never_indirect :: "byte list \<Rightarrow> bool" where
  "never_indirect code \<longleftrightarrow>
     list_all (\<lambda>p. case decode_at code p of Inr i \<Rightarrow> \<not> ins_indirect i | Inl _ \<Rightarrow> True) [0..<length code]"

lemma never_indirect_direct: "never_indirect code \<Longrightarrow> direct_only code entry"
  unfolding never_indirect_def direct_only_def list_all_iff
proof (intro allI impI)
  fix p i
  assume all: "\<forall>p \<in> set [0..<length code].
      case decode_at code p of Inr i \<Rightarrow> \<not> ins_indirect i | Inl _ \<Rightarrow> True"
    and i: "decode_at code p = Inr i"
  have "p \<in> set [0..<length code]" using dec.dec_inside [OF i] by simp
  with all have "case decode_at code p of Inr i \<Rightarrow> \<not> ins_indirect i | Inl _ \<Rightarrow> True" ..
  with i show "\<not> ins_indirect i" by simp
qed

lemma flow_successors_next:
  "\<not> ends_block (ins_kind i) \<Longrightarrow> flow_successors i = [int (ins_offset i) + int (ins_size i)]"
  by (cases "ins_kind i") (simp_all add: flow_successors_def ends_block_def Let_def)

lemma flow_successors_ends:
  assumes "ends_block (ins_kind i)"
  shows "flow_successors i =
    (if has_direct_target (ins_kind i) \<and> \<not> ins_indirect i
     then [int (ins_offset i) + int (ins_size i) + ins_relative_target i] else []) @
    (if falls_through (ins_kind i) then [int (ins_offset i) + int (ins_size i)] else [])"
  using assms
  by (cases "ins_kind i")
    (simp_all add: flow_successors_def ends_block_def has_direct_target_def falls_through_def Let_def)

lemma target_for_int:
  "target_for i n = Inr t \<Longrightarrow>
     int t = int (ins_offset i) + int (ins_size i) + ins_relative_target i \<and> t < n"
  by (auto simp: target_for_def Let_def split: if_split_asm)

lemma target_for_inside:
  "int t = int (ins_offset i) + int (ins_size i) + ins_relative_target i \<Longrightarrow> t < n \<Longrightarrow> target_for i n = Inr t"
  by (auto simp: target_for_def Let_def)

section \<open>What the code follows\<close>

lemma direct_reach_ireach: "direct_reach code entry p \<Longrightarrow> ireach code entry p"
proof (induction rule: direct_reach.induct)
  case (reach_step p i q)
  note off = dec.dec_offset [OF reach_step.hyps(2)]
  show ?case
  proof (cases "ends_block (ins_kind i)")
    case False
    with reach_step.hyps off have "q = p + ins_size i" by (simp add: flow_successors_next)
    with ireach_next [OF reach_step.IH reach_step.hyps(2) False] reach_step.hyps(4) show ?thesis by simp
  next
    case True
    with reach_step.hyps(3) consider
      (target) "has_direct_target (ins_kind i)"
        "int q = int (ins_offset i) + int (ins_size i) + ins_relative_target i"
    | (next_one) "falls_through (ins_kind i)" "q = p + ins_size i"
      using off by (auto simp: flow_successors_ends split: if_split_asm)
    then show ?thesis
    proof cases
      case target
      from target_for_inside [OF target(2) reach_step.hyps(4)] target(1) show ?thesis
        by (rule ireach_target [OF reach_step.IH reach_step.hyps(2) True, rotated])
    next
      case next_one
      with ireach_fall [OF reach_step.IH reach_step.hyps(2)] reach_step.hyps(4) show ?thesis by simp
    qed
  qed
qed (rule ireach_entry)

lemma ireach_direct_reach:
  assumes "direct_only code entry"
  shows "ireach code entry p \<Longrightarrow> direct_reach code entry p"
proof (induction rule: ireach.induct)
  case ireach_entry
  show ?case by (rule reach_entry)
next
  case (ireach_next p i)
  moreover have "p + ins_size i < length code"
    using dec.dec_progress [OF ireach_next.hyps(2)] dec.dec_inside [OF ireach_next.hyps(2)] ireach_next.hyps(4)
      decode_at_fits [OF ireach_next.hyps(2)]
    by (simp add: fits_def)
  ultimately show ?case
    using reach_step [OF ireach_next.IH ireach_next.hyps(2), of "p + ins_size i"]
      dec.dec_offset [OF ireach_next.hyps(2)]
    by (simp add: flow_successors_next)
next
  case (ireach_target p i t)
  from ireach_target.IH ireach_target.hyps(2) assms have "\<not> ins_indirect i" by (simp add: direct_only_def)
  with ireach_target target_for_int [OF ireach_target.hyps(5)] show ?case
    using reach_step [OF ireach_target.IH ireach_target.hyps(2), of t] by (simp add: flow_successors_ends)
next
  case (ireach_fall p i)
  then show ?case
    using reach_step [OF ireach_fall.IH ireach_fall.hyps(2), of "p + ins_size i"]
      dec.dec_offset [OF ireach_fall.hyps(2)] falls_through_ends
    by (simp add: flow_successors_ends)
qed

section \<open>Graphs\<close>

text \<open>
  A block runs from its start along instructions that go on behind themselves and meets no other start; its
  last instruction transfers control, ends the code or is followed by a start; its successors are where
  that instruction goes on, as far as that is inside the code.
\<close>

definition direct_block :: "byte list \<Rightarrow> nat list \<Rightarrow> basic_block \<Rightarrow> bool" where
  "direct_block code starts b \<longleftrightarrow>
     (\<exists>i. trail code starts (bb_start b) (ins_offset i) \<and> decode_at code (ins_offset i) = Inr i \<and>
        bb_end b = ins_offset i + ins_size i \<and>
        (ends_block (ins_kind i) \<or> bb_end b = length code \<or> bb_end b \<in> set starts) \<and>
        map int (bb_successors b) = filter (\<lambda>t. t < int (length code)) (flow_successors i) \<and>
        bb_condition b = (if ins_kind i = k_conditional_jump \<or> ins_kind i = k_loop
                          then ins_condition i else c_always))"

definition direct_graph :: "byte list \<Rightarrow> nat \<Rightarrow> control_flow_graph \<Rightarrow> bool" where
  "direct_graph code entry g \<longleftrightarrow>
     sorted (block_starts g) \<and> distinct (block_starts g) \<and> entry \<in> set (block_starts g) \<and>
     (\<forall>s \<in> set (block_starts g). s < length code \<and> direct_reach code entry s) \<and>
     (\<forall>b \<in> set g. direct_block code (block_starts g) b \<and> set (bb_successors b) \<subseteq> set (block_starts g))"

lemma exit_successors_direct:
  assumes "exit_successors code starts i e succs" and "\<not> ins_indirect i"
    and "e = ins_offset i + ins_size i" and "e \<le> length code"
  shows "map int succs = filter (\<lambda>t. t < int (length code)) (flow_successors i)"
proof (cases "ends_block (ins_kind i)")
  case False
  with assms show ?thesis by (auto simp: exit_successors_def flow_successors_next split: if_split_asm)
next
  case True
  then obtain ts where succs: "succs = ts @ (if falls_through (ins_kind i) \<and> e < length code then [e] else [])"
    and ts: "if has_direct_target (ins_kind i) then \<exists>t. target_for i (length code) = Inr t \<and> ts = [t] else ts = []"
    using assms(1) by (auto simp: exit_successors_def)
  from ts have "map int ts = filter (\<lambda>t. t < int (length code))
      (if has_direct_target (ins_kind i) then [int (ins_offset i) + int (ins_size i) + ins_relative_target i] else [])"
    by (auto dest!: target_for_int split: if_split_asm)
  with True assms(2-4) succs show ?thesis by (auto simp: flow_successors_ends)
qed

lemma good_graph_direct:
  assumes good: "good_graph code entry g" and direct: "direct_only code entry"
  shows "direct_graph code entry g"
proof -
  have "direct_block code (block_starts g) b" if "b \<in> set g" for b
  proof -
    have "wf_block code (block_starts g) b" using good that by (simp add: good_graph_def)
    then obtain i where i: "block_ends_with code (block_starts g) b i" unfolding wf_block_def ..
    then have dec: "decode_at code (ins_offset i) = Inr i" and e: "bb_end b = ins_offset i + ins_size i"
      and x: "exit_successors code (block_starts g) i (bb_end b) (bb_successors b)"
      by (auto simp only: block_ends_with_def)
    have "covered code g (ins_offset i)" using i that by (auto simp: covered_def block_ends_with_def)
    then have "\<not> ins_indirect i"
      using covered_iff_ireach [OF good] ireach_direct_reach [OF direct] dec direct
      by (auto simp: direct_only_def)
    then have succs: "map int (bb_successors b) = filter (\<lambda>t. t < int (length code)) (flow_successors i)"
      using exit_successors_direct [OF x _ e] decode_at_fits [OF dec] e by (simp add: fits_def)
    have "ends_block (ins_kind i) \<or> bb_end b = length code \<or> bb_end b \<in> set (block_starts g)"
      using i by (auto simp: block_ends_with_def exit_successors_def split: if_split_asm)
    with i succs show ?thesis
      unfolding direct_block_def block_ends_with_def by blast
  qed
  with good ireach_direct_reach [OF direct] show ?thesis
    by (auto simp: direct_graph_def good_graph_def sound_starts_def)
qed

section \<open>Functions\<close>

definition direct_call :: "byte list \<Rightarrow> nat \<Rightarrow> nat \<Rightarrow> nat \<Rightarrow> bool" where
  "direct_call code entry target site \<longleftrightarrow> direct_reach code entry site \<and>
     (\<exists>i. decode_at code site = Inr i \<and> ins_kind i = k_call \<and> \<not> ins_indirect i \<and>
        int target = int site + int (ins_size i) + ins_relative_target i)"

lemma calls_at_direct:
  assumes good: "good_graph code entry g" and direct: "direct_only code entry"
  shows "(\<exists>b \<in> set g. calls_at code (block_starts g) b k s) \<longleftrightarrow> direct_call code entry k s"
proof
  assume "\<exists>b \<in> set g. calls_at code (block_starts g) b k s"
  then obtain b i where b: "b \<in> set g" "block_ends_with code (block_starts g) b i" "ins_kind i = k_call"
    "ins_offset i = s" "int k = int (bb_end b) + ins_relative_target i"
    by (auto simp: calls_at_def)
  then have "covered code g s" by (auto simp: covered_def block_ends_with_def)
  then have s: "direct_reach code entry s"
    using covered_iff_ireach [OF good] ireach_direct_reach [OF direct] by blast
  with b direct have "\<not> ins_indirect i" by (auto simp: direct_only_def block_ends_with_def)
  with b s show "direct_call code entry k s" by (auto simp: direct_call_def block_ends_with_def)
next
  assume "direct_call code entry k s"
  then obtain i where i: "direct_reach code entry s" "decode_at code s = Inr i" "ins_kind i = k_call"
    "int k = int s + int (ins_size i) + ins_relative_target i"
    by (auto simp: direct_call_def)
  have "covered code g s" using direct_reach_ireach [OF i(1)] covered_iff_ireach [OF good] by blast
  from covered_end [OF this i(2) good] i(3) obtain b where "b \<in> set g" "block_ends_with code (block_starts g) b i"
    by (auto simp: ends_block_def)
  with i dec.dec_offset [OF i(2)] show "\<exists>b \<in> set g. calls_at code (block_starts g) b k s"
    by (force simp: calls_at_def block_ends_with_def)
qed

section \<open>A program with one call\<close>

text \<open>CALL 4; RET; RET.\<close>

definition one_call :: "byte list" where
  "one_call = [0xe8, 1, 0, 0xc3, 0xc3]"

definition one_call_graph :: control_flow_graph where
  "one_call_graph =
     [\<lparr>bb_start = 0, bb_end = 3, bb_successors = [4, 3], bb_condition = c_always\<rparr>,
      \<lparr>bb_start = 3, bb_end = 4, bb_successors = [], bb_condition = c_always\<rparr>,
      \<lparr>bb_start = 4, bb_end = 5, bb_successors = [], bb_condition = c_always\<rparr>]"

lemma one_call_built: "build one_call 0 = Inr one_call_graph"
  by code_simp

lemma one_call_direct: "direct_only one_call 0"
proof (rule never_indirect_direct)
  show "never_indirect one_call" by code_simp
qed

end
