(* ===== verification/ElfWriter.thy ===== *)
theory ElfWriter
  imports Prelude
begin

text \<open>
  \<open>backend/elf_writer.hpp\<close> and \<open>backend/elf_writer.cpp\<close>: emission of ELF64 executables that
  perform a list of Linux system calls and exit. The code allocates the image full of zeros and then
  stores into it; here the stores are a list of patches (offset, bytes) in the order of the code, and
  \<open>patch_all\<close> performs them with the bounds that the vector has.
\<close>

section \<open>Patches\<close>

definition le_bytes :: "nat \<Rightarrow> 'a::len word \<Rightarrow> byte list" where
  "le_bytes n v = map (\<lambda>i. ucast (drop_bit (8 * i) v)) [0..<n]"

definition patch :: "nat \<Rightarrow> byte list \<Rightarrow> byte list \<Rightarrow> (unit, byte list) res" where
  "patch offset bs img =
     (if offset + length bs \<le> length img
      then Inr (take offset img @ bs @ drop (offset + length bs) img) else Inl Undefined)"

fun patch_all :: "(nat \<times> byte list) list \<Rightarrow> byte list \<Rightarrow> (unit, byte list) res" where
  "patch_all [] img = Inr img"
| "patch_all ((offset, bs) # ps) img = bindE (patch offset bs img) (patch_all ps)"

section \<open>Layout\<close>

definition elf_header_size :: nat where "elf_header_size = 64"
definition program_header_size :: nat where "program_header_size = 56"
definition elf_code_offset :: nat where "elf_code_offset = elf_header_size + program_header_size"
definition image_base :: nat where "image_base = 0x400000"
definition per_write_code_size :: nat where "per_write_code_size = 24"
definition per_read_code_size :: nat where "per_read_code_size = 24"
definition per_open_code_size :: nat where "per_open_code_size = 24"
definition per_close_code_size :: nat where "per_close_code_size = 12"
definition fd_move_code_size :: nat where "fd_move_code_size = 3"
definition exit_code_size :: nat where "exit_code_size = 12"

lemmas layout_defs = elf_header_size_def program_header_size_def elf_code_offset_def
  per_write_code_size_def per_read_code_size_def per_open_code_size_def per_close_code_size_def
  fd_move_code_size_def exit_code_size_def

definition word16 :: "nat \<Rightarrow> u16" where "word16 n = word_of_nat n"
definition word32 :: "nat \<Rightarrow> u32" where "word32 n = word_of_nat n"
definition word64 :: "nat \<Rightarrow> u64" where "word64 n = word_of_nat n"

text \<open>The stores of \<open>emit_elf_header\<close> on an image of \<open>size\<close> bytes.\<close>

definition elf_header_patches :: "nat \<Rightarrow> (nat \<times> byte list) list" where
  "elf_header_patches image_size =
     [(0, [0x7f]), (1, [0x45]), (2, [0x4c]), (3, [0x46]), (4, [2]), (5, [1]), (6, [1]),
      (16, le_bytes 2 (word16 2)), (18, le_bytes 2 (word16 62)), (20, le_bytes 4 (word32 1)),
      (24, le_bytes 8 (word64 (image_base + elf_code_offset))),
      (32, le_bytes 8 (word64 elf_header_size)), (52, le_bytes 2 (word16 elf_header_size)),
      (54, le_bytes 2 (word16 program_header_size)), (56, le_bytes 2 (word16 1)),
      (64, le_bytes 4 (word32 1)), (68, le_bytes 4 (word32 5)), (72, le_bytes 8 (word64 0)),
      (80, le_bytes 8 (word64 image_base)), (88, le_bytes 8 (word64 image_base)),
      (96, le_bytes 8 (word64 image_size)), (104, le_bytes 8 (word64 image_size)),
      (112, le_bytes 8 (word64 0x1000))]"

section \<open>System calls\<close>

record write_call =
  wc_payload :: "byte list"
  wc_file_descriptor :: u32

record read_call =
  rc_file_descriptor :: u32
  rc_max_bytes :: u32

record open_call =
  oc_filename :: "byte list"
  oc_flags :: u32
  oc_mode :: u32

datatype syscall_action = act_write write_call | act_read read_call | act_open open_call | act_close u32

definition displacement :: "nat \<Rightarrow> nat \<Rightarrow> u32" where
  "displacement target following = word32 target - word32 following"

definition write_block :: "nat \<Rightarrow> nat \<Rightarrow> write_call \<Rightarrow> byte list" where
  "write_block code_off payload_off call =
     [0xb8, 1, 0, 0, 0] @ [0xbf] @ le_bytes 4 (wc_file_descriptor call) @
     [0x48, 0x8d, 0x35] @ le_bytes 4 (displacement payload_off (code_off + 17)) @
     [0xba] @ le_bytes 4 (word32 (length (wc_payload call))) @ [0x0f, 0x05]"

definition read_block :: "nat \<Rightarrow> nat \<Rightarrow> read_call \<Rightarrow> byte list" where
  "read_block code_off buffer_off call =
     [0xb8, 0, 0, 0, 0] @ [0xbf] @ le_bytes 4 (rc_file_descriptor call) @
     [0x48, 0x8d, 0x35] @ le_bytes 4 (displacement buffer_off (code_off + 17)) @
     [0xba] @ le_bytes 4 (rc_max_bytes call) @ [0x0f, 0x05]"

definition open_block :: "nat \<Rightarrow> nat \<Rightarrow> open_call \<Rightarrow> byte list" where
  "open_block code_off path_off call =
     [0xb8, 2, 0, 0, 0] @ [0x48, 0x8d, 0x3d] @ le_bytes 4 (displacement path_off (code_off + 12)) @
     [0xbe] @ le_bytes 4 (oc_flags call) @ [0xba] @ le_bytes 4 (oc_mode call) @ [0x0f, 0x05]"

definition close_block :: "u32 \<Rightarrow> byte list" where
  "close_block fd = [0xb8, 3, 0, 0, 0] @ [0xbf] @ le_bytes 4 fd @ [0x0f, 0x05]"

definition fd_move :: "byte list" where
  "fd_move = [0x48, 0x89, 0xc7]"

definition exit_block :: "byte \<Rightarrow> byte list" where
  "exit_block exit_code = [0xb8, 0x3c, 0, 0, 0, 0xbf, exit_code, 0, 0, 0, 0x0f, 0x05]"

fun action_payload_size :: "syscall_action \<Rightarrow> nat" where
  "action_payload_size (act_write call) = length (wc_payload call)"
| "action_payload_size (act_read call) = unat (rc_max_bytes call)"
| "action_payload_size (act_open call) = length (oc_filename call) + 1"
| "action_payload_size (act_close fd) = 0"

fun is_open :: "syscall_action \<Rightarrow> bool" where
  "is_open (act_open call) = True"
| "is_open _ = False"

fun action_base_size :: "syscall_action \<Rightarrow> nat" where
  "action_base_size (act_write call) = per_write_code_size"
| "action_base_size (act_read call) = per_read_code_size"
| "action_base_size (act_open call) = per_open_code_size"
| "action_base_size (act_close fd) = per_close_code_size"

definition action_code_size :: "syscall_action \<Rightarrow> bool \<Rightarrow> nat" where
  "action_code_size action emit_fd_move_after =
     action_base_size action + (if emit_fd_move_after \<and> is_open action then fd_move_code_size else 0)"

section \<open>The emitters\<close>

definition emit_exit_executable :: "byte \<Rightarrow> (unit, byte list) res" where
  "emit_exit_executable exit_code =
     (let size = elf_code_offset + 12
      in patch_all (elf_header_patches size @
           [(elf_code_offset, [0xb8]), (elf_code_offset + 1, [0x3c]), (elf_code_offset + 5, [0xbf]),
            (elf_code_offset + 6, [exit_code]), (elf_code_offset + 10, [0x0f]),
            (elf_code_offset + 11, [0x05])]) (replicate size 0))"

fun write_patches :: "nat \<Rightarrow> nat \<Rightarrow> write_call list \<Rightarrow> (nat \<times> byte list) list" where
  "write_patches code payload [] = []"
| "write_patches code payload (call # calls) =
     (code, write_block code payload call) # (payload, wc_payload call) #
     write_patches (code + per_write_code_size) (payload + length (wc_payload call)) calls"

fun read_patches :: "nat \<Rightarrow> nat \<Rightarrow> read_call list \<Rightarrow> (nat \<times> byte list) list" where
  "read_patches code payload [] = []"
| "read_patches code payload (call # calls) =
     (code, read_block code payload call) #
     read_patches (code + per_read_code_size) (payload + unat (rc_max_bytes call)) calls"

definition payload_total :: "write_call list \<Rightarrow> nat" where
  "payload_total writes = sum_list (map (\<lambda>call. length (wc_payload call)) writes)"

definition emit_syscall_program_executable ::
  "write_call list \<Rightarrow> read_call list \<Rightarrow> byte \<Rightarrow> (unit, byte list) res" where
  "emit_syscall_program_executable writes reads exit_code =
     (let code_size = per_write_code_size * length writes + per_read_code_size * length reads +
            exit_code_size;
          payload_start = elf_code_offset + code_size;
          total_payload = payload_total writes +
            sum_list (map (\<lambda>call. unat (rc_max_bytes call)) reads);
          size = payload_start + total_payload;
          after_writes = elf_code_offset + per_write_code_size * length writes
      in patch_all (elf_header_patches size @
           write_patches elf_code_offset payload_start writes @
           read_patches after_writes (payload_start + payload_total writes) reads @
           [(after_writes + per_read_code_size * length reads, exit_block exit_code)])
         (replicate size 0))"

definition emit_multi_write_exit_executable :: "write_call list \<Rightarrow> byte \<Rightarrow> (unit, byte list) res" where
  "emit_multi_write_exit_executable writes exit_code =
     emit_syscall_program_executable writes [] exit_code"

definition emit_write_exit_executable :: "byte list \<Rightarrow> byte \<Rightarrow> (unit, byte list) res" where
  "emit_write_exit_executable payload exit_code =
     (if payload = [] then emit_exit_executable exit_code
      else emit_multi_write_exit_executable
             [\<lparr>wc_payload = payload, wc_file_descriptor = 1\<rparr>] exit_code)"

fun action_patches :: "nat \<Rightarrow> nat \<Rightarrow> syscall_action \<Rightarrow> (nat \<times> byte list) list" where
  "action_patches code payload (act_write call) =
     [(code, write_block code payload call), (payload, wc_payload call)]"
| "action_patches code payload (act_read call) = [(code, read_block code payload call)]"
| "action_patches code payload (act_open call) =
     [(code, open_block code payload call), (payload, oc_filename call),
      (payload + length (oc_filename call), [0])]"
| "action_patches code payload (act_close fd) = [(code, close_block fd)]"

fun actions_patches :: "nat \<Rightarrow> nat \<Rightarrow> syscall_action list \<Rightarrow> (nat \<times> byte list) list" where
  "actions_patches code payload [] = []"
| "actions_patches code payload (action # actions) =
     action_patches code payload action @
     (if is_open action then [(code + action_code_size action False, fd_move)] else []) @
     actions_patches (code + action_code_size action (is_open action))
       (payload + action_payload_size action) actions"

definition actions_code_size :: "syscall_action list \<Rightarrow> nat" where
  "actions_code_size actions = sum_list (map (\<lambda>a. action_code_size a (is_open a)) actions)"

definition actions_payload_size :: "syscall_action list \<Rightarrow> nat" where
  "actions_payload_size actions = sum_list (map action_payload_size actions)"

definition emit_action_program_executable :: "syscall_action list \<Rightarrow> byte \<Rightarrow> (unit, byte list) res" where
  "emit_action_program_executable actions exit_code =
     (let code_size = exit_code_size + actions_code_size actions;
          payload_start = elf_code_offset + code_size;
          size = payload_start + actions_payload_size actions
      in patch_all (elf_header_patches size @
           actions_patches elf_code_offset payload_start actions @
           [(elf_code_offset + actions_code_size actions, exit_block exit_code)])
         (replicate size 0))"

section \<open>The image as a concatenation\<close>

lemma length_le_bytes [simp]: "length (le_bytes n v) = n"
  by (simp add: le_bytes_def)

lemma length_blocks [simp]:
  "length (write_block c p w) = per_write_code_size" "length (read_block c p r) = per_read_code_size"
  "length (open_block c p oc) = per_open_code_size" "length (close_block fd) = per_close_code_size"
  "length fd_move = fd_move_code_size" "length (exit_block e) = exit_code_size"
  by (simp_all add: write_block_def read_block_def open_block_def close_block_def fd_move_def
      exit_block_def layout_defs)

lemma patch_mid:
  "length xs = off \<Longrightarrow> length ys = length bs \<Longrightarrow> patch off bs (xs @ ys @ zs) = Inr (xs @ bs @ zs)"
  by (simp add: patch_def)

lemma patch_all_append: "patch_all (ps @ qs) img = bindE (patch_all ps img) (patch_all qs)"
  by (induction ps img rule: patch_all.induct) (auto simp: bindE_assoc cong: bindE_cong)

text \<open>Patches inside a leading part leave the rest alone.\<close>

lemma patch_left:
  "off + length bs \<le> length xs \<Longrightarrow>
     patch off bs (xs @ ys) = Inr ((take off xs @ bs @ drop (off + length bs) xs) @ ys)"
  by (simp add: patch_def)

definition patched :: "nat \<Rightarrow> byte list \<Rightarrow> byte list \<Rightarrow> byte list" where
  "patched off bs img = take off img @ bs @ drop (off + length bs) img"

definition patched_all :: "(nat \<times> byte list) list \<Rightarrow> byte list \<Rightarrow> byte list" where
  "patched_all ps img = foldl (\<lambda>img (off, bs). patched off bs img) img ps"

lemma length_patched [simp]: "off + length bs \<le> length img \<Longrightarrow> length (patched off bs img) = length img"
  by (simp add: patched_def)

definition patches_inside :: "nat \<Rightarrow> (nat \<times> byte list) list \<Rightarrow> bool" where
  "patches_inside n ps \<longleftrightarrow> (\<forall>(off, bs) \<in> set ps. off + length bs \<le> n)"

lemma patch_all_left:
  "patches_inside (length xs) ps \<Longrightarrow>
     patch_all ps (xs @ ys) = Inr (patched_all ps xs @ ys) \<and> length (patched_all ps xs) = length xs"
proof (induction ps arbitrary: xs)
  case Nil
  then show ?case by (simp add: patched_all_def)
next
  case (Cons p ps)
  obtain off bs where p: "p = (off, bs)" by fastforce
  with Cons.prems have inside: "off + length bs \<le> length xs" "patches_inside (length xs) ps"
    by (auto simp: patches_inside_def)
  with Cons.IH [of "patched off bs xs"] show ?case
    using patch_left [OF inside(1)] by (simp add: p patched_def patched_all_def)
qed

definition elf_header :: "nat \<Rightarrow> byte list" where
  "elf_header image_size = patched_all (elf_header_patches image_size) (replicate elf_code_offset 0)"

lemma elf_header_patches_inside: "patches_inside elf_code_offset (elf_header_patches image_size)"
  by (simp add: patches_inside_def elf_header_patches_def layout_defs)

lemma elf_header_emitted:
  "patch_all (elf_header_patches image_size) (replicate (elf_code_offset + n) 0) =
     Inr (elf_header image_size @ replicate n 0)"
  using patch_all_left [of "replicate elf_code_offset 0" "elf_header_patches image_size" "replicate n 0"]
    elf_header_patches_inside
  by (simp add: replicate_add elf_header_def)

lemma length_elf_header [simp]: "length (elf_header image_size) = elf_code_offset"
  using patch_all_left [of "replicate elf_code_offset 0" "elf_header_patches image_size" "[]"]
    elf_header_patches_inside
  by (simp add: elf_header_def)

text \<open>Code and payload of an action list, at given offsets.\<close>

fun action_code :: "nat \<Rightarrow> nat \<Rightarrow> syscall_action \<Rightarrow> byte list" where
  "action_code c p (act_write call) = write_block c p call"
| "action_code c p (act_read call) = read_block c p call"
| "action_code c p (act_open call) = open_block c p call @ fd_move"
| "action_code c p (act_close fd) = close_block fd"

fun action_payload :: "syscall_action \<Rightarrow> byte list" where
  "action_payload (act_write call) = wc_payload call"
| "action_payload (act_read call) = replicate (unat (rc_max_bytes call)) 0"
| "action_payload (act_open call) = oc_filename call @ [0]"
| "action_payload (act_close fd) = []"

fun actions_code :: "nat \<Rightarrow> nat \<Rightarrow> syscall_action list \<Rightarrow> byte list" where
  "actions_code c p [] = []"
| "actions_code c p (a # acts) =
     action_code c p a @ actions_code (c + action_code_size a (is_open a)) (p + action_payload_size a) acts"

definition actions_payload :: "syscall_action list \<Rightarrow> byte list" where
  "actions_payload acts = concat (map action_payload acts)"

lemma length_action_code [simp]: "length (action_code c p a) = action_code_size a (is_open a)"
  by (cases a) (simp_all add: action_code_size_def)

lemma length_action_payload [simp]: "length (action_payload a) = action_payload_size a"
  by (cases a) simp_all

lemma length_actions_payload [simp]: "length (actions_payload acts) = actions_payload_size acts"
  by (induction acts) (simp_all add: actions_payload_def actions_payload_size_def)

lemma sizes_Cons [simp]:
  "actions_code_size (a # acts) = action_code_size a (is_open a) + actions_code_size acts"
  "actions_payload_size (a # acts) = action_payload_size a + actions_payload_size acts"
  "actions_code_size [] = 0" "actions_payload_size [] = 0"
  by (simp_all add: actions_code_size_def actions_payload_size_def)

lemma length_actions_code [simp]: "length (actions_code c p acts) = actions_code_size acts"
  by (induction acts arbitrary: c p) simp_all

definition action_all_patches :: "nat \<Rightarrow> nat \<Rightarrow> syscall_action \<Rightarrow> (nat \<times> byte list) list" where
  "action_all_patches c p a =
     action_patches c p a @ (if is_open a then [(c + action_code_size a False, fd_move)] else [])"

lemma action_emitted:
  assumes "length A = c" and "length (A @ Z @ X) = p" and "length Z = action_code_size a (is_open a)"
  shows "patch_all (action_all_patches c p a) (A @ Z @ X @ replicate (action_payload_size a) 0 @ Y) =
    Inr (A @ action_code c p a @ X @ action_payload a @ Y)"
proof -
  have base: "patch p bs (A @ V @ X @ W @ Y) = Inr (A @ V @ X @ bs @ Y)"
    if "length V = length Z" "length W = length bs" for bs V W Y
    using patch_mid [of "A @ V @ X" p W bs Y] assms that by simp
  have code: "patch c bs (A @ V @ R) = Inr (A @ bs @ R)" if "length V = length bs" for bs V R
    using patch_mid [of A c V bs R] assms that by simp
  show ?thesis
  proof (cases a)
    case (act_write call)
    then show ?thesis
      using base [of "write_block c p call" "replicate (length (wc_payload call)) 0" "wc_payload call" Y]
        code [of Z "write_block c p call"] assms
      by (simp add: action_all_patches_def action_code_size_def)
  next
    case (act_read call)
    then show ?thesis
      using code [of Z "read_block c p call"] assms
      by (simp add: action_all_patches_def action_code_size_def)
  next
    case (act_close fd)
    then show ?thesis
      using code [of Z "close_block fd"] assms
      by (simp add: action_all_patches_def action_code_size_def)
  next
    case (act_open call)
    let ?n = "length (oc_filename call)"
    obtain Z1 Z2 where Z: "Z = Z1 @ Z2" "length Z1 = per_open_code_size" "length Z2 = fd_move_code_size"
      by (rule that [of "take per_open_code_size Z" "drop per_open_code_size Z"])
        (use assms(3) act_open in \<open>simp_all add: action_code_size_def\<close>)
    let ?B = "open_block c p call"
    have 1: "patch c ?B (A @ Z @ R) = Inr (A @ (?B @ Z2) @ R)" for R
      using code [of Z1 ?B "Z2 @ R"] Z by simp
    have len: "length (?B @ Z2) = length Z" using Z by simp
    have 2: "patch p (oc_filename call) (A @ (?B @ Z2) @ X @ replicate (Suc ?n) 0 @ Y) =
        Inr (A @ (?B @ Z2) @ X @ oc_filename call @ [0] @ Y)"
      using base [OF len, of "replicate ?n 0" "oc_filename call" "[0] @ Y"]
      by (simp add: replicate_append_same [symmetric])
    have 3: "patch (p + ?n) [0] (A @ (?B @ Z2) @ X @ oc_filename call @ [0] @ Y) =
        Inr (A @ (?B @ Z2) @ X @ oc_filename call @ [0] @ Y)"
      using patch_mid [of "A @ (?B @ Z2) @ X @ oc_filename call" "p + ?n" "[0]" "[0]" Y] assms len Z
      by simp
    have 4: "patch (c + per_open_code_size) fd_move (A @ (?B @ Z2) @ R) = Inr (A @ (?B @ fd_move) @ R)" for R
      using patch_mid [of "A @ ?B" "c + per_open_code_size" Z2 fd_move R] assms Z by simp
    from 1 2 3 4 act_open show ?thesis
      by (simp add: action_all_patches_def action_code_size_def)
  qed
qed

lemma actions_patches_Cons:
  "actions_patches c p (a # acts) = action_all_patches c p a @
     actions_patches (c + action_code_size a (is_open a)) (p + action_payload_size a) acts"
  by (simp add: action_all_patches_def)

lemma actions_emitted:
  "length A = c \<Longrightarrow> length A + actions_code_size acts + length X + length B = p \<Longrightarrow>
     patch_all (actions_patches c p acts)
       (A @ replicate (actions_code_size acts) 0 @ X @ B @ replicate (actions_payload_size acts) 0) =
     Inr (A @ actions_code c p acts @ X @ B @ actions_payload acts)"
proof (induction acts arbitrary: A B c p)
  case Nil
  then show ?case by (simp add: actions_payload_def)
next
  case (Cons a acts)
  let ?k = "action_code_size a (is_open a)"
  have "patch_all (action_all_patches c p a)
      (A @ replicate ?k 0 @ (replicate (actions_code_size acts) 0 @ X @ B) @
       replicate (action_payload_size a) 0 @ replicate (actions_payload_size acts) 0) =
    Inr (A @ action_code c p a @ (replicate (actions_code_size acts) 0 @ X @ B) @
       action_payload a @ replicate (actions_payload_size acts) 0)"
    using Cons.prems by (intro action_emitted) simp_all
  moreover have "patch_all (actions_patches (c + ?k) (p + action_payload_size a) acts)
      ((A @ action_code c p a) @ replicate (actions_code_size acts) 0 @ X @ (B @ action_payload a) @
       replicate (actions_payload_size acts) 0) =
    Inr ((A @ action_code c p a) @ actions_code (c + ?k) (p + action_payload_size a) acts @ X @
      (B @ action_payload a) @ actions_payload acts)"
    using Cons.prems by (intro Cons.IH) simp_all
  ultimately show ?case
    by (simp only: actions_patches_Cons patch_all_append)
      (simp add: replicate_add actions_payload_def)
qed

definition action_image :: "syscall_action list \<Rightarrow> byte \<Rightarrow> byte list" where
  "action_image acts exit_code =
     (let code_size = exit_code_size + actions_code_size acts;
          start = elf_code_offset + code_size
      in elf_header (start + actions_payload_size acts) @ actions_code elf_code_offset start acts @
         exit_block exit_code @ actions_payload acts)"

lemma emit_action_program_image:
  "emit_action_program_executable acts exit_code = Inr (action_image acts exit_code)"
proof -
  let ?start = "elf_code_offset + (exit_code_size + actions_code_size acts)"
  let ?size = "?start + actions_payload_size acts"
  let ?H = "elf_header ?size"
  have zeros: "replicate ?size 0 = replicate (elf_code_offset + (actions_code_size acts +
      exit_code_size + actions_payload_size acts)) (0 :: byte)"
    by (simp add: ac_simps)
  have header: "patch_all (elf_header_patches ?size) (replicate ?size 0) =
      Inr (?H @ replicate (actions_code_size acts) 0 @ replicate exit_code_size 0 @ [] @
        replicate (actions_payload_size acts) 0)"
    unfolding zeros elf_header_emitted by (simp add: replicate_add)
  have body: "patch_all (actions_patches elf_code_offset ?start acts)
      (?H @ replicate (actions_code_size acts) 0 @ replicate exit_code_size 0 @ [] @
        replicate (actions_payload_size acts) 0) =
    Inr (?H @ actions_code elf_code_offset ?start acts @ replicate exit_code_size 0 @ [] @ actions_payload acts)"
    by (rule actions_emitted) simp_all
  have last: "patch (elf_code_offset + actions_code_size acts) (exit_block exit_code)
      (?H @ actions_code elf_code_offset ?start acts @ replicate exit_code_size 0 @ [] @ actions_payload acts) =
    Inr (?H @ actions_code elf_code_offset ?start acts @ exit_block exit_code @ actions_payload acts)"
    using patch_mid [of "?H @ actions_code elf_code_offset ?start acts"
        "elf_code_offset + actions_code_size acts" "replicate exit_code_size 0" "exit_block exit_code"
        "actions_payload acts"] by simp
  show ?thesis
    unfolding emit_action_program_executable_def Let_def patch_all_append header bindE.simps body
    by (simp add: last [simplified] action_image_def Let_def)
qed

end
