(* ===== verification/ElfRun.thy ===== *)
theory ElfRun
  imports ElfWriter
begin

text \<open>
  What an emitted image does when Linux runs it. The processor is the specification here: an
  interpreter of the few x86-64 instructions the emitter uses and of the five system calls, which
  records the calls it makes. The results of the calls come from an oracle \<open>os\<close>. \<open>run_actions\<close> is the
  theorem that an image performs exactly the actions it was built from, in order, and exits.
\<close>

section \<open>The processor\<close>

definition le32 :: "byte list \<Rightarrow> u32" where
  "le32 bs = ucast (bs ! 0) OR push_bit 8 (ucast (bs ! 1)) OR push_bit 16 (ucast (bs ! 2)) OR
     push_bit 24 (ucast (bs ! 3))"

datatype event =
  ev_write u64 "byte list" | ev_read u64 nat u64 | ev_open "byte list" u64 u64 | ev_close u64 | ev_exit u64

record cpu =
  cpu_rip :: nat
  cpu_rax :: u64
  cpu_rdi :: u64
  cpu_rsi :: u64
  cpu_rdx :: u64
  cpu_trace :: "event list"

datatype outcome = running cpu | halted "event list" | faulted

text \<open>An address of the loaded image, as an offset into it.\<close>

definition image_address :: "u64 \<Rightarrow> nat" where
  "image_address a = unat a - image_base"

definition in_image :: "byte list \<Rightarrow> u64 \<Rightarrow> nat \<Rightarrow> bool" where
  "in_image img a n \<longleftrightarrow> image_base \<le> unat a \<and> image_address a + n \<le> length img"

definition rip_relative :: "nat \<Rightarrow> u32 \<Rightarrow> u64" where
  "rip_relative following d = word_of_nat (image_base + following) + scast d"

definition syscall :: "(event list \<Rightarrow> u64) \<Rightarrow> byte list \<Rightarrow> cpu \<Rightarrow> outcome" where
  "syscall os img s =
     (let record_event = (\<lambda>e. running (s\<lparr>cpu_rip := cpu_rip s + 2, cpu_trace := cpu_trace s @ [e],
            cpu_rax := os (cpu_trace s @ [e])\<rparr>))
      in if cpu_rax s = 1 then
           (if in_image img (cpu_rsi s) (unat (cpu_rdx s))
            then record_event (ev_write (cpu_rdi s)
                   (take (unat (cpu_rdx s)) (drop (image_address (cpu_rsi s)) img)))
            else faulted)
         else if cpu_rax s = 0 then
           (if in_image img (cpu_rsi s) (unat (cpu_rdx s))
            then record_event (ev_read (cpu_rdi s) (image_address (cpu_rsi s)) (cpu_rdx s))
            else faulted)
         else if cpu_rax s = 2 then
           (if in_image img (cpu_rdi s) 1
            then record_event (ev_open (takeWhile (\<lambda>b. b \<noteq> 0) (drop (image_address (cpu_rdi s)) img))
                   (cpu_rsi s) (cpu_rdx s))
            else faulted)
         else if cpu_rax s = 3 then record_event (ev_close (cpu_rdi s))
         else if cpu_rax s = 60 then halted (cpu_trace s @ [ev_exit (cpu_rdi s)])
         else faulted)"

definition starts_with :: "byte list \<Rightarrow> byte list \<Rightarrow> bool" where
  "starts_with bs xs \<longleftrightarrow> take (length bs) xs = bs"

definition x86_step :: "(event list \<Rightarrow> u64) \<Rightarrow> byte list \<Rightarrow> cpu \<Rightarrow> outcome" where
  "x86_step os img s =
     (let code = drop (cpu_rip s) img
      in if starts_with [0xb8] code then
           running (s\<lparr>cpu_rip := cpu_rip s + 5, cpu_rax := ucast (le32 (drop 1 code))\<rparr>)
         else if starts_with [0xbf] code then
           running (s\<lparr>cpu_rip := cpu_rip s + 5, cpu_rdi := ucast (le32 (drop 1 code))\<rparr>)
         else if starts_with [0xbe] code then
           running (s\<lparr>cpu_rip := cpu_rip s + 5, cpu_rsi := ucast (le32 (drop 1 code))\<rparr>)
         else if starts_with [0xba] code then
           running (s\<lparr>cpu_rip := cpu_rip s + 5, cpu_rdx := ucast (le32 (drop 1 code))\<rparr>)
         else if starts_with [0x48, 0x8d, 0x35] code then
           running (s\<lparr>cpu_rip := cpu_rip s + 7,
             cpu_rsi := rip_relative (cpu_rip s + 7) (le32 (drop 3 code))\<rparr>)
         else if starts_with [0x48, 0x8d, 0x3d] code then
           running (s\<lparr>cpu_rip := cpu_rip s + 7,
             cpu_rdi := rip_relative (cpu_rip s + 7) (le32 (drop 3 code))\<rparr>)
         else if starts_with [0x48, 0x89, 0xc7] code then
           running (s\<lparr>cpu_rip := cpu_rip s + 3, cpu_rdi := cpu_rax s\<rparr>)
         else if starts_with [0x0f, 0x05] code then syscall os img s
         else faulted)"

fun x86_run :: "(event list \<Rightarrow> u64) \<Rightarrow> byte list \<Rightarrow> nat \<Rightarrow> cpu \<Rightarrow> event list option" where
  "x86_run os img 0 s = None"
| "x86_run os img (Suc n) s =
     (case x86_step os img s of
        running s' \<Rightarrow> x86_run os img n s' | halted trace \<Rightarrow> Some trace | faulted \<Rightarrow> None)"

text \<open>The entry state: the registers are zero and execution starts at the entry of the header.\<close>

definition start_state :: cpu where
  "start_state = \<lparr>cpu_rip = elf_code_offset, cpu_rax = 0, cpu_rdi = 0, cpu_rsi = 0, cpu_rdx = 0,
     cpu_trace = []\<rparr>"

section \<open>Instructions at a position\<close>

definition code_at :: "byte list \<Rightarrow> nat \<Rightarrow> byte list \<Rightarrow> bool" where
  "code_at img off bs \<longleftrightarrow> off + length bs \<le> length img \<and> take (length bs) (drop off img) = bs"

lemma code_at_append [simp]:
  "code_at img off (bs @ cs) \<longleftrightarrow> code_at img off bs \<and> code_at img (off + length bs) cs"
proof -
  have "take (length bs + length cs) (drop off img) =
      take (length bs) (drop off img) @ take (length cs) (drop (off + length bs) img)"
    by (simp add: take_add add.commute)
  then show ?thesis
    by (auto simp: code_at_def)
qed

lemma code_at_drop: "code_at img off bs \<Longrightarrow> \<exists>ys. drop off img = bs @ ys"
  unfolding code_at_def by (metis append_take_drop_id)

lemma code_at_here: "code_at (xs @ bs @ ys) (length xs) bs"
  by (simp add: code_at_def)

lemma le_bytes_4: "le_bytes 4 v = [ucast v, ucast (drop_bit 8 v), ucast (drop_bit 16 v), ucast (drop_bit 24 v)]"
  by (simp add: le_bytes_def upt_rec)

lemma le32_le_bytes [simp]: "le32 (le_bytes 4 v @ ys) = v"
proof -
  have "le32 (le_bytes 4 v @ ys) =
      ucast (ucast v :: byte) OR push_bit 8 (ucast (ucast (drop_bit 8 v) :: byte)) OR
      push_bit 16 (ucast (ucast (drop_bit 16 v) :: byte)) OR push_bit 24 (ucast (ucast (drop_bit 24 v) :: byte))"
    by (simp add: le32_def le_bytes_4)
  also have "\<dots> = v"
  proof (rule bit_word_eqI)
    fix n assume "n < LENGTH(32)"
    then show "bit (ucast (ucast v :: byte) OR push_bit 8 (ucast (ucast (drop_bit 8 v) :: byte)) OR
      push_bit 16 (ucast (ucast (drop_bit 16 v) :: byte)) OR
      push_bit 24 (ucast (ucast (drop_bit 24 v) :: byte)) :: u32) n = bit v n"
      by (cases "n < 8"; cases "n < 16"; cases "n < 24") (auto simp: bit_simps not_less)
  qed
  finally show ?thesis .
qed

text \<open>One lemma per instruction.\<close>

lemma starts_with_simps [simp]:
  "starts_with [] xs" "starts_with (b # bs) (x # xs) \<longleftrightarrow> b = x \<and> starts_with bs xs"
  by (auto simp: starts_with_def)

lemma x86_step_code:
  "drop (cpu_rip s) img = 0xb8 # le_bytes 4 v @ ys \<Longrightarrow>
     x86_step os img s = running (s\<lparr>cpu_rip := cpu_rip s + 5, cpu_rax := ucast v\<rparr>)"
  "drop (cpu_rip s) img = 0xbf # le_bytes 4 v @ ys \<Longrightarrow>
     x86_step os img s = running (s\<lparr>cpu_rip := cpu_rip s + 5, cpu_rdi := ucast v\<rparr>)"
  "drop (cpu_rip s) img = 0xbe # le_bytes 4 v @ ys \<Longrightarrow>
     x86_step os img s = running (s\<lparr>cpu_rip := cpu_rip s + 5, cpu_rsi := ucast v\<rparr>)"
  "drop (cpu_rip s) img = 0xba # le_bytes 4 v @ ys \<Longrightarrow>
     x86_step os img s = running (s\<lparr>cpu_rip := cpu_rip s + 5, cpu_rdx := ucast v\<rparr>)"
  "drop (cpu_rip s) img = 0x48 # 0x8d # 0x35 # le_bytes 4 v @ ys \<Longrightarrow>
     x86_step os img s = running (s\<lparr>cpu_rip := cpu_rip s + 7, cpu_rsi := rip_relative (cpu_rip s + 7) v\<rparr>)"
  "drop (cpu_rip s) img = 0x48 # 0x8d # 0x3d # le_bytes 4 v @ ys \<Longrightarrow>
     x86_step os img s = running (s\<lparr>cpu_rip := cpu_rip s + 7, cpu_rdi := rip_relative (cpu_rip s + 7) v\<rparr>)"
  "drop (cpu_rip s) img = 0x48 # 0x89 # 0xc7 # ys \<Longrightarrow>
     x86_step os img s = running (s\<lparr>cpu_rip := cpu_rip s + 3, cpu_rdi := cpu_rax s\<rparr>)"
  "drop (cpu_rip s) img = 0x0f # 0x05 # ys \<Longrightarrow> x86_step os img s = syscall os img s"
  by (simp_all add: x86_step_def)

text \<open>The instructions the emitter uses, with their encodings and effects.\<close>

datatype x86_instruction =
  mov_eax u32 | mov_edi u32 | mov_esi u32 | mov_edx u32 | lea_rsi u32 | lea_rdi u32 | mov_rdi_rax | do_syscall

fun encode :: "x86_instruction \<Rightarrow> byte list" where
  "encode (mov_eax v) = 0xb8 # le_bytes 4 v"
| "encode (mov_edi v) = 0xbf # le_bytes 4 v"
| "encode (mov_esi v) = 0xbe # le_bytes 4 v"
| "encode (mov_edx v) = 0xba # le_bytes 4 v"
| "encode (lea_rsi v) = 0x48 # 0x8d # 0x35 # le_bytes 4 v"
| "encode (lea_rdi v) = 0x48 # 0x8d # 0x3d # le_bytes 4 v"
| "encode mov_rdi_rax = [0x48, 0x89, 0xc7]"
| "encode do_syscall = [0x0f, 0x05]"

fun execute :: "(event list \<Rightarrow> u64) \<Rightarrow> byte list \<Rightarrow> x86_instruction \<Rightarrow> cpu \<Rightarrow> outcome" where
  "execute os img (mov_eax v) s = running (s\<lparr>cpu_rip := cpu_rip s + 5, cpu_rax := ucast v\<rparr>)"
| "execute os img (mov_edi v) s = running (s\<lparr>cpu_rip := cpu_rip s + 5, cpu_rdi := ucast v\<rparr>)"
| "execute os img (mov_esi v) s = running (s\<lparr>cpu_rip := cpu_rip s + 5, cpu_rsi := ucast v\<rparr>)"
| "execute os img (mov_edx v) s = running (s\<lparr>cpu_rip := cpu_rip s + 5, cpu_rdx := ucast v\<rparr>)"
| "execute os img (lea_rsi v) s =
     running (s\<lparr>cpu_rip := cpu_rip s + 7, cpu_rsi := rip_relative (cpu_rip s + 7) v\<rparr>)"
| "execute os img (lea_rdi v) s =
     running (s\<lparr>cpu_rip := cpu_rip s + 7, cpu_rdi := rip_relative (cpu_rip s + 7) v\<rparr>)"
| "execute os img mov_rdi_rax s = running (s\<lparr>cpu_rip := cpu_rip s + 3, cpu_rdi := cpu_rax s\<rparr>)"
| "execute os img do_syscall s = syscall os img s"

lemma x86_step_encode:
  assumes "code_at img (cpu_rip s) (encode i)"
  shows "x86_step os img s = execute os img i s"
proof -
  obtain ys where "drop (cpu_rip s) img = encode i @ ys" using code_at_drop [OF assms] by blast
  then show ?thesis by (cases i) (simp_all add: x86_step_code)
qed

text \<open>Straight-line code.\<close>

fun execute_all ::
  "(event list \<Rightarrow> u64) \<Rightarrow> byte list \<Rightarrow> x86_instruction list \<Rightarrow> cpu \<Rightarrow> outcome" where
  "execute_all os img [] s = running s"
| "execute_all os img (i # is) s =
     (case execute os img i s of running s' \<Rightarrow> execute_all os img is s' | r \<Rightarrow> r)"

definition encode_all :: "x86_instruction list \<Rightarrow> byte list" where
  "encode_all is = concat (map encode is)"

lemma execute_rip: "execute os img i s = running s' \<Longrightarrow> cpu_rip s' = cpu_rip s + length (encode i)"
  by (cases i) (auto simp: syscall_def Let_def split: if_split_asm)

lemma x86_run_all:
  "code_at img (cpu_rip s) (encode_all is) \<Longrightarrow> execute_all os img is s = running s' \<Longrightarrow>
     x86_run os img (length is + n) s = x86_run os img n s'"
proof (induction "is" arbitrary: s)
  case Nil
  then show ?case by simp
next
  case (Cons i "is")
  from Cons.prems(2) obtain s1 where 1: "execute os img i s = running s1"
    and 2: "execute_all os img is s1 = running s'"
    by (auto split: outcome.split_asm)
  from Cons.prems(1) have "code_at img (cpu_rip s) (encode i)"
    "code_at img (cpu_rip s1) (encode_all is)"
    by (auto simp: encode_all_def execute_rip [OF 1])
  with Cons.IH 1 2 show ?case by (simp add: x86_step_encode)
qed

lemma x86_run_halted:
  "code_at img (cpu_rip s) (encode_all is) \<Longrightarrow> execute_all os img is s = halted t \<Longrightarrow>
     x86_run os img (length is + n) s = Some t"
proof (induction "is" arbitrary: s)
  case (Cons i "is")
  show ?case
  proof (cases "execute os img i s")
    case (running s1)
    with Cons.prems have "code_at img (cpu_rip s) (encode i)" "code_at img (cpu_rip s1) (encode_all is)"
      "execute_all os img is s1 = halted t"
      by (auto simp: encode_all_def execute_rip)
    with Cons.IH running show ?thesis by (simp add: x86_step_encode)
  qed (use Cons.prems in \<open>auto simp: encode_all_def x86_step_encode\<close>)
qed simp

lemma rip_relative_displacement:
  assumes "p < 2 ^ 31" and "c < 2 ^ 31"
  shows "rip_relative c (displacement p c) = word_of_nat (image_base + p)"
proof -
  have "displacement p c = word_of_int (int p - int c)"
    by (simp add: displacement_def word32_def)
  then have "sint (displacement p c) = sint (word_of_int (int p - int c) :: u32)"
    by (rule arg_cong)
  also have "\<dots> = signed_take_bit 31 (int p - int c)"
    by (simp only: sint_sbintrunc') simp
  also have "\<dots> = int p - int c"
    using assms by (intro signed_take_bit_int_eq_self) auto
  finally have "scast (displacement p c) = (word_of_int (int p - int c) :: u64)"
    by (metis scast_eq)
  then show ?thesis by (simp add: rip_relative_def)
qed

lemma image_address_of:
  assumes "p < 2 ^ 31"
  shows "image_address (word_of_nat (image_base + p)) = p"
    and "image_base \<le> unat (word_of_nat (image_base + p) :: u64)"
proof -
  have "unat (word_of_nat (image_base + p) :: u64) = image_base + p"
    using assms by (subst unat_of_nat) (simp add: image_base_def)
  then show "image_address (word_of_nat (image_base + p)) = p"
    "image_base \<le> unat (word_of_nat (image_base + p) :: u64)"
    by (simp_all only: image_address_def add_diff_cancel_left' le_add1)
qed

section \<open>Blocks\<close>

definition event_of :: "nat \<Rightarrow> syscall_action \<Rightarrow> event" where
  "event_of payload a =
     (case a of
        act_write call \<Rightarrow> ev_write (ucast (wc_file_descriptor call)) (wc_payload call)
      | act_read call \<Rightarrow> ev_read (ucast (rc_file_descriptor call)) payload (ucast (rc_max_bytes call))
      | act_open call \<Rightarrow> ev_open (takeWhile (\<lambda>b. b \<noteq> 0) (oc_filename call)) (ucast (oc_flags call))
          (ucast (oc_mode call))
      | act_close fd \<Rightarrow> ev_close (ucast fd))"

text \<open>The emitted blocks, disassembled.\<close>

definition action_instructions :: "nat \<Rightarrow> nat \<Rightarrow> syscall_action \<Rightarrow> x86_instruction list" where
  "action_instructions c p a =
     (case a of
        act_write call \<Rightarrow> [mov_eax 1, mov_edi (wc_file_descriptor call), lea_rsi (displacement p (c + 17)),
          mov_edx (word32 (length (wc_payload call))), do_syscall]
      | act_read call \<Rightarrow> [mov_eax 0, mov_edi (rc_file_descriptor call), lea_rsi (displacement p (c + 17)),
          mov_edx (rc_max_bytes call), do_syscall]
      | act_open call \<Rightarrow> [mov_eax 2, lea_rdi (displacement p (c + 12)), mov_esi (oc_flags call),
          mov_edx (oc_mode call), do_syscall, mov_rdi_rax]
      | act_close fd \<Rightarrow> [mov_eax 3, mov_edi fd, do_syscall])"

lemma le_bytes_small:
  "le_bytes 4 (1 :: u32) = [1, 0, 0, 0]" "le_bytes 4 (0 :: u32) = [0, 0, 0, 0]"
  "le_bytes 4 (2 :: u32) = [2, 0, 0, 0]" "le_bytes 4 (3 :: u32) = [3, 0, 0, 0]"
  "le_bytes 4 (60 :: u32) = [0x3c, 0, 0, 0]"
  by (simp_all add: le_bytes_4)

lemma le_bytes_byte: "le_bytes 4 (ucast (e :: byte) :: u32) = [e, 0, 0, 0]"
  by (simp add: le_bytes_4)
    (auto intro!: bit_word_eqI simp: bit_simps, (fastforce dest: bit_imp_le_length)+)

lemma action_code_instructions: "action_code c p a = encode_all (action_instructions c p a)"
  by (cases a) (simp_all add: action_instructions_def encode_all_def write_block_def read_block_def
      open_block_def close_block_def fd_move_def le_bytes_small)

lemma exit_block_instructions: "exit_block e = encode_all [mov_eax 60, mov_edi (ucast e), do_syscall]"
  by (simp add: exit_block_def encode_all_def le_bytes_small le_bytes_byte)

lemma ucast_u32_eqs [simp]:
  "(ucast (1 :: u32) :: u64) = 1" "(ucast (0 :: u32) :: u64) = 0" "(ucast (2 :: u32) :: u64) = 2"
  "(ucast (3 :: u32) :: u64) = 3" "(ucast (60 :: u32) :: u64) = 60"
  by simp_all

lemma unat_ucast_u32: "unat (ucast (v :: u32) :: u64) = unat v"
  using unsigned_less [of v, where ?'a = nat] by (simp add: unsigned_ucast_eq take_bit_nat_eq_self)

lemma unat_word32: "n < 2 ^ 31 \<Longrightarrow> unat (word32 n) = n"
  unfolding word32_def by (subst unat_of_nat) simp

lemma takeWhile_string: "takeWhile (\<lambda>b. b \<noteq> 0) (xs @ (0 :: byte) # ys) = takeWhile (\<lambda>b. b \<noteq> 0) xs"
  by (induction xs) auto

lemma execute_action:
  assumes rip: "cpu_rip s = c" and payload: "code_at img p (action_payload a)"
    and size: "length img < 2 ^ 31" and c: "c + 24 \<le> length img"
  shows "\<exists>s'. execute_all os img (action_instructions c p a) s = running s' \<and>
    cpu_trace s' = cpu_trace s @ [event_of p a]"
proof -
  have p: "p + action_payload_size a \<le> length img"
    "take (action_payload_size a) (drop p img) = action_payload a"
    using payload by (auto simp: code_at_def)
  have address: "rip_relative (c + 17) (displacement p (c + 17)) = word_of_nat (image_base + p)"
    "rip_relative (c + 12) (displacement p (c + 12)) = word_of_nat (image_base + p)"
    using p(1) c size by (intro rip_relative_displacement; simp)+
  then have flipped: "rip_relative (17 + c) (displacement p (c + 17)) = word_of_nat (image_base + p)"
    "rip_relative (12 + c) (displacement p (c + 12)) = word_of_nat (image_base + p)"
    by (simp_all only: add.commute)
  have base: "image_address (word_of_nat (image_base + p)) = p"
    "image_base \<le> unat (word_of_nat (image_base + p) :: u64)"
    using p(1) size by (intro image_address_of; simp)+
  show ?thesis
  proof (cases a)
    case (act_write call)
    have "unat (word32 (length (wc_payload call))) = length (wc_payload call)"
      using p(1) size act_write by (intro unat_word32) simp
    then show ?thesis
      using rip p act_write
      by (simp add: action_instructions_def event_of_def address flipped syscall_def in_image_def base
          unat_ucast_u32 del: of_nat_add)
  next
    case (act_read call)
    then show ?thesis
      using rip p
      by (simp add: action_instructions_def event_of_def address flipped syscall_def in_image_def base
          unat_ucast_u32 del: of_nat_add)
  next
    case (act_open call)
    have "drop p img = oc_filename call @ 0 # drop (p + Suc (length (oc_filename call))) img"
      using p act_open append_take_drop_id [of "Suc (length (oc_filename call))" "drop p img"]
      by (simp add: add.commute)
    then show ?thesis
      using rip p(1) act_open
      by (simp add: action_instructions_def event_of_def address flipped syscall_def in_image_def base
          takeWhile_string del: of_nat_add)
  next
    case (act_close fd)
    then show ?thesis
      using rip by (simp add: action_instructions_def event_of_def syscall_def)
  qed
qed

section \<open>Programs\<close>

fun action_events :: "nat \<Rightarrow> syscall_action list \<Rightarrow> event list" where
  "action_events p [] = []"
| "action_events p (a # acts) = event_of p a # action_events (p + action_payload_size a) acts"

definition program_steps :: "syscall_action list \<Rightarrow> nat" where
  "program_steps acts = sum_list (map (\<lambda>a. length (action_instructions 0 0 a)) acts)"

lemma length_action_instructions: "length (action_instructions c p a) = length (action_instructions 0 0 a)"
  by (cases a) (simp_all add: action_instructions_def)

lemma program_steps_le: "program_steps acts \<le> 6 * length acts"
proof (induction acts)
  case (Cons a acts)
  have "length (action_instructions 0 0 a) \<le> 6" by (cases a) (simp_all add: action_instructions_def)
  with Cons show ?case by (simp add: program_steps_def)
qed (simp add: program_steps_def)

lemma action_code_size_bound: "12 \<le> action_code_size a (is_open a) \<and> (c + action_code_size a (is_open a) + 12 \<le> n \<longrightarrow> c + 24 \<le> n)"
  by (cases a) (simp_all add: action_code_size_def layout_defs)

lemma run_action:
  assumes rip: "cpu_rip s = c" and code: "code_at img c (action_code c p a)"
    and payload: "code_at img p (action_payload a)" and size: "length img < 2 ^ 31"
    and c: "c + action_code_size a (is_open a) + 12 \<le> length img"
  shows "\<exists>s'. (\<forall>n. x86_run os img (length (action_instructions 0 0 a) + n) s = x86_run os img n s') \<and>
    cpu_rip s' = c + action_code_size a (is_open a) \<and> cpu_trace s' = cpu_trace s @ [event_of p a]"
proof -
  have "c + 24 \<le> length img" using c action_code_size_bound by blast
  from execute_action [OF rip payload size this, of os] obtain s' where
      run: "execute_all os img (action_instructions c p a) s = running s'"
    and trace: "cpu_trace s' = cpu_trace s @ [event_of p a]" by blast
  have code': "code_at img (cpu_rip s) (encode_all (action_instructions c p a))"
    using code rip by (simp add: action_code_instructions)
  have "cpu_rip s' = cpu_rip s + length (encode_all is)" if "execute_all os img is s = running s'" for "is"
    using that by (induction "is" arbitrary: s)
      (auto simp: encode_all_def dest!: execute_rip split: outcome.split_asm)
  from this [OF run] have "cpu_rip s' = c + action_code_size a (is_open a)"
    using rip by (simp flip: action_code_instructions)
  with x86_run_all [OF code' run] trace show ?thesis
    by (auto simp: length_action_instructions [of c p])
qed

lemma run_actions:
  "cpu_rip s = c \<Longrightarrow> code_at img c (actions_code c p acts) \<Longrightarrow> code_at img p (actions_payload acts) \<Longrightarrow>
     length img < 2 ^ 31 \<Longrightarrow> c + actions_code_size acts + 12 \<le> length img \<Longrightarrow>
     \<exists>s'. (\<forall>n. x86_run os img (program_steps acts + n) s = x86_run os img n s') \<and>
       cpu_rip s' = c + actions_code_size acts \<and> cpu_trace s' = cpu_trace s @ action_events p acts"
proof (induction acts arbitrary: s c p)
  case Nil
  then show ?case by (auto simp: program_steps_def)
next
  case (Cons a acts)
  let ?k = "action_code_size a (is_open a)"
  from Cons.prems obtain s1 where
      1: "\<And>n. x86_run os img (length (action_instructions 0 0 a) + n) s = x86_run os img n s1"
    and s1: "cpu_rip s1 = c + ?k" "cpu_trace s1 = cpu_trace s @ [event_of p a]"
    using run_action [of s c img p a os] by (auto simp: actions_payload_def)
  have "code_at img (c + ?k) (actions_code (c + ?k) (p + action_payload_size a) acts)"
    "code_at img (p + action_payload_size a) (actions_payload acts)"
    "c + ?k + actions_code_size acts + 12 \<le> length img"
    using Cons.prems by (simp_all add: actions_payload_def)
  from Cons.IH [OF s1(1) this(1,2) Cons.prems(4) this(3)] obtain s2 where
      2: "\<And>n. x86_run os img (program_steps acts + n) s1 = x86_run os img n s2"
    and s2: "cpu_rip s2 = c + ?k + actions_code_size acts"
      "cpu_trace s2 = cpu_trace s1 @ action_events (p + action_payload_size a) acts" by blast
  have "x86_run os img (program_steps (a # acts) + n) s = x86_run os img n s2" for n
    using 1 2 by (simp add: program_steps_def add.assoc)
  with s1 s2 show ?case by auto
qed

lemma ucast_byte_up: "(ucast (ucast (e :: byte) :: u32) :: u64) = ucast e"
  by (rule bit_word_eqI) (auto simp: bit_simps dest: bit_imp_le_length)

lemma run_exit:
  assumes "cpu_rip s = c" and "code_at img c (exit_block e)"
  shows "x86_run os img (3 + n) s = Some (cpu_trace s @ [ev_exit (ucast e)])"
proof -
  let ?is = "[mov_eax 60, mov_edi (ucast e), do_syscall]"
  have "execute_all os img ?is s = halted (cpu_trace s @ [ev_exit (ucast e)])"
    by (simp add: syscall_def ucast_byte_up)
  with assms have "x86_run os img (length ?is + n) s = Some (cpu_trace s @ [ev_exit (ucast e)])"
    by (intro x86_run_halted) (simp_all only: exit_block_instructions)
  moreover have "length ?is + n = 3 + n" by simp
  ultimately show ?thesis by argo
qed

lemma x86_run_more: "x86_run os img n s = Some t \<Longrightarrow> n \<le> m \<Longrightarrow> x86_run os img m s = Some t"
proof (induction n arbitrary: s m)
  case (Suc n)
  then obtain k where "m = Suc k" "n \<le> k" by (cases m) auto
  with Suc show ?case by (auto split: outcome.splits)
qed simp

definition program_payload_start :: "syscall_action list \<Rightarrow> nat" where
  "program_payload_start acts = elf_code_offset + (exit_code_size + actions_code_size acts)"

lemma run_program:
  assumes "length (action_image acts e) < 2 ^ 31"
  shows "x86_run os (action_image acts e) (6 * length acts + 3) start_state =
    Some (action_events (program_payload_start acts) acts @ [ev_exit (ucast e)])"
proof -
  let ?img = "action_image acts e" and ?p = "program_payload_start acts"
  let ?H = "elf_header (?p + actions_payload_size acts)"
  let ?C = "actions_code elf_code_offset ?p acts"
  have img: "?img = ?H @ ?C @ exit_block e @ actions_payload acts"
    by (simp add: action_image_def program_payload_start_def Let_def)
  have code: "code_at ?img elf_code_offset ?C"
    using code_at_here [of ?H ?C "exit_block e @ actions_payload acts"] by (simp add: img)
  have exit_code: "code_at ?img (elf_code_offset + actions_code_size acts) (exit_block e)"
    using code_at_here [of "?H @ ?C" "exit_block e" "actions_payload acts"] by (simp add: img)
  have payload: "code_at ?img ?p (actions_payload acts)"
    using code_at_here [of "?H @ ?C @ exit_block e" "actions_payload acts" "[]"]
    by (simp add: img program_payload_start_def ac_simps)
  have "elf_code_offset + actions_code_size acts + 12 \<le> length ?img"
    by (simp add: img exit_code_size_def)
  with run_actions [of start_state elf_code_offset ?img ?p acts os] code payload assms
  obtain s where 1: "\<And>n. x86_run os ?img (program_steps acts + n) start_state = x86_run os ?img n s"
    and s: "cpu_rip s = elf_code_offset + actions_code_size acts"
      "cpu_trace s = action_events ?p acts"
    by (auto simp: start_state_def)
  have "x86_run os ?img (program_steps acts + 3) start_state = Some (action_events ?p acts @ [ev_exit (ucast e)])"
    using 1 [of 3] run_exit [OF s(1) exit_code, of os 0] s(2) by simp
  then show ?thesis
    by (rule x86_run_more) (use program_steps_le [of acts] in simp)
qed

section \<open>The other emitters\<close>

lemma actions_patches_writes:
  "actions_patches c p (map act_write writes @ acts) =
     write_patches c p writes @
     actions_patches (c + per_write_code_size * length writes) (p + payload_total writes) acts"
  by (induction writes arbitrary: c p)
    (simp_all add: action_code_size_def payload_total_def algebra_simps)

lemma actions_patches_reads:
  "actions_patches c p (map act_read reads) = read_patches c p reads"
  by (induction reads arbitrary: c p) (simp_all add: action_code_size_def)

lemma syscall_program_sizes:
  "actions_code_size (map act_write writes @ map act_read reads) =
     per_write_code_size * length writes + per_read_code_size * length reads"
  "actions_payload_size (map act_write writes @ map act_read reads) =
     payload_total writes + sum_list (map (\<lambda>call. unat (rc_max_bytes call)) reads)"
  by (simp_all add: actions_code_size_def actions_payload_size_def payload_total_def comp_def
      action_code_size_def sum_list_triv)

lemma emit_syscall_program_actions:
  "emit_syscall_program_executable writes reads e =
     emit_action_program_executable (map act_write writes @ map act_read reads) e"
  by (simp add: emit_syscall_program_executable_def emit_action_program_executable_def Let_def
      syscall_program_sizes actions_patches_writes actions_patches_reads ac_simps)

lemma patch_right:
  "k + length bs \<le> length ys \<Longrightarrow>
     patch (length xs + k) bs (xs @ ys) = Inr (xs @ patched k bs ys)"
  by (simp add: patch_def patched_def)

lemma emit_exit_image: "emit_exit_executable e = Inr (action_image [] e)"
proof -
  let ?H = "elf_header (elf_code_offset + 12)"
  have right: "patch (elf_code_offset + k) bs (?H @ ys) = Inr (?H @ patched k bs ys)"
    if "k + length bs \<le> length ys" for k bs ys
    using patch_right [OF that, of ?H] by simp
  have zeros: "replicate 12 (0 :: byte) = [0, 0, 0, 0, 0, 0, 0, 0, 0, 0, 0, 0]"
    by (simp add: numeral_eq_Suc)
  have here: "length bs \<le> length ys \<Longrightarrow> patch elf_code_offset bs (?H @ ys) = Inr (?H @ patched 0 bs ys)"
    "1 + length bs \<le> length ys \<Longrightarrow>
      patch (Suc elf_code_offset) bs (?H @ ys) = Inr (?H @ patched 1 bs ys)" for bs ys
    using right [of 0 bs ys] right [of 1 bs ys] by simp_all
  have "patch_all [(elf_code_offset, [0xb8]), (elf_code_offset + 1, [0x3c]), (elf_code_offset + 5, [0xbf]),
            (elf_code_offset + 6, [e]), (elf_code_offset + 10, [0x0f]), (elf_code_offset + 11, [0x05])]
          (?H @ [0, 0, 0, 0, 0, 0, 0, 0, 0, 0, 0, 0]) = Inr (?H @ exit_block e)"
    by (simp add: here right patched_def exit_block_def)
  then show ?thesis
    unfolding emit_exit_executable_def Let_def patch_all_append elf_header_emitted zeros bindE.simps
    by (simp add: action_image_def actions_payload_def exit_code_size_def)
qed

end
