(* ===== verification/DescriptorThreading.thy ===== *)
theory DescriptorThreading
  imports ElfRun
begin

text \<open>
  What \<open>elf_writer.hpp\<close> says of \<open>emit_action_program_executable\<close> beyond the list of actions: the descriptor
  that an open returns is threaded into the next write or close. \<open>threaded_events\<close> are the system calls
  of that reading. The emitted code moves the descriptor to RDI, but the block of the next write or close loads
  its own, so that both readings agree exactly where each such action gives the descriptor that it would get.
\<close>

definition given_descriptor :: "syscall_action \<Rightarrow> u64 option" where
  "given_descriptor a =
     (case a of
        act_write call \<Rightarrow> Some (ucast (wc_file_descriptor call))
      | act_close fd \<Rightarrow> Some (ucast fd)
      | _ \<Rightarrow> None)"

text \<open>The call of an action when \<open>opened\<close> is the descriptor that waits to be used, and what waits after it.\<close>

definition threaded_event :: "u64 option \<Rightarrow> nat \<Rightarrow> syscall_action \<Rightarrow> event" where
  "threaded_event opened p a =
     (case (opened, a) of
        (Some fd, act_write call) \<Rightarrow> ev_write fd (wc_payload call)
      | (Some fd, act_close _) \<Rightarrow> ev_close fd
      | _ \<Rightarrow> event_of p a)"

definition now_opened :: "(event list \<Rightarrow> u64) \<Rightarrow> event list \<Rightarrow> u64 option \<Rightarrow> syscall_action \<Rightarrow> u64 option" where
  "now_opened os trace opened a =
     (case a of
        act_open _ \<Rightarrow> Some (os trace)
      | act_read _ \<Rightarrow> opened
      | _ \<Rightarrow> None)"

fun threaded_events ::
  "(event list \<Rightarrow> u64) \<Rightarrow> event list \<Rightarrow> u64 option \<Rightarrow> nat \<Rightarrow> syscall_action list \<Rightarrow> event list" where
  "threaded_events os trace opened p [] = []"
| "threaded_events os trace opened p (a # acts) =
     (let e = threaded_event opened p a; trace' = trace @ [e]
      in e # threaded_events os trace' (now_opened os trace' opened a) (p + action_payload_size a) acts)"

text \<open>The first write or close after an open gives the descriptor that the open returned.\<close>

fun descriptors_agree ::
  "(event list \<Rightarrow> u64) \<Rightarrow> event list \<Rightarrow> u64 option \<Rightarrow> nat \<Rightarrow> syscall_action list \<Rightarrow> bool" where
  "descriptors_agree os trace opened p [] \<longleftrightarrow> True"
| "descriptors_agree os trace opened p (a # acts) \<longleftrightarrow>
     (opened = None \<or> given_descriptor a = None \<or> given_descriptor a = opened) \<and>
     (let trace' = trace @ [event_of p a]
      in descriptors_agree os trace' (now_opened os trace' opened a) (p + action_payload_size a) acts)"

lemma threaded_event_iff:
  "threaded_event opened p a = event_of p a \<longleftrightarrow>
     opened = None \<or> given_descriptor a = None \<or> given_descriptor a = opened"
  by (cases a; cases opened) (auto simp: threaded_event_def given_descriptor_def event_of_def)

lemma threaded_events_iff:
  "threaded_events os trace opened p acts = action_events p acts \<longleftrightarrow> descriptors_agree os trace opened p acts"
proof (induction acts arbitrary: trace opened p)
  case (Cons a acts)
  show ?case
  proof (cases "threaded_event opened p a = event_of p a")
    case True
    with threaded_event_iff [of opened p a] show ?thesis by (simp add: Let_def Cons.IH)
  next
    case False
    with threaded_event_iff [of opened p a] show ?thesis by (simp add: Let_def)
  qed
qed simp

end
