(* ===== verification/ControlFlowIr.thy ===== *)
theory ControlFlowIr
  imports CfgFacts
begin

text \<open>
  \<open>ir/control_flow_ir.hpp\<close> and \<open>ir/control_flow_ir.cpp\<close>: lowering of a CFG to dense block ids.
  The \<open>unordered_map\<close> from block starts to indices is a map; \<open>emplace\<close> on a key that is present
  is the error of duplicate starts.
\<close>

datatype terminator_kind = t_stop | t_jump | t_branch

record ir_block =
  ir_id :: nat
  ir_source_start :: nat
  ir_terminator :: terminator_kind
  ir_successors :: "nat list"
  ir_condition :: branch_condition

datatype ir_error = DuplicateStarts | SuccessorNotStart | TooManySuccessors

fun collect_ids ::
  "basic_block list \<Rightarrow> nat \<Rightarrow> (nat \<Rightarrow> nat option) \<Rightarrow> (ir_error, nat \<Rightarrow> nat option) res" where
  "collect_ids [] index ids = Inr ids"
| "collect_ids (b # bs) index ids =
     (if ids (bb_start b) \<noteq> None then Inl (Fail DuplicateStarts)
      else collect_ids bs (Suc index) (ids(bb_start b \<mapsto> index)))"

fun resolve_targets :: "(nat \<Rightarrow> nat option) \<Rightarrow> nat list \<Rightarrow> (ir_error, nat list) res" where
  "resolve_targets ids [] = Inr []"
| "resolve_targets ids (t # ts) =
     (case ids t of
        None \<Rightarrow> Inl (Fail SuccessorNotStart)
      | Some i \<Rightarrow> bindE (resolve_targets ids ts) (\<lambda>is. Inr (i # is)))"

definition terminator_for :: "nat \<Rightarrow> terminator_kind" where
  "terminator_for n = (if n = 1 then t_jump else if n = 2 then t_branch else t_stop)"

definition lower_block ::
  "(nat \<Rightarrow> nat option) \<Rightarrow> nat \<Rightarrow> basic_block \<Rightarrow> (ir_error, ir_block) res" where
  "lower_block ids index b =
     bindE (resolve_targets ids (bb_successors b)) (\<lambda>succs.
       if length succs > 2 then Inl (Fail TooManySuccessors)
       else Inr \<lparr>ir_id = index, ir_source_start = bb_start b,
                 ir_terminator = terminator_for (length succs),
                 ir_successors = succs, ir_condition = bb_condition b\<rparr>)"

fun lower_blocks ::
  "(nat \<Rightarrow> nat option) \<Rightarrow> nat \<Rightarrow> basic_block list \<Rightarrow> (ir_error, ir_block list) res" where
  "lower_blocks ids index [] = Inr []"
| "lower_blocks ids index (b # bs) =
     bindE (lower_block ids index b) (\<lambda>x.
     bindE (lower_blocks ids (Suc index) bs) (\<lambda>xs. Inr (x # xs)))"

definition lower :: "control_flow_graph \<Rightarrow> (ir_error, ir_block list) res" where
  "lower g = bindE (collect_ids g 0 Map.empty) (\<lambda>ids. lower_blocks ids 0 g)"

section \<open>Lowering a closed graph succeeds\<close>

definition ids_for :: "control_flow_graph \<Rightarrow> (nat \<Rightarrow> nat option) \<Rightarrow> bool" where
  "ids_for g ids \<longleftrightarrow> (\<forall>s i. ids s = Some i \<longleftrightarrow> i < length g \<and> bb_start (g ! i) = s)"

lemma collect_ids_ok:
  "distinct (block_starts g) \<Longrightarrow> (\<forall>b \<in> set g. ids (bb_start b) = None) \<Longrightarrow>
     \<exists>ids'. collect_ids g k ids = Inr ids' \<and>
       (\<forall>s i. ids' s = Some i \<longleftrightarrow>
          ids s = Some i \<or> (\<exists>n < length g. i = k + n \<and> bb_start (g ! n) = s))"
proof (induction g arbitrary: k ids)
  case Nil
  then show ?case by simp
next
  case (Cons b g)
  from Cons.prems have notin: "bb_start b \<notin> set (block_starts g)" and none: "ids (bb_start b) = None"
    by (auto simp: block_starts_def)
  from Cons.prems notin
  have "\<exists>ids'. collect_ids g (Suc k) (ids(bb_start b \<mapsto> k)) = Inr ids' \<and>
       (\<forall>s i. ids' s = Some i \<longleftrightarrow> (ids(bb_start b \<mapsto> k)) s = Some i \<or>
          (\<exists>n < length g. i = Suc k + n \<and> bb_start (g ! n) = s))"
    by (intro Cons.IH) (auto simp: block_starts_def image_iff)
  then obtain ids' where c: "collect_ids g (Suc k) (ids(bb_start b \<mapsto> k)) = Inr ids'"
    and ids': "\<And>s i. ids' s = Some i \<longleftrightarrow> (ids(bb_start b \<mapsto> k)) s = Some i \<or>
          (\<exists>n < length g. i = Suc k + n \<and> bb_start (g ! n) = s)"
    by blast
  have "ids' s = Some i \<longleftrightarrow>
      ids s = Some i \<or> (\<exists>n < length (b # g). i = k + n \<and> bb_start ((b # g) ! n) = s)" for s i
    using none by (auto simp: ids' Ex_less_Suc2)
  with c none show ?case by auto
qed

lemma collect_ids_for:
  assumes "distinct (block_starts g)"
  obtains ids where "collect_ids g 0 Map.empty = Inr ids" and "ids_for g ids"
  using collect_ids_ok [OF assms, of Map.empty 0] by (auto simp: ids_for_def)

lemma resolve_targets_ok:
  "(\<forall>t \<in> set ts. ids t \<noteq> None) \<Longrightarrow> resolve_targets ids ts = Inr (map (\<lambda>t. the (ids t)) ts)"
  by (induction ts) (auto split: option.splits)

lemma resolve_targets_Inr:
  "resolve_targets ids ts = Inr is \<Longrightarrow> list_all2 (\<lambda>t i. ids t = Some i) ts is"
  by (induction ts arbitrary: "is") (auto simp: bindE_eq_Inr split: option.splits)

definition lowered_block :: "(nat \<Rightarrow> nat option) \<Rightarrow> nat \<Rightarrow> basic_block \<Rightarrow> ir_block \<Rightarrow> bool" where
  "lowered_block ids k b x \<longleftrightarrow>
     ir_id x = k \<and> ir_source_start x = bb_start b \<and> ir_condition x = bb_condition b \<and>
     ir_terminator x = terminator_for (length (bb_successors b)) \<and>
     list_all2 (\<lambda>t i. ids t = Some i) (bb_successors b) (ir_successors x)"

lemma lower_block_ok:
  "(\<forall>t \<in> set (bb_successors b). ids t \<noteq> None) \<Longrightarrow> length (bb_successors b) \<le> 2 \<Longrightarrow>
     \<exists>x. lower_block ids k b = Inr x"
  by (simp add: lower_block_def resolve_targets_ok)

lemma lower_block_Inr: "lower_block ids k b = Inr x \<Longrightarrow> lowered_block ids k b x"
  by (auto simp: lower_block_def lowered_block_def bindE_eq_Inr dest!: resolve_targets_Inr
      dest: list_all2_lengthD split: if_split_asm)

lemma lower_blocks_ok:
  "(\<forall>b \<in> set bs. (\<forall>t \<in> set (bb_successors b). ids t \<noteq> None) \<and> length (bb_successors b) \<le> 2) \<Longrightarrow>
     \<exists>xs. lower_blocks ids k bs = Inr xs"
proof (induction bs arbitrary: k)
  case Nil
  then show ?case by simp
next
  case (Cons b bs)
  then obtain x where "lower_block ids k b = Inr x" using lower_block_ok [of b ids k] by auto
  moreover from Cons obtain xs where "lower_blocks ids (Suc k) bs = Inr xs"
    by (metis list.set_intros(2))
  ultimately show ?case by simp
qed

lemma lower_blocks_Inr:
  "lower_blocks ids k bs = Inr xs \<Longrightarrow>
     length xs = length bs \<and> (\<forall>n < length bs. lowered_block ids (k + n) (bs ! n) (xs ! n))"
proof (induction bs arbitrary: k xs)
  case Nil
  then show ?case by simp
next
  case (Cons b bs)
  then obtain y ys where y: "lower_block ids k b = Inr y" and ys: "lower_blocks ids (Suc k) bs = Inr ys"
    and xs: "xs = y # ys"
    by (auto simp: bindE_eq_Inr)
  show ?case
    using Cons.IH [OF ys] lower_block_Inr [OF y] xs by (auto simp: less_Suc_eq_0_disj)
qed

text \<open>A well-formed IR program: dense ids, targets inside the program, matching terminators.\<close>

definition wf_ir :: "ir_block list \<Rightarrow> bool" where
  "wf_ir p \<longleftrightarrow>
     (\<forall>n < length p. ir_id (p ! n) = n \<and> (\<forall>t \<in> set (ir_successors (p ! n)). t < length p) \<and>
        ir_terminator (p ! n) = terminator_for (length (ir_successors (p ! n))) \<and>
        length (ir_successors (p ! n)) \<le> 2)"

definition ir_of_graph :: "control_flow_graph \<Rightarrow> ir_block list \<Rightarrow> bool" where
  "ir_of_graph g p \<longleftrightarrow> length p = length g \<and>
     (\<forall>n < length g. ir_source_start (p ! n) = bb_start (g ! n) \<and>
        ir_condition (p ! n) = bb_condition (g ! n) \<and>
        map (\<lambda>t. ir_source_start (p ! t)) (ir_successors (p ! n)) = bb_successors (g ! n))"

lemma lowered_successors:
  assumes "lowered_block ids n b x" and "ids_for g ids"
  shows "length (ir_successors x) = length (bb_successors b)"
    and "\<And>j. j < length (bb_successors b) \<Longrightarrow>
      ir_successors x ! j < length g \<and> bb_start (g ! (ir_successors x ! j)) = bb_successors b ! j"
  using assms by (auto simp: lowered_block_def ids_for_def list_all2_conv_all_nth)

lemma lower_blocks_wf:
  assumes low: "lower_blocks ids 0 g = Inr p" and ids: "ids_for g ids"
    and small: "\<forall>b \<in> set g. length (bb_successors b) \<le> 2"
  shows "wf_ir p" and "ir_of_graph g p"
proof -
  have len: "length p = length g" and blk: "\<And>n. n < length g \<Longrightarrow> lowered_block ids n (g ! n) (p ! n)"
    using lower_blocks_Inr [OF low] by auto
  note succ = lowered_successors [OF blk ids]
  show "wf_ir p"
    unfolding wf_ir_def
  proof (intro allI impI)
    fix n assume "n < length p"
    then have n: "n < length g" by (simp add: len)
    have "\<forall>t \<in> set (ir_successors (p ! n)). t < length p"
      using succ [OF n] by (auto simp: in_set_conv_nth len)
    with n small blk [OF n] succ(1) [OF n] show "ir_id (p ! n) = n \<and>
        (\<forall>t \<in> set (ir_successors (p ! n)). t < length p) \<and>
        ir_terminator (p ! n) = terminator_for (length (ir_successors (p ! n))) \<and>
        length (ir_successors (p ! n)) \<le> 2"
      by (simp add: lowered_block_def)
  qed
  show "ir_of_graph g p"
    unfolding ir_of_graph_def
  proof (intro conjI allI impI)
    show "length p = length g" by (rule len)
  next
    fix n assume n: "n < length g"
    show "ir_source_start (p ! n) = bb_start (g ! n)" "ir_condition (p ! n) = bb_condition (g ! n)"
      using blk [OF n] by (simp_all add: lowered_block_def)
    have "ir_source_start (p ! t) = bb_start (g ! t)" if "t < length g" for t
      using blk [OF that] by (simp add: lowered_block_def)
    with succ [OF n]
    show "map (\<lambda>t. ir_source_start (p ! t)) (ir_successors (p ! n)) = bb_successors (g ! n)"
      by (intro nth_equalityI) simp_all
  qed
qed

lemma good_graph_lowers:
  assumes "good_graph code entry g"
  shows "\<exists>p. lower g = Inr p \<and> wf_ir p \<and> ir_of_graph g p"
proof -
  from assms have d: "distinct (block_starts g)"
    and closed: "\<forall>b \<in> set g. set (bb_successors b) \<subseteq> bb_start ` set g"
    and small: "\<forall>b \<in> set g. length (bb_successors b) \<le> 2"
    by (auto simp: good_graph_def sound_starts_def block_starts_def intro: successors_le_2)
  obtain ids where ids: "collect_ids g 0 Map.empty = Inr ids" "ids_for g ids"
    using collect_ids_for [OF d] .
  then have "\<forall>s \<in> bb_start ` set g. ids s \<noteq> None"
    by (fastforce simp: ids_for_def in_set_conv_nth)
  with closed small obtain p where p: "lower_blocks ids 0 g = Inr p"
    using lower_blocks_ok [of g ids 0] by blast
  with ids(1) have "lower g = Inr p" by (simp add: lower_def)
  with lower_blocks_wf [OF p ids(2) small] show ?thesis by blast
qed

end
