(* ===== verification/ConventionalMemory.thy ===== *)
theory ConventionalMemory
  imports Prelude
begin

text \<open>
  \<open>runtime/conventional_memory.hpp\<close>, \<open>runtime/conventional_memory.cpp\<close> and the memory services of
  \<open>runtime/int21.cpp\<close>: a first-fit allocator of 16-byte paragraphs over a list of blocks, and the
  \<open>INT 21h\<close> dispatcher that is its client.
\<close>

section \<open>The allocator\<close>

record mem_block =
  blk_start :: u16
  blk_size :: u16
  blk_free :: bool

type_synonym pool = "mem_block list"

datatype allocator_error = ZeroSize | Exhausted | NotAllocated

definition conventional_memory_init :: "u16 \<Rightarrow> pool" where
  "conventional_memory_init paragraphs =
     (if paragraphs \<noteq> 0 then [\<lparr>blk_start = 0, blk_size = paragraphs, blk_free = True\<rparr>] else [])"

text \<open>The loop of \<open>allocate\<close>: the first free block that is large enough is taken or split.\<close>

fun allocate_in :: "pool \<Rightarrow> u16 \<Rightarrow> (u16 \<times> pool) option" where
  "allocate_in [] n = None"
| "allocate_in (b # bs) n =
     (if \<not> blk_free b \<or> blk_size b < n then map_option (apsnd ((#) b)) (allocate_in bs n)
      else if blk_size b = n then Some (blk_start b, b\<lparr>blk_free := False\<rparr> # bs)
      else Some (blk_start b,
             b\<lparr>blk_size := n, blk_free := False\<rparr> #
             \<lparr>blk_start = blk_start b + n, blk_size = blk_size b - n, blk_free = True\<rparr> # bs))"

definition allocate :: "pool \<Rightarrow> u16 \<Rightarrow> (allocator_error, u16 \<times> pool) res" where
  "allocate bs n =
     (if n = 0 then Inl (Fail ZeroSize)
      else (case allocate_in bs n of Some r \<Rightarrow> Inr r | None \<Rightarrow> Inl (Fail Exhausted)))"

text \<open>Neighbouring free blocks are merged, from the front, without advancing after a merge.\<close>

fun coalesce :: "pool \<Rightarrow> pool" where
  "coalesce [] = []"
| "coalesce [b] = [b]"
| "coalesce (a # b # bs) =
     (if blk_free a \<and> blk_free b then coalesce (a\<lparr>blk_size := blk_size a + blk_size b\<rparr> # bs)
      else a # coalesce (b # bs))"

fun mark_free :: "u16 \<Rightarrow> pool \<Rightarrow> pool" where
  "mark_free s [] = []"
| "mark_free s (b # bs) = (if blk_start b = s then b\<lparr>blk_free := True\<rparr> # bs else b # mark_free s bs)"

definition release :: "pool \<Rightarrow> u16 \<Rightarrow> (allocator_error, pool) res" where
  "release bs s =
     (case find (\<lambda>b. blk_start b = s) bs of
        None \<Rightarrow> Inl (Fail NotAllocated)
      | Some b \<Rightarrow> if blk_free b then Inl (Fail NotAllocated) else Inr (coalesce (mark_free s bs)))"

fun largest_from :: "u16 \<Rightarrow> pool \<Rightarrow> u16" where
  "largest_from m [] = m"
| "largest_from m (b # bs) =
     largest_from (if blk_free b \<and> blk_size b > m then blk_size b else m) bs"

definition largest_free_block :: "pool \<Rightarrow> u16" where
  "largest_free_block bs = largest_from 0 bs"

section \<open>The INT 21h memory services\<close>

record int21_request =
  rq_ah :: byte
  rq_al :: byte
  rq_dl :: byte
  rq_bx :: u16
  rq_es :: u16
  rq_string_offset :: nat

datatype 'e memory_service_error = AllocatorFailed 'e | UnsupportedMemoryFunction

text \<open>The dispatcher over any allocator; \<open>int21_memory_dispatch\<close> is the code's.\<close>

definition memory_dispatch ::
  "('m \<Rightarrow> u16 \<Rightarrow> ('e, u16 \<times> 'm) res) \<Rightarrow> ('m \<Rightarrow> u16 \<Rightarrow> ('e, 'm) res) \<Rightarrow> int21_request \<Rightarrow> 'm \<Rightarrow>
     ('e memory_service_error, u16 option \<times> 'm) res" where
  "memory_dispatch alloc free request m =
     (if rq_ah request = 0x48 then
        bindE (wrapE AllocatorFailed (alloc m (rq_bx request))) (\<lambda>(s, m'). Inr (Some s, m'))
      else if rq_ah request = 0x49 then
        bindE (wrapE AllocatorFailed (free m (rq_es request))) (\<lambda>m'. Inr (None, m'))
      else Inl (Fail UnsupportedMemoryFunction))"

definition int21_memory_dispatch ::
  "int21_request \<Rightarrow> pool \<Rightarrow> (allocator_error memory_service_error, u16 option \<times> pool) res" where
  "int21_memory_dispatch = memory_dispatch allocate release"

text \<open>A run of requests; a refused request leaves the pool as it was.\<close>

fun serve :: "('r \<Rightarrow> 'm \<Rightarrow> ('e, 'a \<times> 'm) res) \<Rightarrow> 'm \<Rightarrow> 'r list \<Rightarrow> 'm" where
  "serve dispatch m [] = m"
| "serve dispatch m (r # rs) =
     serve dispatch (case dispatch r m of Inr (_, m') \<Rightarrow> m' | Inl _ \<Rightarrow> m) rs"

section \<open>The allocator interface\<close>

text \<open>
  What a client relies on. \<open>live\<close> is the map from the segments handed out and not yet returned to
  their sizes; the laws say how each operation changes it and that extents never overlap.
\<close>

definition separate :: "(u16 \<Rightarrow> u16 option) \<Rightarrow> bool" where
  "separate l \<longleftrightarrow> (\<forall>s n t k. l s = Some n \<longrightarrow> l t = Some k \<longrightarrow> s \<noteq> t \<longrightarrow>
     unat s + unat n \<le> unat t \<or> unat t + unat k \<le> unat s)"

locale paragraph_allocator =
  fixes alloc :: "'m \<Rightarrow> u16 \<Rightarrow> ('e, u16 \<times> 'm) res"
    and free :: "'m \<Rightarrow> u16 \<Rightarrow> ('e, 'm) res"
    and live :: "'m \<Rightarrow> u16 \<Rightarrow> u16 option"
    and inv :: "'m \<Rightarrow> bool"
  assumes alloc_inv: "inv m \<Longrightarrow> alloc m n = Inr (s, m') \<Longrightarrow> inv m'"
    and alloc_live: "inv m \<Longrightarrow> alloc m n = Inr (s, m') \<Longrightarrow> live m s = None \<and> live m' = (live m)(s \<mapsto> n)"
    and free_inv: "inv m \<Longrightarrow> free m s = Inr m' \<Longrightarrow> inv m'"
    and free_live: "inv m \<Longrightarrow> free m s = Inr m' \<Longrightarrow> live m s \<noteq> None \<and> live m' = (live m)(s := None)"
    and free_ok: "inv m \<Longrightarrow> live m s \<noteq> None \<Longrightarrow> is_ok (free m s)"
    and live_separate: "inv m \<Longrightarrow> separate (live m)"
begin

lemma double_free_fails:
  assumes "inv m" and "free m s = Inr m'"
  shows "\<not> is_ok (free m' s)"
proof
  assume "is_ok (free m' s)"
  then obtain m'' where again: "free m' s = Inr m''" by (auto simp: is_ok_iff)
  from free_live [OF free_inv [OF assms] again] have "live m' s \<noteq> None" by blast
  with free_live [OF assms] show False by simp
qed

lemma free_after_alloc:
  assumes "inv m" and "alloc m n = Inr (s, m')"
  shows "\<exists>m''. free m' s = Inr m'' \<and> live m'' = live m"
proof -
  have "live m' = (live m)(s \<mapsto> n)" "live m s = None" using alloc_live [OF assms] by auto
  moreover from this free_ok [OF alloc_inv [OF assms], of s] obtain m'' where "free m' s = Inr m''"
    by (auto simp: is_ok_iff)
  moreover from this have "live m'' = (live m')(s := None)"
    using free_live [OF alloc_inv [OF assms]] by blast
  ultimately show ?thesis by (auto intro!: ext)
qed

lemma dispatch_inv:
  assumes "inv m" and "memory_dispatch alloc free r m = Inr (x, m')"
  shows "inv m'"
proof (cases "rq_ah r = 0x48")
  case True
  with assms(2) obtain s n where "alloc m n = Inr (s, m')"
    by (auto simp: memory_dispatch_def bindE_eq_Inr)
  with assms(1) show ?thesis by (rule alloc_inv)
next
  case False
  with assms(2) obtain s where "free m s = Inr m'"
    by (auto simp: memory_dispatch_def bindE_eq_Inr split: if_split_asm)
  with assms(1) show ?thesis by (rule free_inv)
qed

lemma serve_inv: "inv m \<Longrightarrow> inv (serve (memory_dispatch alloc free) m rs)"
proof (induction rs arbitrary: m)
  case (Cons r rs)
  show ?case
  proof (cases "memory_dispatch alloc free r m")
    case (Inl e)
    with Cons show ?thesis by simp
  next
    case (Inr y)
    then obtain x m' where "memory_dispatch alloc free r m = Inr (x, m')" by (cases y) simp
    with Cons.IH dispatch_inv [OF Cons.prems] show ?thesis by simp
  qed
qed simp

lemma serve_separate: "inv m \<Longrightarrow> separate (live (serve (memory_dispatch alloc free) m rs))"
  using serve_inv live_separate by blast

end

section \<open>The invariant of the block list\<close>

fun tiled :: "nat \<Rightarrow> pool \<Rightarrow> bool" where
  "tiled s [] = True"
| "tiled s (b # bs) = (unat (blk_start b) = s \<and> blk_size b \<noteq> 0 \<and> tiled (s + unat (blk_size b)) bs)"

fun coalesced :: "pool \<Rightarrow> bool" where
  "coalesced (a # b # bs) = (\<not> (blk_free a \<and> blk_free b) \<and> coalesced (b # bs))"
| "coalesced bs = True"

fun block_total :: "pool \<Rightarrow> nat" where
  "block_total [] = 0"
| "block_total (b # bs) = unat (blk_size b) + block_total bs"

definition pool_wf :: "pool \<Rightarrow> bool" where
  "pool_wf bs \<longleftrightarrow> tiled 0 bs \<and> coalesced bs \<and> block_total bs \<le> 65535"

fun live_extents :: "pool \<Rightarrow> u16 \<Rightarrow> u16 option" where
  "live_extents [] = Map.empty"
| "live_extents (b # bs) =
     (if blk_free b then live_extents bs else (live_extents bs)(blk_start b \<mapsto> blk_size b))"

lemma live_bounds:
  "live_extents bs t = Some k \<Longrightarrow> tiled s bs \<Longrightarrow>
     s \<le> unat t \<and> unat t + unat k \<le> s + block_total bs \<and> k \<noteq> 0"
  by (induction bs arbitrary: s) (fastforce split: if_split_asm)+

lemma live_before: "tiled s bs \<Longrightarrow> unat t < s \<Longrightarrow> live_extents bs t = None"
  using live_bounds by (metis not_le not_None_eq)

lemma live_separate_tiled: "tiled s bs \<Longrightarrow> separate (live_extents bs)"
proof (induction bs arbitrary: s)
  case Nil
  then show ?case by (simp add: separate_def)
next
  case (Cons b bs)
  then have "tiled (s + unat (blk_size b)) bs" by simp
  then have IH: "separate (live_extents bs)" by (rule Cons.IH)
  show ?case
    unfolding separate_def
  proof (intro allI impI)
    fix p n q k
    assume p: "live_extents (b # bs) p = Some n" and q: "live_extents (b # bs) q = Some k" and "p \<noteq> q"
    have rest: "unat (blk_start b) + unat (blk_size b) \<le> unat t" if "live_extents bs t = Some j" for t j
      using live_bounds [OF that, of "s + unat (blk_size b)"] Cons.prems by simp
    show "unat p + unat n \<le> unat q \<or> unat q + unat k \<le> unat p"
      using p q \<open>p \<noteq> q\<close> IH rest by (auto simp: separate_def split: if_split_asm)
  qed
qed

lemma unat_add_bound: "unat (a :: u16) + unat b \<le> 65535 \<Longrightarrow> unat (a + b) = unat a + unat b"
  by (simp add: unat_word_ariths)

lemma unat_sub_bound: "(b :: u16) \<le> a \<Longrightarrow> unat (a - b) = unat a - unat b"
  by (simp add: unat_sub)

subsection \<open>Allocation\<close>

lemma allocate_in_start:
  "allocate_in bs n = Some (seg, bs') \<Longrightarrow> tiled s bs \<Longrightarrow> s \<le> unat seg"
proof (induction bs arbitrary: s bs')
  case (Cons b bs)
  show ?case
  proof (cases "\<not> blk_free b \<or> blk_size b < n")
    case True
    with Cons.prems(1) obtain cs where "allocate_in bs n = Some (seg, cs)" by auto
    from Cons.IH [OF this, of "s + unat (blk_size b)"] Cons.prems(2) show ?thesis by simp
  qed (use Cons.prems in \<open>auto split: if_split_asm\<close>)
qed simp

lemma allocate_in_wf:
  "allocate_in bs n = Some (seg, bs') \<Longrightarrow> tiled s bs \<Longrightarrow> s + block_total bs \<le> 65535 \<Longrightarrow> n \<noteq> 0 \<Longrightarrow>
     tiled s bs' \<and> block_total bs' = block_total bs \<and> live_extents bs seg = None \<and>
     live_extents bs' = (live_extents bs)(seg \<mapsto> n)"
proof (induction bs arbitrary: s bs')
  case Nil
  then show ?case by simp
next
  case (Cons b bs)
  show ?case
  proof (cases "\<not> blk_free b \<or> blk_size b < n")
    case True
    with Cons.prems(1) obtain cs where cs: "allocate_in bs n = Some (seg, cs)" "bs' = b # cs" by auto
    have IH: "tiled (s + unat (blk_size b)) cs" "block_total cs = block_total bs"
      "live_extents bs seg = None" "live_extents cs = (live_extents bs)(seg \<mapsto> n)"
      using Cons.IH [OF cs(1)] Cons.prems by auto
    have "s + unat (blk_size b) \<le> unat seg"
      using allocate_in_start [OF cs(1)] Cons.prems(2) by auto
    moreover have "0 < unat (blk_size b)" using Cons.prems(2) by (simp add: unat_gt_0)
    ultimately have "seg \<noteq> blk_start b" using Cons.prems(2) by auto
    with IH Cons.prems(2) show ?thesis by (auto simp: cs(2) fun_upd_twist)
  next
    case False
    then have free: "blk_free b" and le: "n \<le> blk_size b" by auto
    have none: "live_extents bs (blk_start b) = None"
      using Cons.prems(2) by (intro live_before [of "s + unat (blk_size b)"]) (auto simp: unat_gt_0)
    show ?thesis
    proof (cases "blk_size b = n")
      case True
      with Cons.prems free none show ?thesis by auto
    next
      case ne: False
      have "unat n < unat (blk_size b)" using le ne by (simp add: word_less_nat_alt [symmetric])
      moreover have "unat (blk_size b - n) = unat (blk_size b) - unat n" using le by (rule unat_sub_bound)
      moreover have "unat (blk_start b + n) = unat (blk_start b) + unat n"
        using Cons.prems calculation(1) by (intro unat_add_bound) auto
      moreover have "seg = blk_start b" "bs' = b\<lparr>blk_size := n, blk_free := False\<rparr> #
          \<lparr>blk_start = blk_start b + n, blk_size = blk_size b - n, blk_free = True\<rparr> # bs"
        using Cons.prems(1) False ne by (auto split: if_split_asm)
      moreover have "blk_size b - n \<noteq> 0" using ne by simp
      ultimately show ?thesis
        using Cons.prems(2,4) free none by auto
    qed
  qed
qed

lemma allocate_in_head:
  "allocate_in bs n = Some (seg, b' # bs') \<Longrightarrow> blk_free b' \<Longrightarrow> blk_free (hd bs)"
  by (cases bs) (auto split: if_split_asm)

lemma allocate_in_Cons: "allocate_in bs n = Some (seg, bs') \<Longrightarrow> bs \<noteq> [] \<and> bs' \<noteq> []"
  by (cases bs) (auto split: if_split_asm)

lemma coalesced_Cons: "coalesced (b # bs) \<longleftrightarrow> coalesced bs \<and> (bs \<noteq> [] \<longrightarrow> \<not> (blk_free b \<and> blk_free (hd bs)))"
  by (cases bs) auto

lemma allocate_in_coalesced:
  "allocate_in bs n = Some (seg, bs') \<Longrightarrow> coalesced bs \<Longrightarrow> coalesced bs'"
proof (induction bs arbitrary: bs')
  case (Cons b bs)
  show ?case
  proof (cases "\<not> blk_free b \<or> blk_size b < n")
    case True
    with Cons.prems(1) obtain cs where cs: "allocate_in bs n = Some (seg, cs)" "bs' = b # cs" by auto
    with Cons have "coalesced cs" by (simp add: coalesced_Cons)
    with cs Cons.prems(2) allocate_in_head [of bs n seg "hd cs" "tl cs"] allocate_in_Cons [OF cs(1)]
    show ?thesis by (auto simp: coalesced_Cons)
  next
    case False
    with Cons.prems show ?thesis by (auto simp: coalesced_Cons split: if_split_asm)
  qed
qed simp

subsection \<open>Release\<close>

lemma coalesce_wf:
  "tiled s bs \<Longrightarrow> s + block_total bs \<le> 65535 \<Longrightarrow>
     tiled s (coalesce bs) \<and> block_total (coalesce bs) = block_total bs \<and>
     live_extents (coalesce bs) = live_extents bs"
proof (induction bs arbitrary: s rule: coalesce.induct)
  case (3 a b bs)
  show ?case
  proof (cases "blk_free a \<and> blk_free b")
    case True
    have sum: "unat (blk_size a + blk_size b) = unat (blk_size a) + unat (blk_size b)"
      using "3.prems" by (intro unat_add_bound) auto
    moreover have "blk_size a + blk_size b \<noteq> 0"
      using sum "3.prems"(1) by (metis add_is_0 tiled.simps(2) unat_eq_0)
    ultimately have "tiled s (a\<lparr>blk_size := blk_size a + blk_size b\<rparr> # bs)"
      "s + block_total (a\<lparr>blk_size := blk_size a + blk_size b\<rparr> # bs) \<le> 65535"
      using "3.prems" by (auto simp: add.assoc)
    with "3.IH"(1) [OF True] True sum show ?thesis by simp
  next
    case False
    with "3.IH"(2) [OF False, of "s + unat (blk_size a)"] "3.prems" show ?thesis by auto
  qed
qed simp_all

lemma coalesce_nonempty [simp]: "coalesce bs = [] \<longleftrightarrow> bs = []"
  by (induction bs rule: coalesce.induct) auto

lemma coalesce_head: "bs \<noteq> [] \<Longrightarrow> blk_free (hd (coalesce bs)) = blk_free (hd bs)"
  by (induction bs rule: coalesce.induct) auto

lemma coalesced_coalesce: "coalesced (coalesce bs)"
proof (induction bs rule: coalesce.induct)
  case (3 a b bs)
  then show ?case
    using coalesce_head [of "b # bs"] by (auto simp: coalesced_Cons)
qed simp_all

lemma coalesce_id: "coalesced bs \<Longrightarrow> coalesce bs = bs"
  by (induction bs rule: coalesce.induct) auto

lemma mark_free_wf:
  "tiled s bs \<Longrightarrow> tiled s (mark_free t bs) \<and> block_total (mark_free t bs) = block_total bs"
  by (induction bs arbitrary: s) auto

lemma mark_free_live:
  "tiled s bs \<Longrightarrow> live_extents bs t \<noteq> None \<Longrightarrow> live_extents (mark_free t bs) = (live_extents bs)(t := None)"
proof (induction bs arbitrary: s)
  case (Cons b bs)
  show ?case
  proof (cases "blk_start b = t")
    case True
    have "live_extents bs t = None"
      using Cons.prems(1) True by (intro live_before [of "s + unat (blk_size b)"]) (auto simp: unat_gt_0)
    with Cons.prems True show ?thesis by (auto simp: fun_upd_idem)
  next
    case False
    with Cons.prems have "live_extents (mark_free t bs) = (live_extents bs)(t := None)"
      by (intro Cons.IH [of "s + unat (blk_size b)"]) (auto split: if_split_asm)
    with False show ?thesis by (auto simp: fun_upd_twist)
  qed
qed simp

lemma find_start:
  "tiled s bs \<Longrightarrow> (\<exists>b. find (\<lambda>b. blk_start b = t) bs = Some b \<and> \<not> blk_free b) \<longleftrightarrow> live_extents bs t \<noteq> None"
proof (induction bs arbitrary: s)
  case (Cons b bs)
  have "live_extents bs (blk_start b) = None"
    using Cons.prems by (intro live_before [of "s + unat (blk_size b)"]) (auto simp: unat_gt_0)
  with Cons show ?case by auto
qed simp

lemma release_Inr:
  "tiled s bs \<Longrightarrow> release bs t = Inr bs' \<longleftrightarrow> live_extents bs t \<noteq> None \<and> bs' = coalesce (mark_free t bs)"
  using find_start [of s bs t] by (auto simp: release_def split: option.split)

lemma release_wf:
  assumes "release bs t = Inr bs'" and "pool_wf bs"
  shows "pool_wf bs' \<and> block_total bs' = block_total bs \<and> live_extents bs t \<noteq> None \<and>
    live_extents bs' = (live_extents bs)(t := None)"
proof -
  have t: "tiled 0 bs" and total: "block_total bs \<le> 65535" using assms(2) by (auto simp: pool_wf_def)
  with assms(1) have bs': "bs' = coalesce (mark_free t bs)" and l: "live_extents bs t \<noteq> None"
    by (auto simp: release_Inr)
  show ?thesis
    using mark_free_wf [OF t, of t] mark_free_live [OF t l] coalesce_wf [of 0 "mark_free t bs"]
      coalesced_coalesce total l
    by (simp add: bs' pool_wf_def)
qed

lemma allocate_wf:
  assumes "allocate bs n = Inr (s, bs')" and "pool_wf bs"
  shows "pool_wf bs' \<and> block_total bs' = block_total bs \<and> live_extents bs s = None \<and>
    live_extents bs' = (live_extents bs)(s \<mapsto> n)"
proof -
  from assms(1) have "n \<noteq> 0" and a: "allocate_in bs n = Some (s, bs')"
    by (auto simp: allocate_def split: if_split_asm option.split_asm)
  with assms(2) allocate_in_wf [OF a, of 0] allocate_in_coalesced [OF a] show ?thesis
    by (simp add: pool_wf_def)
qed

interpretation pool: paragraph_allocator allocate release live_extents pool_wf
proof
  fix bs :: pool and n s bs'
  assume wf: "pool_wf bs"
  show "allocate bs n = Inr (s, bs') \<Longrightarrow> pool_wf bs'" using allocate_wf wf by blast
  show "allocate bs n = Inr (s, bs') \<Longrightarrow>
      live_extents bs s = None \<and> live_extents bs' = (live_extents bs)(s \<mapsto> n)"
    using allocate_wf wf by blast
  show "release bs s = Inr bs' \<Longrightarrow> pool_wf bs'" using release_wf wf by blast
  show "release bs s = Inr bs' \<Longrightarrow>
      live_extents bs s \<noteq> None \<and> live_extents bs' = (live_extents bs)(s := None)"
    using release_wf wf by blast
  show "live_extents bs s \<noteq> None \<Longrightarrow> is_ok (release bs s)"
    using wf by (auto simp: is_ok_iff pool_wf_def release_Inr)
  show "separate (live_extents bs)"
    using wf by (auto simp: pool_wf_def intro: live_separate_tiled)
qed

subsection \<open>First fit loses nothing\<close>

lemma allocate_in_None: "allocate_in bs n = None \<longleftrightarrow> (\<forall>b \<in> set bs. blk_free b \<longrightarrow> blk_size b < n)"
  by (induction bs) auto

lemma largest_from_less: "largest_from m bs < n \<longleftrightarrow> m < n \<and> (\<forall>b \<in> set bs. blk_free b \<longrightarrow> blk_size b < n)"
  by (induction bs arbitrary: m) auto

lemma release_allocate_in:
  "allocate_in bs n = Some (seg, bs') \<Longrightarrow> tiled s bs \<Longrightarrow> coalesced bs \<Longrightarrow>
     coalesce (mark_free seg bs') = bs \<and> mark_free seg bs' \<noteq> [] \<and>
     blk_free (hd (mark_free seg bs')) = blk_free (hd bs)"
proof (induction bs arbitrary: s bs')
  case (Cons b bs)
  show ?case
  proof (cases "\<not> blk_free b \<or> blk_size b < n")
    case True
    with Cons.prems(1) obtain cs where cs: "allocate_in bs n = Some (seg, cs)" "bs' = b # cs" by auto
    have "s + unat (blk_size b) \<le> unat seg"
      using allocate_in_start [OF cs(1)] Cons.prems(2) by auto
    moreover have "0 < unat (blk_size b)" using Cons.prems(2) by (simp add: unat_gt_0)
    ultimately have seg: "seg \<noteq> blk_start b" using Cons.prems(2) by auto
    have IH: "coalesce (mark_free seg cs) = bs" "mark_free seg cs \<noteq> []"
      "blk_free (hd (mark_free seg cs)) = blk_free (hd bs)"
      using Cons.IH [OF cs(1)] Cons.prems by (auto simp: coalesced_Cons)
    have "\<not> (blk_free b \<and> blk_free (hd (mark_free seg cs)))"
      using IH Cons.prems(3) allocate_in_Cons [OF cs(1)] by (simp add: coalesced_Cons)
    with IH have "coalesce (b # mark_free seg cs) = b # bs"
      by (cases "mark_free seg cs") auto
    with seg cs(2) show ?thesis by auto
  next
    case False
    then have "b\<lparr>blk_free := True\<rparr> = b" by (cases b) simp
    then have "coalesce (b\<lparr>blk_free := True\<rparr> # bs) = b # bs"
      using coalesce_id [OF Cons.prems(3)] by simp
    with False Cons.prems show ?thesis by (auto split: if_split_asm)
  qed
qed simp

end
