(* ===== verification/DosServices.thy ===== *)
theory DosServices
  imports ConventionalMemory
begin

text \<open>
  The remaining INT 21h services that touch no host file: console and termination
  (\<open>int21_dispatcher\<close>), clock (\<open>int21_clock_dispatcher\<close>) and current directory (\<open>current_directory\<close>,
  \<open>int21_directory\<close>). The console service changes its state before it can fail, so its result is a
  pair of the outcome and the state it leaves.
\<close>

section \<open>Console and termination\<close>

record dos_process_state =
  dp_console_output :: "byte list"
  dp_exit_code :: "byte option"

datatype dos_error = StringOutsideMemory | StringNotTerminated | UnsupportedFunction

definition dollar :: byte where "dollar = 0x24"

text \<open>The loop of function 09h; \<open>rest\<close> is the memory from the current offset on.\<close>

fun print_string :: "byte list \<Rightarrow> byte list \<Rightarrow> (dos_error, unit) res \<times> byte list" where
  "print_string [] out = (Inl (Fail StringNotTerminated), out)"
| "print_string (c # rest) out =
     (if c = dollar then (Inr (), out) else print_string rest (out @ [c]))"

definition int21_dispatch ::
  "int21_request \<Rightarrow> byte list \<Rightarrow> dos_process_state \<Rightarrow> (dos_error, unit) res \<times> dos_process_state" where
  "int21_dispatch request memory s =
     (if rq_ah request = 0x02 then
        (Inr (), s\<lparr>dp_console_output := dp_console_output s @ [rq_dl request]\<rparr>)
      else if rq_ah request = 0x09 then
        (if rq_string_offset request \<ge> length memory then (Inl (Fail StringOutsideMemory), s)
         else (case print_string (drop (rq_string_offset request) memory) (dp_console_output s) of
                 (r, out) \<Rightarrow> (r, s\<lparr>dp_console_output := out\<rparr>)))
      else if rq_ah request = 0x4c then (Inr (), s\<lparr>dp_exit_code := Some (rq_al request)\<rparr>)
      else (Inl (Fail UnsupportedFunction), s))"

lemma print_string_exact:
  "print_string cs out =
     (if dollar \<in> set cs then (Inr (), out @ takeWhile (\<lambda>c. c \<noteq> dollar) cs)
      else (Inl (Fail StringNotTerminated), out @ cs))"
  by (induction cs arbitrary: out) auto

section \<open>Clock\<close>

record dos_clock =
  ck_year :: u16
  ck_month :: byte
  ck_day :: byte
  ck_weekday :: byte
  ck_hour :: byte
  ck_minute :: byte
  ck_second :: byte
  ck_hundredths :: byte

datatype clock_error = UnsupportedClockFunction

definition int21_clock_dispatch :: "int21_request \<Rightarrow> dos_clock \<Rightarrow> (clock_error, dos_clock option) res" where
  "int21_clock_dispatch request clock =
     (if rq_ah request = 0x2a \<or> rq_ah request = 0x2c then Inr (Some clock)
      else Inl (Fail UnsupportedClockFunction))"

section \<open>Current directory\<close>

text \<open>
  The drive's path resolution and the host's directory test are parameters: \<open>resolve\<close> is
  \<open>virtual_drive::resolve\<close> and \<open>is_directory\<close> is \<open>std::filesystem::is_directory\<close>, which says
  \<open>False\<close> where the call reports an error.
\<close>

datatype 'e directory_error = ResolveFailed 'e | DirectoryMissing

definition initial_path :: string where
  "initial_path = [CHR ''C'', CHR '':'', CHR 0x5C]"

definition change_to ::
  "(string \<Rightarrow> ('e, 'p) res) \<Rightarrow> ('p \<Rightarrow> bool) \<Rightarrow> string \<Rightarrow> string \<Rightarrow> ('e directory_error, string) res" where
  "change_to resolve is_directory dos_path current =
     bindE (wrapE ResolveFailed (resolve dos_path)) (\<lambda>resolved.
       if \<not> is_directory resolved then Inl (Fail DirectoryMissing) else Inr dos_path)"

datatype 'e directory_service_error = DirectoryFailed "'e directory_error" | UnsupportedDirectoryFunction

definition int21_directory_dispatch ::
  "(string \<Rightarrow> ('e, 'p) res) \<Rightarrow> ('p \<Rightarrow> bool) \<Rightarrow> byte \<Rightarrow> string \<Rightarrow> string \<Rightarrow>
     ('e directory_service_error, string \<times> string) res" where
  "int21_directory_dispatch resolve is_directory ah dos_path current =
     (if ah = 0x3b then
        bindE (wrapE DirectoryFailed (change_to resolve is_directory dos_path current)) (\<lambda>path.
          Inr (path, path))
      else if ah = 0x47 then Inr (current, current)
      else Inl (Fail UnsupportedDirectoryFunction))"

text \<open>
  The directory a program can be in: the root before the first change, and afterwards only paths
  that resolved to a directory when they were entered.
\<close>

fun run_directory ::
  "(string \<Rightarrow> ('e, 'p) res) \<Rightarrow> ('p \<Rightarrow> bool) \<Rightarrow> string \<Rightarrow> (byte \<times> string) list \<Rightarrow> string" where
  "run_directory resolve is_directory current [] = current"
| "run_directory resolve is_directory current ((ah, path) # requests) =
     run_directory resolve is_directory
       (case int21_directory_dispatch resolve is_directory ah path current of
          Inr (_, current') \<Rightarrow> current' | Inl _ \<Rightarrow> current) requests"

definition entered ::
  "(string \<Rightarrow> ('e, 'p) res) \<Rightarrow> ('p \<Rightarrow> bool) \<Rightarrow> string \<Rightarrow> bool" where
  "entered resolve is_directory path \<longleftrightarrow> (case resolve path of Inr p \<Rightarrow> is_directory p | Inl _ \<Rightarrow> False)"

lemma int21_directory_dispatch_entered:
  "int21_directory_dispatch resolve is_directory ah path current = Inr (r, current') \<Longrightarrow>
     r = current' \<and> (current' = current \<or> current' = path \<and> entered resolve is_directory path)"
  by (auto simp: int21_directory_dispatch_def change_to_def bindE_eq_Inr entered_def split: if_split_asm)

lemma run_directory_entered:
  "run_directory resolve is_directory current requests = current \<or>
     entered resolve is_directory (run_directory resolve is_directory current requests)"
proof (induction requests arbitrary: current)
  case (Cons request requests)
  obtain ah path where request: "request = (ah, path)" by fastforce
  show ?case
  proof (cases "int21_directory_dispatch resolve is_directory ah path current")
    case (Inl e)
    with Cons.IH [of current] request show ?thesis by simp
  next
    case (Inr x)
    obtain r current' where x: "x = (r, current')" by fastforce
    with Inr Cons.IH [of current'] int21_directory_dispatch_entered [of resolve is_directory ah path current]
    show ?thesis by (auto simp: request)
  qed
qed simp

end
