(* ===== verification/BiosServices.thy ===== *)
theory BiosServices
  imports Prelude
begin

text \<open>
  The BIOS side of \<open>runtime/\<close>: the tick timer with INT 1Ah (\<open>bios_timer\<close>), the text and mode
  services of INT 10h (\<open>int10\<close>), sector reads of INT 13h (\<open>int13\<close>), the keyboard of INT 16h
  (\<open>int16\<close>), the PC speaker (\<open>pc_speaker\<close>) and the Mode 13h framebuffer (\<open>mode13\<close>). Each is a
  record of the class's fields and one function per operation.
\<close>

section \<open>The tick timer\<close>

record bios_timer =
  tm_ticks :: u32
  tm_midnight_rollovers :: byte

definition ticks_per_day :: nat where
  "ticks_per_day = 1573040"

definition bios_timer_init :: "u32 \<Rightarrow> bios_timer" where
  "bios_timer_init ticks =
     \<lparr>tm_ticks = word_of_nat (unat ticks mod ticks_per_day), tm_midnight_rollovers = 0\<rparr>"

definition advance :: "u32 \<Rightarrow> bios_timer \<Rightarrow> bios_timer" where
  "advance ticks t =
     (let total = unat (tm_ticks t) + unat ticks;
          days = total div ticks_per_day;
          available = 255 - unat (tm_midnight_rollovers t)
      in \<lparr>tm_ticks = word_of_nat (total mod ticks_per_day),
          tm_midnight_rollovers = word_of_nat (unat (tm_midnight_rollovers t) + min days available)\<rparr>)"

definition take_midnight_rollovers :: "bios_timer \<Rightarrow> byte \<times> bios_timer" where
  "take_midnight_rollovers t = (tm_midnight_rollovers t, t\<lparr>tm_midnight_rollovers := 0\<rparr>)"

datatype timer_error = UnsupportedTimerFunction

record int1a_result =
  r1a_ticks :: u32
  r1a_midnight_rollovers :: byte

definition int1a_dispatch :: "byte \<Rightarrow> bios_timer \<Rightarrow> (timer_error, int1a_result \<times> bios_timer) res" where
  "int1a_dispatch ah t =
     (if ah \<noteq> 0 then Inl (Fail UnsupportedTimerFunction)
      else (let (rollovers, t') = take_midnight_rollovers t
            in Inr (\<lparr>r1a_ticks = tm_ticks t, r1a_midnight_rollovers = rollovers\<rparr>, t')))"

text \<open>The timer as a count of ticks since it was last read at midnight: the specification.\<close>

definition timer_of :: "nat \<Rightarrow> bios_timer" where
  "timer_of elapsed =
     \<lparr>tm_ticks = word_of_nat (elapsed mod ticks_per_day),
      tm_midnight_rollovers = word_of_nat (min 255 (elapsed div ticks_per_day))\<rparr>"

lemma unat_ticks: "unat (word_of_nat (n mod ticks_per_day) :: u32) = n mod ticks_per_day"
proof -
  have "n mod ticks_per_day < ticks_per_day" by (rule mod_less_divisor) (simp add: ticks_per_day_def)
  then show ?thesis by (simp add: unat_of_nat ticks_per_day_def)
qed

lemma unat_rollovers: "n \<le> 255 \<Longrightarrow> unat (word_of_nat n :: byte) = n"
  by (simp add: unat_of_nat)

lemma mod_div_carry:
  fixes d :: nat
  assumes d: "0 < d"
  shows "(a mod d + b) div d + a div d = (a + b) div d"
proof -
  have "a + b = (a mod d + b) + (a div d) * d" by simp
  then have "(a + b) div d = ((a mod d + b) + (a div d) * d) div d" by argo
  also have "\<dots> = a div d + (a mod d + b) div d" by (rule div_mult_self1) (use d in simp)
  finally show ?thesis by simp
qed

lemma advance_timer_of: "advance ticks (timer_of elapsed) = timer_of (elapsed + unat ticks)"
proof -
  let ?d = ticks_per_day
  have d: "0 < ?d" by (simp add: ticks_per_day_def)
  have "(elapsed mod ?d + unat ticks) mod ?d = (elapsed + unat ticks) mod ?d"
    by (simp add: mod_simps)
  moreover have "min 255 (elapsed div ?d) +
      min ((elapsed mod ?d + unat ticks) div ?d) (255 - min 255 (elapsed div ?d)) =
      min 255 ((elapsed + unat ticks) div ?d)"
    using mod_div_carry [OF d, of elapsed "unat ticks"] by auto
  ultimately show ?thesis
    by (simp add: advance_def timer_of_def unat_ticks unat_rollovers flip: of_nat_add)
qed

section \<open>INT 10h: text output and video modes\<close>

record int10_request =
  r10_ah :: byte
  r10_al :: byte
  r10_dh :: byte
  r10_dl :: byte

record text_video_state =
  tv_output :: "byte list"
  tv_row :: byte
  tv_column :: byte

datatype video_error = UnsupportedVideoFunction | UnsupportedModeFunction | UnsupportedVideoMode

definition newline :: byte where "newline = 0x0a"
definition carriage_return :: byte where "carriage_return = 0x0d"

definition teletype :: "byte \<Rightarrow> text_video_state \<Rightarrow> text_video_state" where
  "teletype c s =
     (let s1 = s\<lparr>tv_output := tv_output s @ [c]\<rparr>
      in if c = newline \<or> c = carriage_return then
           (if c = newline then s1\<lparr>tv_row := tv_row s + 1\<rparr> else s1)\<lparr>tv_column := 0\<rparr>
         else s1\<lparr>tv_column := tv_column s + 1\<rparr>)"

definition int10_dispatch ::
  "int10_request \<Rightarrow> text_video_state \<Rightarrow> (video_error, text_video_state) res" where
  "int10_dispatch request s =
     (if r10_ah request = 0x02 then
        Inr (s\<lparr>tv_row := r10_dh request, tv_column := r10_dl request\<rparr>)
      else if r10_ah request = 0x0e then Inr (teletype (r10_al request) s)
      else Inl (Fail UnsupportedVideoFunction))"

datatype video_mode = text_80x25 | mode13h

definition int10_mode_dispatch :: "int10_request \<Rightarrow> video_mode \<Rightarrow> (video_error, video_mode) res" where
  "int10_mode_dispatch request active =
     (if r10_ah request \<noteq> 0 then Inl (Fail UnsupportedModeFunction)
      else if r10_al request = 0x03 then Inr text_80x25
      else if r10_al request = 0x13 then Inr mode13h
      else Inl (Fail UnsupportedVideoMode))"

text \<open>Where the cursor is after a text, by lines: the specification.\<close>

definition last_line :: "byte list \<Rightarrow> byte list" where
  "last_line cs = takeWhile (\<lambda>c. c \<noteq> newline \<and> c \<noteq> carriage_return) (rev cs)"

definition print_text :: "byte list \<Rightarrow> text_video_state \<Rightarrow> text_video_state" where
  "print_text cs s = foldl (\<lambda>s c. teletype c s) s cs"

definition breaks_line :: "byte list \<Rightarrow> bool" where
  "breaks_line cs \<longleftrightarrow> newline \<in> set cs \<or> carriage_return \<in> set cs"

lemma print_text_exact:
  "print_text cs s = \<lparr>tv_output = tv_output s @ cs,
     tv_row = tv_row s + word_of_nat (length (filter ((=) newline) cs)),
     tv_column = (if breaks_line cs then 0 else tv_column s) + word_of_nat (length (last_line cs))\<rparr>"
proof (induction cs rule: rev_induct)
  case Nil
  then show ?case by (simp add: print_text_def last_line_def breaks_line_def)
next
  case (snoc c cs)
  have ne: "newline \<noteq> carriage_return" by (simp add: newline_def carriage_return_def)
  have "print_text (cs @ [c]) s = teletype c (print_text cs s)" by (simp add: print_text_def)
  then show ?case
    using ne by (auto simp: snoc teletype_def last_line_def breaks_line_def Let_def)
qed

section \<open>INT 13h: virtual disk\<close>

record disk_geometry =
  geo_cylinders :: u16
  geo_heads :: byte
  geo_sectors_per_track :: byte

record virtual_disk =
  disk_geometry :: disk_geometry
  disk_bytes :: "byte list"

record int13_request =
  r13_ah :: byte
  r13_al :: byte
  r13_ch :: byte
  r13_cl :: byte
  r13_dh :: byte
  r13_dl :: byte

datatype disk_error = UnsupportedDiskFunction | WrongDrive | OutsideGeometry | ExceedsDiskImage

definition request_sector :: "int13_request \<Rightarrow> byte" where
  "request_sector r = r13_cl r AND 0x3f"

definition request_cylinder :: "int13_request \<Rightarrow> u16" where
  "request_cylinder r = ucast (r13_ch r) OR push_bit 2 (ucast (r13_cl r AND 0xc0))"

definition outside_geometry :: "int13_request \<Rightarrow> disk_geometry \<Rightarrow> bool" where
  "outside_geometry r g \<longleftrightarrow> r13_al r = 0 \<or> request_sector r = 0 \<or>
     request_cylinder r \<ge> geo_cylinders g \<or> r13_dh r \<ge> geo_heads g \<or>
     request_sector r > geo_sectors_per_track g"

definition lba :: "nat \<Rightarrow> nat \<Rightarrow> nat \<Rightarrow> disk_geometry \<Rightarrow> nat" where
  "lba cylinder head sector g =
     (cylinder * unat (geo_heads g) + head) * unat (geo_sectors_per_track g) + (sector - 1)"

definition request_lba :: "int13_request \<Rightarrow> disk_geometry \<Rightarrow> nat" where
  "request_lba r g = lba (unat (request_cylinder r)) (unat (r13_dh r)) (unat (request_sector r)) g"

definition int13_dispatch :: "int13_request \<Rightarrow> virtual_disk \<Rightarrow> (disk_error, byte list \<times> byte) res" where
  "int13_dispatch r disk =
     (if r13_ah r \<noteq> 0x02 then Inl (Fail UnsupportedDiskFunction)
      else if r13_dl r \<noteq> 0x80 then Inl (Fail WrongDrive)
      else if outside_geometry r (disk_geometry disk) then Inl (Fail OutsideGeometry)
      else (let offset = request_lba r (disk_geometry disk) * 512;
                len = unat (r13_al r) * 512
            in if offset > length (disk_bytes disk) \<or> len > length (disk_bytes disk) - offset
               then Inl (Fail ExceedsDiskImage)
               else Inr (take len (drop offset (disk_bytes disk)), r13_al r)))"

text \<open>CHS addresses of a geometry are numbered without gaps or collisions.\<close>

definition in_geometry :: "nat \<Rightarrow> nat \<Rightarrow> nat \<Rightarrow> disk_geometry \<Rightarrow> bool" where
  "in_geometry c h s g \<longleftrightarrow> c < unat (geo_cylinders g) \<and> h < unat (geo_heads g) \<and>
     1 \<le> s \<and> s \<le> unat (geo_sectors_per_track g)"

definition sector_count :: "disk_geometry \<Rightarrow> nat" where
  "sector_count g = unat (geo_cylinders g) * unat (geo_heads g) * unat (geo_sectors_per_track g)"

lemma lba_inverse:
  assumes "in_geometry c h s g"
  shows "lba c h s g div unat (geo_sectors_per_track g) = c * unat (geo_heads g) + h"
    and "lba c h s g mod unat (geo_sectors_per_track g) = s - 1"
    and "(c * unat (geo_heads g) + h) div unat (geo_heads g) = c"
    and "(c * unat (geo_heads g) + h) mod unat (geo_heads g) = h"
proof -
  from assms obtain t where "s = Suc t" "t < unat (geo_sectors_per_track g)" "h < unat (geo_heads g)"
    by (cases s) (auto simp: in_geometry_def)
  then show "lba c h s g div unat (geo_sectors_per_track g) = c * unat (geo_heads g) + h"
    "lba c h s g mod unat (geo_sectors_per_track g) = s - 1"
    "(c * unat (geo_heads g) + h) div unat (geo_heads g) = c"
    "(c * unat (geo_heads g) + h) mod unat (geo_heads g) = h"
    by (simp_all add: lba_def)
qed

lemma mult_add_less: "a < m \<Longrightarrow> b < n \<Longrightarrow> a * n + b < m * (n :: nat)"
proof -
  assume "a < m" "b < n"
  then have "a * n + b < Suc a * n" by simp
  also have "\<dots> \<le> m * n" using \<open>a < m\<close> by (intro mult_le_mono1) simp
  finally show ?thesis .
qed

lemma lba_less: "in_geometry c h s g \<Longrightarrow> lba c h s g < sector_count g"
  unfolding lba_def sector_count_def in_geometry_def by (intro mult_add_less) auto

section \<open>INT 16h: keyboard\<close>

record keyboard_key =
  key_ascii :: byte
  key_scan_code :: byte

record int16_result =
  r16_key :: "keyboard_key option"
  r16_available :: bool

datatype keyboard_error = QueueEmpty | UnsupportedKeyboardFunction

definition int16_dispatch ::
  "byte \<Rightarrow> keyboard_key list \<Rightarrow> (keyboard_error, int16_result \<times> keyboard_key list) res" where
  "int16_dispatch ah queue =
     (if ah = 0x00 then
        (case queue of
           [] \<Rightarrow> Inl (Fail QueueEmpty)
         | key # rest \<Rightarrow> Inr (\<lparr>r16_key = Some key, r16_available = True\<rparr>, rest))
      else if ah = 0x01 then
        (case queue of
           [] \<Rightarrow> Inr (\<lparr>r16_key = None, r16_available = False\<rparr>, queue)
         | key # _ \<Rightarrow> Inr (\<lparr>r16_key = Some key, r16_available = True\<rparr>, queue))
      else Inl (Fail UnsupportedKeyboardFunction))"

section \<open>The PC speaker\<close>

record pc_speaker =
  spk_active :: bool
  spk_frequency_hz :: u32

datatype speaker_error = FrequencyOutsidePit

definition pc_speaker_init :: pc_speaker where
  "pc_speaker_init = \<lparr>spk_active = False, spk_frequency_hz = 0\<rparr>"

definition speaker_start :: "u32 \<Rightarrow> pc_speaker \<Rightarrow> (speaker_error, pc_speaker) res" where
  "speaker_start frequency_hz s =
     (if frequency_hz < 19 \<or> frequency_hz > 1193182 then Inl (Fail FrequencyOutsidePit)
      else Inr (s\<lparr>spk_frequency_hz := frequency_hz, spk_active := True\<rparr>))"

definition speaker_stop :: "pc_speaker \<Rightarrow> pc_speaker" where
  "speaker_stop s = s\<lparr>spk_active := False, spk_frequency_hz := 0\<rparr>"

text \<open>A speaker that sounds has a frequency the PIT can make; a silent one has none.\<close>

definition speaker_wf :: "pc_speaker \<Rightarrow> bool" where
  "speaker_wf s \<longleftrightarrow> (if spk_active s then 19 \<le> spk_frequency_hz s \<and> spk_frequency_hz s \<le> 1193182
     else spk_frequency_hz s = 0)"

lemma speaker_operations_wf:
  "speaker_wf pc_speaker_init" "speaker_wf (speaker_stop s)"
  "speaker_start f s = Inr s' \<Longrightarrow> speaker_wf s'"
  by (auto simp: speaker_wf_def pc_speaker_init_def speaker_stop_def speaker_start_def not_less
      split: if_split_asm)

end
