(* ===== verification/KeyedStores.thy ===== *)
theory KeyedStores
  imports Prelude
begin

text \<open>
  Three classes that keep values under keys: the Mode 13h framebuffer (\<open>runtime/mode13\<close>), the DOS
  environment (\<open>runtime/dos_environment\<close>) and the plugin registry (\<open>plugins/plugin_registry\<close>). The
  first two let a value be overwritten and share the contract \<open>checked_store\<close>; the third refuses a
  key that is taken.
\<close>

section \<open>The overwrite contract\<close>

text \<open>
  Keys are compared by their canonical form, \<open>None\<close> for a key that is not accepted. A write succeeds
  exactly on an accepted key and an accepted value, is read back under every key with the same
  canonical form, and changes nothing else.
\<close>

fun store_all :: "('m \<Rightarrow> 'k \<Rightarrow> 'v \<Rightarrow> ('e, 'm) res) \<Rightarrow> 'm \<Rightarrow> ('k \<times> 'v) list \<Rightarrow> ('e, 'm) res" where
  "store_all st m [] = Inr m"
| "store_all st m ((k, v) # kvs) = bindE (st m k v) (\<lambda>m'. store_all st m' kvs)"

locale checked_store =
  fixes inv :: "'m \<Rightarrow> bool"
    and get :: "'m \<Rightarrow> 'k \<Rightarrow> 'v option"
    and st :: "'m \<Rightarrow> 'k \<Rightarrow> 'v \<Rightarrow> ('e, 'm) res"
    and canon :: "'k \<Rightarrow> 'c option"
    and good :: "'v \<Rightarrow> bool"
  assumes st_inv: "inv m \<Longrightarrow> st m k v = Inr m' \<Longrightarrow> inv m'"
    and st_ok: "inv m \<Longrightarrow> is_ok (st m k v) \<longleftrightarrow> canon k \<noteq> None \<and> good v"
    and get_same: "inv m \<Longrightarrow> st m k v = Inr m' \<Longrightarrow> canon j = canon k \<Longrightarrow> get m' j = Some v"
    and get_other: "inv m \<Longrightarrow> st m k v = Inr m' \<Longrightarrow> canon j \<noteq> canon k \<Longrightarrow> get m' j = get m j"
begin

lemma store_all_inv: "inv m \<Longrightarrow> store_all st m kvs = Inr m' \<Longrightarrow> inv m'"
proof (induction kvs arbitrary: m)
  case (Cons kv kvs)
  then obtain k v m1 where "kv = (k, v)" "st m k v = Inr m1" "store_all st m1 kvs = Inr m'"
    by (cases kv) (auto simp: bindE_eq_Inr)
  with Cons st_inv show ?case by blast
qed simp

text \<open>After a sequence of writes every key shows the last value written to it.\<close>

lemma store_all_get:
  "inv m \<Longrightarrow> store_all st m kvs = Inr m' \<Longrightarrow>
     get m' j = (case find (\<lambda>kv. canon (fst kv) = canon j) (rev kvs) of
                   Some kv \<Rightarrow> Some (snd kv) | None \<Rightarrow> get m j)"
proof (induction kvs arbitrary: m)
  case Nil
  then show ?case by simp
next
  case (Cons kv kvs)
  then obtain k v m1 where kv: "kv = (k, v)" and 1: "st m k v = Inr m1"
    and 2: "store_all st m1 kvs = Inr m'"
    by (cases kv) (auto simp: bindE_eq_Inr)
  have "get m1 j = (if canon k = canon j then Some v else get m j)"
    using get_same [OF Cons.prems(1) 1, of j] get_other [OF Cons.prems(1) 1, of j] by simp
  moreover have "find P (xs @ [x]) = (case find P xs of Some y \<Rightarrow> Some y | None \<Rightarrow> if P x then Some x else None)"
    for P and xs :: "('k \<times> 'v) list" and x
    by (induction xs) auto
  ultimately show ?case
    using Cons.IH [OF st_inv [OF Cons.prems(1) 1] 2] kv by (simp split: option.split)
qed

lemma store_all_ok:
  "inv m \<Longrightarrow> is_ok (store_all st m kvs) \<longleftrightarrow> (\<forall>(k, v) \<in> set kvs. canon k \<noteq> None \<and> good v)"
proof (induction kvs arbitrary: m)
  case Nil
  then show ?case by simp
next
  case (Cons kv kvs)
  obtain k v where kv: "kv = (k, v)" by fastforce
  show ?case
  proof (cases "st m k v")
    case (Inl e)
    with st_ok [OF Cons.prems, of k v] kv show ?thesis by auto
  next
    case (Inr m1)
    with st_ok [OF Cons.prems, of k v] Cons.IH [OF st_inv [OF Cons.prems Inr]] kv show ?thesis by auto
  qed
qed

end

section \<open>Mode 13h\<close>

record rgb_color =
  rgb_red :: byte
  rgb_green :: byte
  rgb_blue :: byte

record mode13_framebuffer =
  fb_pixels :: "byte list"
  fb_palette :: "rgb_color list"

datatype video_memory_error = PixelOutside

definition fb_width :: nat where "fb_width = 320"
definition fb_height :: nat where "fb_height = 200"

definition mode13_init :: mode13_framebuffer where
  "mode13_init = \<lparr>fb_pixels = replicate (fb_width * fb_height) 0,
     fb_palette = replicate 256 \<lparr>rgb_red = 0, rgb_green = 0, rgb_blue = 0\<rparr>\<rparr>"

definition offset_for :: "nat \<Rightarrow> nat \<Rightarrow> (video_memory_error, nat) res" where
  "offset_for x y =
     (if x \<ge> fb_width \<or> y \<ge> fb_height then Inl (Fail PixelOutside) else Inr (y * fb_width + x))"

definition set_pixel ::
  "mode13_framebuffer \<Rightarrow> nat \<Rightarrow> nat \<Rightarrow> byte \<Rightarrow> (video_memory_error, mode13_framebuffer) res" where
  "set_pixel fb x y color =
     bindE (offset_for x y) (\<lambda>offset.
     bindE (put (fb_pixels fb) offset color) (\<lambda>pixels. Inr (fb\<lparr>fb_pixels := pixels\<rparr>)))"

definition get_pixel :: "mode13_framebuffer \<Rightarrow> nat \<Rightarrow> nat \<Rightarrow> (video_memory_error, byte) res" where
  "get_pixel fb x y = bindE (offset_for x y) (at (fb_pixels fb))"

definition set_palette :: "mode13_framebuffer \<Rightarrow> byte \<Rightarrow> rgb_color \<Rightarrow> mode13_framebuffer" where
  "set_palette fb index color = fb\<lparr>fb_palette := (fb_palette fb)[unat index := color]\<rparr>"

definition get_palette :: "mode13_framebuffer \<Rightarrow> byte \<Rightarrow> rgb_color" where
  "get_palette fb index = fb_palette fb ! unat index"

definition framebuffer_wf :: "mode13_framebuffer \<Rightarrow> bool" where
  "framebuffer_wf fb \<longleftrightarrow> length (fb_pixels fb) = fb_width * fb_height \<and> length (fb_palette fb) = 256"

definition on_screen :: "nat \<times> nat \<Rightarrow> (nat \<times> nat) option" where
  "on_screen p = (if fst p < fb_width \<and> snd p < fb_height then Some p else None)"

fun res_option :: "('e, 'a) res \<Rightarrow> 'a option" where
  "res_option (Inr x) = Some x"
| "res_option (Inl e) = None"

lemma offset_for_Inr: "offset_for x y = Inr off \<longleftrightarrow> x < fb_width \<and> y < fb_height \<and> off = y * fb_width + x"
  by (auto simp: offset_for_def)

lemma offset_bound: "x < fb_width \<Longrightarrow> y < fb_height \<Longrightarrow> y * fb_width + x < fb_width * fb_height"
  by (simp add: fb_width_def fb_height_def)

lemma offset_inject:
  "x < fb_width \<Longrightarrow> u < fb_width \<Longrightarrow> y * fb_width + x = v * fb_width + u \<longleftrightarrow> x = u \<and> y = v"
proof -
  assume x: "x < fb_width" and u: "u < fb_width"
  show "(y * fb_width + x = v * fb_width + u) = (x = u \<and> y = v)"
  proof
    assume eq: "y * fb_width + x = v * fb_width + u"
    have "(y * fb_width + x) mod fb_width = x" "(y * fb_width + x) div fb_width = y" using x by simp_all
    moreover have "(v * fb_width + u) mod fb_width = u" "(v * fb_width + u) div fb_width = v"
      using u by simp_all
    ultimately show "x = u \<and> y = v" unfolding eq by simp
  qed simp
qed

lemma set_pixel_Inr:
  "framebuffer_wf fb \<Longrightarrow> set_pixel fb x y c = Inr fb' \<longleftrightarrow>
     x < fb_width \<and> y < fb_height \<and> fb' = fb\<lparr>fb_pixels := (fb_pixels fb)[y * fb_width + x := c]\<rparr>"
  using offset_bound [of x y] by (auto simp: set_pixel_def bindE_eq_Inr offset_for_Inr put_eq_Inr framebuffer_wf_def)

lemma get_pixel_res:
  "framebuffer_wf fb \<Longrightarrow> res_option (get_pixel fb x y) =
     (if x < fb_width \<and> y < fb_height then Some (fb_pixels fb ! (y * fb_width + x)) else None)"
  using offset_bound [of x y] by (auto simp: get_pixel_def offset_for_def framebuffer_wf_def)

text \<open>The pixel accessors never leave the array.\<close>

lemma pixel_safe:
  "framebuffer_wf fb \<Longrightarrow> set_pixel fb x y c \<noteq> Inl Undefined \<and> get_pixel fb x y \<noteq> Inl Undefined"
  using offset_bound [of x y]
  by (auto simp: set_pixel_def get_pixel_def offset_for_def framebuffer_wf_def)

interpretation screen: checked_store framebuffer_wf "\<lambda>fb (x, y). res_option (get_pixel fb x y)"
  "\<lambda>fb (x, y) c. set_pixel fb x y c" on_screen "\<lambda>_. True"
proof (unfold_locales, goal_cases)
  case (1 m k v m')
  then show ?case by (auto simp: set_pixel_Inr framebuffer_wf_def split: prod.split_asm)
next
  case (2 m k v)
  then show ?case by (auto simp: is_ok_iff set_pixel_Inr on_screen_def split: prod.split)
next
  case (3 m k v m' j)
  then have "framebuffer_wf m'" by (auto simp: set_pixel_Inr framebuffer_wf_def split: prod.split_asm)
  with 3 show ?case
    using offset_bound [of "fst k" "snd k"]
    by (auto simp: set_pixel_Inr get_pixel_res on_screen_def framebuffer_wf_def
        split: prod.split prod.split_asm if_split_asm)
next
  case (4 m k v m' j)
  then have "framebuffer_wf m'" by (auto simp: set_pixel_Inr framebuffer_wf_def split: prod.split_asm)
  with 4 show ?case
    by (auto simp: set_pixel_Inr get_pixel_res on_screen_def
        split: prod.split prod.split_asm if_split_asm)
      (metis nth_list_update_neq offset_inject)+
qed

section \<open>The DOS environment\<close>

type_synonym environment = "string \<rightharpoonup> string"

datatype environment_error = KeyEmpty | KeyInvalidCharacter | ValueInvalidCharacter

text \<open>\<open>std::toupper\<close> in the C locale.\<close>

definition toupper :: "char \<Rightarrow> char" where
  "toupper c = (if 97 \<le> (of_char c :: nat) \<and> (of_char c :: nat) \<le> 122 then char_of ((of_char c :: nat) - 32) else c)"

definition nul :: char where "nul = char_of (0 :: nat)"

fun normalize_characters :: "string \<Rightarrow> (environment_error, string) res" where
  "normalize_characters [] = Inr []"
| "normalize_characters (c # cs) =
     (if c = CHR ''='' \<or> c = nul then Inl (Fail KeyInvalidCharacter)
      else bindE (normalize_characters cs) (\<lambda>rest. Inr (toupper c # rest)))"

definition normalize_key :: "string \<Rightarrow> (environment_error, string) res" where
  "normalize_key key = (if key = [] then Inl (Fail KeyEmpty) else normalize_characters key)"

definition env_set :: "environment \<Rightarrow> string \<Rightarrow> string \<Rightarrow> (environment_error, environment) res" where
  "env_set variables key v =
     bindE (normalize_key key) (\<lambda>normalized.
       if nul \<in> set v then Inl (Fail ValueInvalidCharacter) else Inr (variables(normalized \<mapsto> v)))"

definition env_get :: "environment \<Rightarrow> string \<Rightarrow> string option" where
  "env_get variables key =
     (case normalize_key key of Inl _ \<Rightarrow> None | Inr normalized \<Rightarrow> variables normalized)"

definition env_erase :: "environment \<Rightarrow> string \<Rightarrow> (environment_error, environment) res" where
  "env_erase variables key = bindE (normalize_key key) (\<lambda>normalized. Inr (variables(normalized := None)))"

definition env_key :: "string \<Rightarrow> string option" where
  "env_key key = res_option (normalize_key key)"

lemma toupper_idem [simp]: "toupper (toupper c) = toupper c"
proof -
  have "(of_char (toupper c) :: nat) < 97 \<or> 122 < (of_char (toupper c) :: nat)"
    by (auto simp: toupper_def)
  then show ?thesis by (auto simp: toupper_def [of "toupper c"])
qed

lemma normalize_characters_eq:
  "normalize_characters cs =
     (if CHR ''='' \<in> set cs \<or> nul \<in> set cs then Inl (Fail KeyInvalidCharacter) else Inr (map toupper cs))"
  by (induction cs) auto

lemma env_key_eq:
  "env_key key = (if key = [] \<or> CHR ''='' \<in> set key \<or> nul \<in> set key then None else Some (map toupper key))"
  by (simp add: env_key_def normalize_key_def normalize_characters_eq)

lemma normalize_key_Inr: "normalize_key key = Inr n \<longleftrightarrow> env_key key = Some n"
  by (cases "normalize_key key") (auto simp: env_key_def)

lemma env_get_eq: "env_get variables key = (case env_key key of None \<Rightarrow> None | Some n \<Rightarrow> variables n)"
  by (cases "normalize_key key") (simp_all add: env_get_def env_key_def)

interpretation env: checked_store "\<lambda>_. True" env_get env_set env_key "\<lambda>v. nul \<notin> set v"
  by unfold_locales
    (auto simp: env_set_def env_get_eq bindE_eq_Inr normalize_key_Inr is_ok_iff
      split: if_split_asm option.split)

section \<open>The plugin registry\<close>

datatype extension_point = ext_decoder | ext_optimizer | ext_api_mapping | ext_loader | ext_output_generator

record plugin_descriptor =
  plugin_id :: string
  plugin_display_name :: string
  plugin_point :: extension_point

type_synonym registry = "plugin_descriptor list"

datatype plugin_error = IdAndNameRequired | AlreadyRegistered

definition find_plugin :: "registry \<Rightarrow> string \<Rightarrow> plugin_descriptor option" where
  "find_plugin plugins key = find (\<lambda>item. plugin_id item = key) plugins"

definition register_plugin :: "registry \<Rightarrow> plugin_descriptor \<Rightarrow> (plugin_error, registry) res" where
  "register_plugin plugins descriptor =
     (if plugin_id descriptor = [] \<or> plugin_display_name descriptor = [] then Inl (Fail IdAndNameRequired)
      else if find_plugin plugins (plugin_id descriptor) \<noteq> None then Inl (Fail AlreadyRegistered)
      else Inr (plugins @ [descriptor]))"

definition for_extension :: "registry \<Rightarrow> extension_point \<Rightarrow> registry" where
  "for_extension plugins point = filter (\<lambda>plugin. plugin_point plugin = point) plugins"

definition registry_wf :: "registry \<Rightarrow> bool" where
  "registry_wf plugins \<longleftrightarrow> distinct (map plugin_id plugins) \<and>
     (\<forall>p \<in> set plugins. plugin_id p \<noteq> [] \<and> plugin_display_name p \<noteq> [])"

lemma find_plugin_None: "find_plugin plugins k = None \<longleftrightarrow> k \<notin> plugin_id ` set plugins"
  by (auto simp: find_plugin_def find_None_iff)

lemma find_plugin_Some:
  "registry_wf plugins \<Longrightarrow> find_plugin plugins k = Some p \<longleftrightarrow> p \<in> set plugins \<and> plugin_id p = k"
  unfolding registry_wf_def find_plugin_def by (induction plugins) auto

lemma register_plugin_wf:
  "registry_wf plugins \<Longrightarrow> register_plugin plugins d = Inr plugins' \<Longrightarrow>
     registry_wf plugins' \<and> plugins' = plugins @ [d]"
  by (auto simp: register_plugin_def registry_wf_def find_plugin_None split: if_split_asm)

end
