(* ===== verification/BinaryLoader.thy ===== *)
theory BinaryLoader
  imports Prelude
begin

text \<open>
  \<open>loader/binary_loader.hpp\<close> and \<open>loader/binary_loader.cpp\<close>: the COM and MZ loaders. Sizes and
  offsets are \<open>std::size_t\<close>; every product and sum of the code is below \<open>2 ^ 21\<close>, so they are
  numbers. The header is read through the checked vector access, so that a read outside the file
  would show up as \<open>Inl Undefined\<close>.
\<close>

section \<open>Images\<close>

datatype executable_format = com | mz

record segmented_address =
  sa_segment :: u16
  sa_offset :: u16

record program_image =
  img_format :: executable_format
  img_bytes :: "byte list"
  img_entry_point :: segmented_address
  img_initial_stack :: segmented_address
  img_header_paragraphs :: u16
  img_relocations :: "segmented_address list"

datatype load_error =
  CannotOpen | CannotRead | InputEmpty | ComTooLarge | HeaderTruncated | InvalidSizeFields
| InvalidDeclaredSize | RelocationTableOutside | RelocationOutside | EntryOutsideModule | NoComRelocations

definition linear_offset :: "segmented_address \<Rightarrow> nat" where
  "linear_offset a = unat (sa_segment a) * 16 + unat (sa_offset a)"

definition entry_offset :: "program_image \<Rightarrow> nat" where
  "entry_offset img =
     (if img_format img = com then 0 else linear_offset (img_entry_point img))"

definition loader_read_u16 :: "byte list \<Rightarrow> nat \<Rightarrow> ('e, u16) res" where
  "loader_read_u16 bytes offset =
     bindE (at bytes offset) (\<lambda>lo. bindE (at bytes (offset + 1)) (\<lambda>hi. Inr (le16 lo hi)))"

definition loader_write_u16 :: "byte list \<Rightarrow> nat \<Rightarrow> u16 \<Rightarrow> ('e, byte list) res" where
  "loader_write_u16 bytes offset v =
     bindE (put bytes offset (lo8 v)) (\<lambda>bs. put bs (offset + 1) (hi8 v))"

section \<open>The MZ header\<close>

record mz_header =
  mz_bytes_in_last_page :: u16
  mz_page_count :: u16
  mz_relocation_count :: u16
  mz_header_paragraphs :: u16
  mz_initial_ss :: u16
  mz_initial_sp :: u16
  mz_initial_ip :: u16
  mz_initial_cs :: u16
  mz_relocation_offset :: u16

definition minimum_header_size :: nat where
  "minimum_header_size = 28"

definition read_header :: "byte list \<Rightarrow> (load_error, mz_header) res" where
  "read_header file =
     bindE (loader_read_u16 file 2) (\<lambda>last_page.
     bindE (loader_read_u16 file 4) (\<lambda>pages.
     bindE (loader_read_u16 file 6) (\<lambda>relocs.
     bindE (loader_read_u16 file 8) (\<lambda>paragraphs.
     bindE (loader_read_u16 file 14) (\<lambda>ss.
     bindE (loader_read_u16 file 16) (\<lambda>sp.
     bindE (loader_read_u16 file 20) (\<lambda>ip.
     bindE (loader_read_u16 file 22) (\<lambda>cs.
     bindE (loader_read_u16 file 24) (\<lambda>table.
       Inr \<lparr>mz_bytes_in_last_page = last_page, mz_page_count = pages, mz_relocation_count = relocs,
            mz_header_paragraphs = paragraphs, mz_initial_ss = ss, mz_initial_sp = sp,
            mz_initial_ip = ip, mz_initial_cs = cs, mz_relocation_offset = table\<rparr>)))))))))"

definition declared_size :: "mz_header \<Rightarrow> nat" where
  "declared_size h = (unat (mz_page_count h) - 1) * 512 +
     (if mz_bytes_in_last_page h = 0 then 512 else unat (mz_bytes_in_last_page h))"

definition header_size :: "mz_header \<Rightarrow> nat" where
  "header_size h = unat (mz_header_paragraphs h) * 16"

definition size_fields_invalid :: "mz_header \<Rightarrow> bool" where
  "size_fields_invalid h \<longleftrightarrow> mz_bytes_in_last_page h > 512 \<or> mz_page_count h = 0 \<or>
     (mz_page_count h = 1 \<and> mz_bytes_in_last_page h = 0)"

definition relocation_table_outside :: "mz_header \<Rightarrow> bool" where
  "relocation_table_outside h \<longleftrightarrow> unat (mz_relocation_offset h) > header_size h \<or>
     unat (mz_relocation_count h) > (header_size h - unat (mz_relocation_offset h)) div 4"

definition load_module :: "byte list \<Rightarrow> mz_header \<Rightarrow> byte list" where
  "load_module file h = take (declared_size h - header_size h) (drop (header_size h) file)"

definition relocation_outside :: "nat \<Rightarrow> byte list \<Rightarrow> bool" where
  "relocation_outside offset bytes \<longleftrightarrow> offset > length bytes \<or> length bytes - offset < 2"

text \<open>The loop over the relocation table; \<open>k\<close> entries are left, the next is at \<open>entry\<close>.\<close>

fun read_relocations ::
  "byte list \<Rightarrow> byte list \<Rightarrow> nat \<Rightarrow> nat \<Rightarrow> (load_error, segmented_address list) res" where
  "read_relocations file module entry 0 = Inr []"
| "read_relocations file module entry (Suc k) =
     bindE (loader_read_u16 file (entry + 2)) (\<lambda>segment.
     bindE (loader_read_u16 file entry) (\<lambda>offset.
       let address = \<lparr>sa_segment = segment, sa_offset = offset\<rparr>
       in if relocation_outside (linear_offset address) module then Inl (Fail RelocationOutside)
          else bindE (read_relocations file module (entry + 4) k) (\<lambda>rest. Inr (address # rest))))"

definition build_image :: "byte list \<Rightarrow> mz_header \<Rightarrow> segmented_address list \<Rightarrow> program_image" where
  "build_image file h relocations =
     \<lparr>img_format = mz, img_bytes = load_module file h,
      img_entry_point = \<lparr>sa_segment = mz_initial_cs h, sa_offset = mz_initial_ip h\<rparr>,
      img_initial_stack = \<lparr>sa_segment = mz_initial_ss h, sa_offset = mz_initial_sp h\<rparr>,
      img_header_paragraphs = mz_header_paragraphs h, img_relocations = relocations\<rparr>"

definition parse_header :: "byte list \<Rightarrow> mz_header \<Rightarrow> (load_error, program_image) res" where
  "parse_header file h =
     (if size_fields_invalid h then Inl (Fail InvalidSizeFields)
      else if declared_size h > length file \<or> header_size h < minimum_header_size \<or>
              header_size h > declared_size h then Inl (Fail InvalidDeclaredSize)
      else if relocation_table_outside h then Inl (Fail RelocationTableOutside)
      else bindE (read_relocations file (load_module file h) (unat (mz_relocation_offset h))
               (unat (mz_relocation_count h))) (\<lambda>relocations.
        if unat (mz_initial_ip h) \<ge> length (load_module file h) then Inl (Fail EntryOutsideModule)
        else Inr (build_image file h relocations)))"

definition parse_mz :: "byte list \<Rightarrow> (load_error, program_image) res" where
  "parse_mz file =
     (if length file < minimum_header_size then Inl (Fail HeaderTruncated)
      else bindE (read_header file) (parse_header file))"

section \<open>Entry points of the loader\<close>

definition com_image :: "byte list \<Rightarrow> program_image" where
  "com_image file =
     \<lparr>img_format = com, img_bytes = file,
      img_entry_point = \<lparr>sa_segment = 0, sa_offset = 0x100\<rparr>,
      img_initial_stack = \<lparr>sa_segment = 0, sa_offset = 0xfffe\<rparr>,
      img_header_paragraphs = 0, img_relocations = []\<rparr>"

definition load_bytes :: "byte list \<Rightarrow> (load_error, program_image) res" where
  "load_bytes file =
     (if file = [] then Inl (Fail InputEmpty)
      else if length file \<ge> 2 \<and> file ! 0 = 0x4d \<and> file ! 1 = 0x5a then parse_mz file
      else if length file > 65535 then Inl (Fail ComTooLarge)
      else Inr (com_image file))"

text \<open>The three outcomes of reading a path through \<open>std::ifstream\<close>.\<close>

datatype file_contents = not_opened | read_failed | contents "byte list"

fun load_file :: "file_contents \<Rightarrow> (load_error, program_image) res" where
  "load_file not_opened = Inl (Fail CannotOpen)"
| "load_file read_failed = Inl (Fail CannotRead)"
| "load_file (contents bytes) = load_bytes bytes"

text \<open>One relocation: the word at \<open>offset\<close> is increased by the load segment, modulo \<open>2 ^ 16\<close>.\<close>

definition relocate_word :: "u16 \<Rightarrow> byte list \<Rightarrow> nat \<Rightarrow> (load_error, byte list) res" where
  "relocate_word load_segment bytes offset =
     (if relocation_outside offset bytes then Inl (Fail RelocationOutside)
      else bindE (loader_read_u16 bytes offset) (\<lambda>v.
             loader_write_u16 bytes offset (v + load_segment)))"

fun relocate_all :: "u16 \<Rightarrow> byte list \<Rightarrow> segmented_address list \<Rightarrow> (load_error, byte list) res" where
  "relocate_all load_segment bytes [] = Inr bytes"
| "relocate_all load_segment bytes (r # rs) =
     bindE (relocate_word load_segment bytes (linear_offset r)) (\<lambda>bs. relocate_all load_segment bs rs)"

definition apply_relocations :: "program_image \<Rightarrow> u16 \<Rightarrow> (load_error, program_image) res" where
  "apply_relocations img load_segment =
     (if img_format img \<noteq> mz then Inl (Fail NoComRelocations)
      else bindE (relocate_all load_segment (img_bytes img) (img_relocations img)) (\<lambda>bytes.
             Inr (img\<lparr>img_bytes := bytes\<rparr>)))"

section \<open>Bounds\<close>

lemma loader_read_u16_ok [simp]:
  "Suc offset < length bytes \<Longrightarrow> loader_read_u16 bytes offset = Inr (le16 (bytes ! offset) (bytes ! Suc offset))"
  by (simp add: loader_read_u16_def)

lemma loader_write_u16_ok [simp]:
  "Suc offset < length bytes \<Longrightarrow>
     loader_write_u16 bytes offset v = Inr (bytes[offset := lo8 v, Suc offset := hi8 v])"
  by (simp add: loader_write_u16_def)

lemma not_relocation_outside: "\<not> relocation_outside offset bytes \<longleftrightarrow> Suc offset < length bytes"
  by (auto simp: relocation_outside_def)

lemma read_header_ok: "minimum_header_size \<le> length file \<Longrightarrow> \<exists>h. read_header file = Inr h"
  by (simp add: read_header_def minimum_header_size_def)

lemma relocation_table_inside:
  "\<not> relocation_table_outside h \<Longrightarrow>
     unat (mz_relocation_offset h) + 4 * unat (mz_relocation_count h) \<le> header_size h"
  by (auto simp: relocation_table_outside_def not_less)

lemma read_relocations_safe:
  "entry + 4 * k \<le> length file \<Longrightarrow> read_relocations file module entry k \<noteq> Inl Undefined"
  by (induction k arbitrary: entry) (auto simp: Let_def bindE_eq_Inl)

lemma read_relocations_inside:
  "read_relocations file module entry k = Inr rs \<Longrightarrow>
     length rs = k \<and> (\<forall>r \<in> set rs. Suc (linear_offset r) < length module)"
  by (induction k arbitrary: entry rs)
    (auto simp: Let_def bindE_eq_Inr not_relocation_outside split: if_split_asm)

text \<open>What the loader promises about an image.\<close>

definition image_wf :: "program_image \<Rightarrow> bool" where
  "image_wf img \<longleftrightarrow>
     img_bytes img \<noteq> [] \<and>
     (\<forall>r \<in> set (img_relocations img). Suc (linear_offset r) < length (img_bytes img)) \<and>
     (case img_format img of
        com \<Rightarrow> length (img_bytes img) \<le> 65535 \<and> img_relocations img = []
      | mz \<Rightarrow> unat (sa_offset (img_entry_point img)) < length (img_bytes img) \<and>
             length (img_bytes img) < 65536 * 512)"

lemma parse_header_inside:
  assumes "parse_header file h = Inr img"
  shows "header_size h \<le> declared_size h \<and> declared_size h \<le> length file \<and>
    minimum_header_size \<le> header_size h \<and>
    (\<exists>rs. img = build_image file h rs \<and> length rs = unat (mz_relocation_count h) \<and>
      (\<forall>r \<in> set rs. Suc (linear_offset r) < length (load_module file h))) \<and>
    unat (mz_initial_ip h) < length (load_module file h)"
  using assms read_relocations_inside
  by (fastforce simp: parse_header_def bindE_eq_Inr split: if_split_asm)

lemma declared_size_bound: "\<not> size_fields_invalid h \<Longrightarrow> declared_size h < 65536 * 512"
proof -
  assume *: "\<not> size_fields_invalid h"
  have "unat (mz_page_count h) < 65536"
    using unsigned_less [of "mz_page_count h"] by simp
  moreover from * have "unat (mz_bytes_in_last_page h) \<le> 512"
    by (simp add: size_fields_invalid_def word_le_nat_alt [symmetric] not_less word_less_nat_alt)
  ultimately show ?thesis by (auto simp: declared_size_def)
qed

lemma parse_mz_wf: "parse_mz file = Inr img \<Longrightarrow> image_wf img \<and> img_format img = mz"
proof -
  assume *: "parse_mz file = Inr img"
  then obtain h where h: "parse_header file h = Inr img"
    by (auto simp: parse_mz_def bindE_eq_Inr split: if_split_asm)
  then have "\<not> size_fields_invalid h" by (auto simp: parse_header_def)
  then have "declared_size h < 65536 * 512" by (rule declared_size_bound)
  then have "length (load_module file h) < 65536 * 512" by (simp add: load_module_def)
  with parse_header_inside [OF h] show ?thesis
    by (auto simp: image_wf_def build_image_def)
qed

lemma parse_header_safe:
  "parse_header file h \<noteq> Inl Undefined"
proof
  assume u: "parse_header file h = Inl Undefined"
  then have "\<not> relocation_table_outside h" "header_size h \<le> declared_size h"
    "declared_size h \<le> length file"
    and r: "read_relocations file (load_module file h) (unat (mz_relocation_offset h))
      (unat (mz_relocation_count h)) = Inl Undefined"
    by (auto simp: parse_header_def bindE_eq_Inl split: if_split_asm)
  with relocation_table_inside [of h] have
    "unat (mz_relocation_offset h) + 4 * unat (mz_relocation_count h) \<le> length file" by simp
  from read_relocations_safe [OF this] r show False by blast
qed

lemma parse_mz_safe: "parse_mz file \<noteq> Inl Undefined"
  using read_header_ok [of "file"] parse_header_safe
  by (auto simp: parse_mz_def bindE_eq_Inl not_less)

section \<open>Relocation\<close>

definition relocated :: "u16 \<Rightarrow> byte list \<Rightarrow> nat \<Rightarrow> byte list" where
  "relocated s bytes p =
     (let v = le16 (bytes ! p) (bytes ! Suc p) + s in bytes[p := lo8 v, Suc p := hi8 v])"

lemma length_relocated [simp]: "length (relocated s bytes p) = length bytes"
  by (simp add: relocated_def Let_def)

lemma relocate_word_ok [simp]:
  "Suc p < length bytes \<Longrightarrow> relocate_word s bytes p = Inr (relocated s bytes p)"
  by (simp add: relocate_word_def not_relocation_outside [THEN iffD2] relocated_def Let_def)

lemma nth_relocated_other: "q \<noteq> p \<Longrightarrow> q \<noteq> Suc p \<Longrightarrow> relocated s bytes p ! q = bytes ! q"
  by (simp add: relocated_def Let_def)

lemma relocated_word:
  "Suc p < length bytes \<Longrightarrow>
     le16 (relocated s bytes p ! p) (relocated s bytes p ! Suc p) = le16 (bytes ! p) (bytes ! Suc p) + s"
  by (simp add: relocated_def Let_def)

lemma relocated_twice:
  "Suc p < length bytes \<Longrightarrow> relocated t (relocated s bytes p) p = relocated (s + t) bytes p"
  by (simp add: relocated_def Let_def add.assoc list_update_swap)

lemma relocated_zero: "Suc p < length bytes \<Longrightarrow> relocated 0 bytes p = bytes"
  by (simp add: relocated_def Let_def)

definition apart :: "nat \<Rightarrow> nat \<Rightarrow> bool" where
  "apart p q \<longleftrightarrow> p = q \<or> Suc p < q \<or> Suc q < p"

lemma apart_sym: "apart p q \<longleftrightarrow> apart q p"
  by (auto simp: apart_def)

lemma relocated_commute:
  "apart p q \<Longrightarrow> Suc p < length bytes \<Longrightarrow> Suc q < length bytes \<Longrightarrow>
     relocated t (relocated s bytes p) q = relocated s (relocated t bytes q) p"
  by (intro nth_equalityI)
    (auto simp: apart_def relocated_def Let_def nth_list_update add.assoc add.commute [of s t])

text \<open>The whole table, as a function on the bytes.\<close>

definition relocated_all :: "u16 \<Rightarrow> byte list \<Rightarrow> nat list \<Rightarrow> byte list" where
  "relocated_all s bytes ps = foldl (relocated s) bytes ps"

lemma relocated_all_simps [simp]:
  "relocated_all s bytes [] = bytes"
  "relocated_all s bytes (p # ps) = relocated_all s (relocated s bytes p) ps"
  by (simp_all add: relocated_all_def)

lemma length_relocated_all [simp]: "length (relocated_all s bytes ps) = length bytes"
  by (induction ps arbitrary: bytes) simp_all

lemma relocate_all_ok:
  "\<forall>r \<in> set rs. Suc (linear_offset r) < length bytes \<Longrightarrow>
     relocate_all s bytes rs = Inr (relocated_all s bytes (map linear_offset rs))"
  by (induction rs arbitrary: bytes) simp_all

lemma relocated_all_other:
  "\<forall>p \<in> set ps. q \<noteq> p \<and> q \<noteq> Suc p \<Longrightarrow> relocated_all s bytes ps ! q = bytes ! q"
  by (induction ps arbitrary: bytes) (simp_all add: nth_relocated_other)

lemma relocated_all_out:
  "\<forall>q \<in> set ps. apart p q \<and> Suc q < length bytes \<Longrightarrow> Suc p < length bytes \<Longrightarrow>
     relocated t (relocated_all s bytes ps) p = relocated_all s (relocated t bytes p) ps"
  by (induction ps arbitrary: bytes) (simp_all add: relocated_commute apart_sym [of p])

lemma relocated_all_twice:
  "\<forall>p \<in> set ps. Suc p < length bytes \<and> (\<forall>q \<in> set ps. apart p q) \<Longrightarrow>
     relocated_all t (relocated_all s bytes ps) ps = relocated_all (s + t) bytes ps"
proof (induction ps arbitrary: bytes)
  case (Cons p ps)
  have "relocated_all t (relocated_all s bytes (p # ps)) (p # ps) =
      relocated_all t (relocated t (relocated_all s (relocated s bytes p) ps) p) ps"
    by simp
  also have "\<dots> = relocated_all t (relocated_all s (relocated (s + t) bytes p) ps) ps"
    using Cons.prems by (simp add: relocated_all_out relocated_twice)
  also have "\<dots> = relocated_all (s + t) bytes (p # ps)"
    using Cons by simp
  finally show ?case .
qed simp

lemma relocated_all_word:
  "distinct ps \<Longrightarrow> \<forall>p \<in> set ps. Suc p < length bytes \<and> (\<forall>q \<in> set ps. apart p q) \<Longrightarrow> p \<in> set ps \<Longrightarrow>
     le16 (relocated_all s bytes ps ! p) (relocated_all s bytes ps ! Suc p) =
     le16 (bytes ! p) (bytes ! Suc p) + s"
proof (induction ps arbitrary: bytes)
  case (Cons x ps)
  show ?case
  proof (cases "x = p")
    case True
    have "\<forall>y \<in> set ps. p \<noteq> y \<and> p \<noteq> Suc y \<and> Suc p \<noteq> y \<and> Suc p \<noteq> Suc y"
      using Cons.prems True by (auto simp: apart_def)
    then have "relocated_all s (relocated s bytes x) ps ! p = relocated s bytes x ! p"
      "relocated_all s (relocated s bytes x) ps ! Suc p = relocated s bytes x ! Suc p"
      by (intro relocated_all_other; blast)+
    then show ?thesis using True Cons.prems by (simp add: relocated_word)
  next
    case False
    then have "apart x p" "p \<in> set ps" using Cons.prems by auto
    with False Cons show ?thesis by (auto simp: apart_def nth_relocated_other)
  qed
qed simp

text \<open>The relocations of an image do not overlap.\<close>

definition relocations_apart :: "program_image \<Rightarrow> bool" where
  "relocations_apart img \<longleftrightarrow>
     (\<forall>r \<in> set (img_relocations img). \<forall>q \<in> set (img_relocations img).
        apart (linear_offset r) (linear_offset q))"

lemma apply_relocations_ok:
  "image_wf img \<Longrightarrow> img_format img = mz \<Longrightarrow>
     apply_relocations img s =
       Inr (img\<lparr>img_bytes := relocated_all s (img_bytes img) (map linear_offset (img_relocations img))\<rparr>)"
  by (simp add: apply_relocations_def image_wf_def relocate_all_ok)

end
