(* ===== verification/EffectiveAddress.thy ===== *)
theory EffectiveAddress
  imports DecoderFacts
begin

text \<open>
  \<open>decoder/effective_address.hpp\<close> and \<open>decoder/effective_address.cpp\<close>: the 16-bit offset of a
  decoded memory operand. The register file is an array indexed by \<open>register_name\<close>, whose last
  enumerator \<open>ds\<close> bounds it, so it is a function on that type.
\<close>

type_synonym register_values = "register_name \<Rightarrow> u16"

datatype effective_address_error = NotAMemoryOperand

text \<open>\<open>address_registers\<close> has two slots.\<close>

definition address_register :: "operand \<Rightarrow> nat \<Rightarrow> ('e, register_name) res" where
  "address_register operand index =
     at [fst (op_address_registers operand), snd (op_address_registers operand)] index"

fun add_address_registers ::
  "operand \<Rightarrow> register_values \<Rightarrow> nat list \<Rightarrow> u16 \<Rightarrow> ('e, u16) res" where
  "add_address_registers operand registers [] offset = Inr offset"
| "add_address_registers operand registers (index # rest) offset =
     bindE (address_register operand index) (\<lambda>r.
       add_address_registers operand registers rest (offset + registers r))"

definition effective_address :: "operand \<Rightarrow> register_values \<Rightarrow> (effective_address_error, u16) res" where
  "effective_address operand registers =
     (if op_kind operand \<noteq> o_memory then Inl (Fail NotAMemoryOperand)
      else if op_direct_address operand then Inr (op_displacement operand)
      else add_address_registers operand registers [0..<op_address_register_count operand]
             (op_displacement operand))"

section \<open>The 8086 addressing modes\<close>

definition base_sum :: "byte \<Rightarrow> register_values \<Rightarrow> u16" where
  "base_sum rm registers =
     (if rm = 0 then registers R_bx + registers R_si
      else if rm = 1 then registers R_bx + registers R_di
      else if rm = 2 then registers R_bp + registers R_si
      else if rm = 3 then registers R_bp + registers R_di
      else if rm = 4 then registers R_si
      else if rm = 5 then registers R_di
      else if rm = 6 then registers R_bp
      else registers R_bx)"

text \<open>Displacements: none, one sign-extended byte or one word; mode 0 with r/m 6 is a direct address.\<close>

definition mode_address :: "byte list \<Rightarrow> nat \<Rightarrow> byte \<Rightarrow> register_values \<Rightarrow> u16" where
  "mode_address code offset modrm registers =
     (let mode = drop_bit 6 modrm; rm = modrm AND 7;
          word = le16 (code ! (offset + 1)) (code ! (offset + 2))
      in if mode = 0 then (if rm = 6 then word else base_sum rm registers)
         else if mode = 1 then base_sum rm registers + scast (code ! (offset + 1))
         else base_sum rm registers + word)"

lemma and_7_cases:
  obtains "w AND 7 = (0 :: byte)" | "w AND 7 = (1 :: byte)" | "w AND 7 = (2 :: byte)"
  | "w AND 7 = (3 :: byte)" | "w AND 7 = (4 :: byte)" | "w AND 7 = (5 :: byte)"
  | "w AND 7 = (6 :: byte)" | "w AND 7 = (7 :: byte)"
proof -
  let ?n = "unat (w AND 7)"
  have "w AND 7 = word_of_nat ?n" by simp
  moreover have "?n = 0 \<or> ?n = 1 \<or> ?n = 2 \<or> ?n = 3 \<or> ?n = 4 \<or> ?n = 5 \<or> ?n = 6 \<or> ?n = 7"
    using unat_and_7 [of w] by arith
  ultimately show ?thesis using that by (elim disjE) simp_all
qed

lemma upt_two: "[0..<2] = [0, 1 :: nat]" "[0..<Suc 0] = [0 :: nat]"
  by (simp_all add: upt_rec)

lemma effective_address_memory:
  "effective_address (memory_operand width modrm (if modrm AND 7 \<le> 3 then 2 else 1) d False) registers =
     Inr (base_sum (modrm AND 7) registers + d)"
proof -
  have "effective_address (memory_operand width modrm (if modrm AND 7 \<le> 3 then 2 else 1) d False) registers =
     (let pair = address_pairs ! unat (modrm AND 7)
      in Inr (if modrm AND 7 \<le> 3 then d + registers (fst pair) + registers (snd pair)
              else d + registers (fst pair)))"
    by (simp add: effective_address_def memory_operand_def address_register_def upt_two Let_def)
  then show ?thesis
    by (cases modrm rule: and_7_cases) (simp_all add: address_pairs_def base_sum_def)
qed

lemma effective_address_two:
  "modrm AND 7 \<le> 3 \<Longrightarrow> effective_address (memory_operand width modrm 2 d False) registers =
     Inr (base_sum (modrm AND 7) registers + d)"
  using effective_address_memory [of width modrm d registers] by simp

lemma effective_address_one:
  "\<not> modrm AND 7 \<le> 3 \<Longrightarrow> effective_address (memory_operand width modrm (Suc 0) d False) registers =
     Inr (base_sum (modrm AND 7) registers + d)"
  using effective_address_memory [of width modrm d registers] by simp

lemma effective_address_direct:
  "effective_address (memory_operand width modrm 0 d True) registers = Inr d"
  by (simp add: effective_address_def memory_operand_def)

text \<open>The resolver inverts the decoder's ModR/M encoding.\<close>

lemma rm_operand_address:
  assumes "rm_operand code offset width modrm = Inr operand" and "drop_bit 6 modrm \<noteq> 3"
  shows "effective_address operand registers = Inr (mode_address code offset modrm registers)"
proof -
  have modes: "drop_bit 6 modrm = 0 \<or> drop_bit 6 modrm = 1 \<or> drop_bit 6 modrm = 2"
  proof -
    have "unat modrm < 256"
      using unsigned_less [of modrm] by simp
    then have "unat modrm div 64 < 4" by simp
    moreover have "unat (drop_bit 6 modrm) = unat modrm div 64"
      using \<open>unat modrm < 256\<close>
      by (simp only: unsigned_drop_bit_eq) (simp add: drop_bit_eq_div take_bit_eq_mod)
    ultimately have "unat (drop_bit 6 modrm) < 4" by simp
    then have "unat (drop_bit 6 modrm) = 0 \<or> unat (drop_bit 6 modrm) = 1 \<or>
        unat (drop_bit 6 modrm) = 2 \<or> unat (drop_bit 6 modrm) = 3"
      by arith
    then have "drop_bit 6 modrm = 0 \<or> drop_bit 6 modrm = 1 \<or>
        drop_bit 6 modrm = 2 \<or> drop_bit 6 modrm = 3"
      by (auto simp flip: word_unat_eq_iff simp: word_unat_eq_iff)
    with assms(2) show ?thesis by simp
  qed
  show ?thesis
    using modes assms
    by (auto simp: rm_operand_def mode_address_def Let_def bindE_eq_Inr read_u16_def byte_at_def
        at_eq_Inr effective_address_two effective_address_one
        effective_address_direct split: if_split_asm)
qed

text \<open>
  The typing of operands: a register operand names a register of its width, a memory operand at most two
  address registers, all of them among BX, BP, SI and DI, and none of them when the address is direct.
\<close>

definition registers_of :: "operand_width \<Rightarrow> register_name list" where
  "registers_of width = (case width of w_byte \<Rightarrow> byte_registers | w_word \<Rightarrow> word_registers)"

definition operand_wf :: "operand \<Rightarrow> bool" where
  "operand_wf operand \<longleftrightarrow> op_address_register_count operand \<le> 2 \<and>
     (op_kind operand = o_reg \<longrightarrow> op_reg operand \<in> set (registers_of (op_width operand))) \<and>
     (op_kind operand = o_memory \<longrightarrow>
        set (take (op_address_register_count operand)
          [fst (op_address_registers operand), snd (op_address_registers operand)]) \<subseteq> {R_bx, R_bp, R_si, R_di} \<and>
        (op_direct_address operand \<longrightarrow> op_address_register_count operand = 0))"

lemma effective_address_safe: "operand_wf operand \<Longrightarrow> effective_address operand registers \<noteq> Inl Undefined"
proof -
  assume wf: "operand_wf operand"
  have "add_address_registers operand registers is offset \<noteq> (Inl Undefined :: (effective_address_error, _) res)"
    if "\<forall>index \<in> set is. index < 2" for "is" offset
    using that by (induction "is" arbitrary: offset)
      (auto simp: address_register_def bindE_eq_Inl at_eq_Inl)
  with wf show ?thesis by (simp add: effective_address_def operand_wf_def)
qed

end
