(* ===== verification/DecoderOperands.thy ===== *)
theory DecoderOperands
  imports EffectiveAddress
begin

text \<open>
  The operands of every decoded instruction are well typed: registers of the operand's width, address
  registers from the eight addressing modes of the 8086, and at most two of them, so that the resolver of
  \<open>effective_address.cpp\<close> stays inside its two-element array. A move of an immediate has both its operands.
\<close>

definition operands_wf :: "instruction \<Rightarrow> bool" where
  "operands_wf i \<longleftrightarrow> operand_wf (fst (ins_operands i)) \<and> operand_wf (snd (ins_operands i)) \<and>
     (ins_operand_count i = 2 \<longrightarrow> op_width (fst (ins_operands i)) = op_width (snd (ins_operands i))) \<and>
     (ins_kind i = k_move_immediate \<longrightarrow> ins_operand_count i = 2)"

definition group_operands_wf :: "decode_group \<Rightarrow> bool" where
  "group_operands_wf g \<longleftrightarrow> (\<forall>code off opc i. g code off opc = Some (Inr i) \<longrightarrow> operands_wf i)"

lemma operand_wf_intros [simp]:
  "operand_wf default_operand" "operand_wf (immediate_operand width v)"
  "r \<in> set (registers_of w) \<Longrightarrow> operand_wf (default_operand\<lparr>op_kind := o_reg, op_width := w, op_reg := r\<rparr>)"
  by (simp_all add: operand_wf_def default_operand_def immediate_operand_def)

lemma memory_operand_wf [simp]:
  assumes "n \<le> (if m AND 7 \<le> 3 then 2 else 1)" and "b \<Longrightarrow> n = 0"
  shows "operand_wf (memory_operand width m n d b)"
proof -
  let ?pair = "address_pairs ! unat (m AND 7)" and ?S = "{R_bx, R_bp, R_si, R_di}"
  have pair: "fst ?pair \<in> ?S" "m AND 7 \<le> 3 \<longrightarrow> snd ?pair \<in> ?S"
    by (cases m rule: and_7_cases; simp add: address_pairs_def)+
  consider "n = 0" | "n = 1" | "n = 2" "m AND 7 \<le> 3"
    using assms(1) by (cases "m AND 7 \<le> 3") (force simp: le_Suc_eq numeral_2_eq_2)+
  then have "set (take n [fst ?pair, snd ?pair]) \<subseteq> ?S" and "n \<le> 2"
    by (cases; use pair in simp)+
  then show ?thesis using assms(2) by (simp add: operand_wf_def memory_operand_def)
qed

lemma accumulator_operand_wf [simp]:
  "operand_wf (default_operand\<lparr>op_kind := o_reg, op_width := w,
     op_reg := case w of w_byte \<Rightarrow> R_al | w_word \<Rightarrow> R_ax\<rparr>)"
  by (cases w) (simp_all add: registers_of_def byte_registers_def word_registers_def)

lemma operand_widths [simp]:
  "op_width (immediate_operand w v) = w" "op_width (memory_operand w m n d b) = w"
  by (simp_all add: immediate_operand_def memory_operand_def)

lemma register_operand_width: "register_operand w e = Inr operand \<Longrightarrow> op_width operand = w"
  by (auto simp: register_operand_def bindE_eq_Inr)

lemma rm_operand_width: "rm_operand code off w m = Inr operand \<Longrightarrow> op_width operand = w"
  by (auto simp: rm_operand_def Let_def bindE_eq_Inr register_operand_width split: if_split_asm)

lemma register_operand_wf: "register_operand w e = Inr operand \<Longrightarrow> operand_wf operand"
  by (cases w) (auto simp: register_operand_def decoder_register_for_def registers_of_def bindE_eq_Inr at_eq_Inr)

lemma rm_operand_wf: "rm_operand code off w m = Inr operand \<Longrightarrow> operand_wf operand"
  by (auto simp: rm_operand_def Let_def bindE_eq_Inr dest: register_operand_wf register_operand_width split: if_split_asm)

lemma basic_operands_wf [simp]:
  "operands_wf (basic k off n t v) \<longleftrightarrow> k \<noteq> k_move_immediate" "ins_kind (basic k off n t v) = k"
  by (simp_all add: operands_wf_def basic_def)

lemma with_operands_wf [simp]:
  "operands_wf (with_operands i a b n u) \<longleftrightarrow>
     operand_wf a \<and> operand_wf b \<and> (n = 2 \<longrightarrow> op_width a = op_width b) \<and>
     (ins_kind i = k_move_immediate \<longrightarrow> n = 2)"
  by (simp add: operands_wf_def with_operands_def)

lemma operands_wf_update [simp]:
  "operands_wf (i\<lparr>ins_rep := r\<rparr>) = operands_wf i"
  "operands_wf (i\<lparr>ins_stack_pop := p\<rparr>) = operands_wf i"
  "operands_wf (i\<lparr>ins_indirect := p\<rparr>) = operands_wf i"
  "operands_wf (i\<lparr>ins_condition := c\<rparr>) = operands_wf i"
  "operands_wf (i\<lparr>ins_offset := n\<rparr>) = operands_wf i"
  "operands_wf (i\<lparr>ins_size := n\<rparr>) = operands_wf i"
  "operands_wf (i\<lparr>ins_operand_size_override := p\<rparr>) = operands_wf i"
  "operands_wf (i\<lparr>ins_address_size_override := p\<rparr>) = operands_wf i"
  by (simp_all add: operands_wf_def)

lemma need_Some [simp]: "need code off n r = Inr i \<Longrightarrow> r = Inr i"
  by (simp add: need_def truncated_def split: if_split_asm)

lemma modrm_operands_wf:
  "modrm_operands code off opc = Inr (a, b) \<Longrightarrow> operand_wf a \<and> operand_wf b \<and> op_width a = op_width b"
  using register_operand_width rm_operand_width
  by (fastforce simp: modrm_operands_def Let_def bindE_eq_Inr split: if_split_asm
      dest: register_operand_wf rm_operand_wf)

lemma simple_groups_operands:
  "group_operands_wf decode_fixed" "group_operands_wf decode_io" "group_operands_wf decode_control"
  by (auto simp: group_operands_wf_def decode_fixed_def decode_io_def decode_control_def
      relative8_def bindE_eq_Inr split: if_split_asm)

lemma string_operands: "group_operands_wf decode_string"
  by (auto simp: group_operands_wf_def decode_string_def Let_def split: if_split_asm sum.split_asm)

lemma register_groups_operands:
  "group_operands_wf decode_immediate_move" "group_operands_wf decode_stack"
  "group_operands_wf decode_inc_dec"
  by (auto simp: group_operands_wf_def decode_immediate_move_def decode_stack_def decode_inc_dec_def
      immediate_move_def stack_instruction_def step_instruction_def bindE_eq_Inr
      dest: register_operand_wf register_operand_width split: if_split_asm)

lemma accumulator_operands: "group_operands_wf decode_accumulator"
  by (auto simp: group_operands_wf_def decode_accumulator_def accumulator_immediate_def Let_def
      bindE_eq_Inr split: if_split_asm)

lemma if_Some_eq: "(if b then Some x else y) = Some z \<longleftrightarrow> (b \<and> x = z) \<or> (\<not> b \<and> y = Some z)"
  by simp

lemma modrm_arithmetic_operands: "group_operands_wf decode_modrm_arithmetic"
  by (auto simp: group_operands_wf_def decode_modrm_arithmetic_def Let_def bindE_eq_Inr if_Some_eq
      dest: modrm_operands_wf split del: if_split)

lemma sized_operands: "sized code off n k = Inr i \<Longrightarrow> k \<noteq> k_move_immediate \<Longrightarrow> operands_wf i"
  by (auto simp: sized_def bindE_eq_Inr)

lemma move_modrm_operands: "group_operands_wf decode_move_modrm"
  by (auto simp: group_operands_wf_def decode_move_modrm_def bindE_eq_Inr if_Some_eq
      dest: modrm_operands_wf sized_operands split del: if_split)

lemma immediate_store_operands: "immediate_store code off opc n sz m = Inr i \<Longrightarrow> operands_wf i"
  by (auto simp: immediate_store_def Let_def bindE_eq_Inr dest: rm_operand_wf rm_operand_width split del: if_split)

lemma immediate_arithmetic_operands: "immediate_arithmetic code off opc sz m = Inr i \<Longrightarrow> operands_wf i"
  by (auto simp: immediate_arithmetic_def Let_def bindE_eq_Inr dest: rm_operand_wf rm_operand_width split del: if_split)

lemma immediate_group_operands:
  assumes "immediate_group code off opc n = Inr i"
  shows "operands_wf i"
proof -
  from assms obtain sz m where
    "(if opc = 0xc6 \<or> opc = 0xc7 then immediate_store code off opc n sz m
      else immediate_arithmetic code off opc sz m) = Inr i"
    unfolding immediate_group_def bindE_eq_Inr Suc_eq_plus1 by blast
  then show ?thesis
    using immediate_store_operands immediate_arithmetic_operands
    by (cases "opc = 0xc6 \<or> opc = 0xc7") (simp_all only: if_True if_False)
qed

lemma group_immediate_operands: "group_operands_wf decode_group_immediate"
  using immediate_group_operands
  by (simp add: group_operands_wf_def decode_group_immediate_def split: if_split)

lemma ff_body_operands:
  assumes "(let extension = modrm_extension modrm in
      if extension = 2 \<or> extension = 4 then
        bindE (rm_operand code p w_word modrm) (\<lambda>rm.
          Inr ((with_operands (basic (if extension = 2 then k_call else k_jump) off sz 0 0)
                  rm default_operand 1 a_none)\<lparr>ins_indirect := True\<rparr>))
      else if extension \<ge> 3 \<and> extension \<le> 5 then Inl (Fail IndirectControlFlow)
      else Inr (basic (if extension = 6 then k_stack else k_arithmetic) off sz 0 0)) = Inr i"
  shows "operands_wf i"
proof (cases "modrm_extension modrm = 2 \<or> modrm_extension modrm = 4")
  case True
  with assms show ?thesis by (auto simp: Let_def bindE_eq_Inr dest: rm_operand_wf rm_operand_width)
next
  case False
  with assms have "i = basic (if modrm_extension modrm = 6 then k_stack else k_arithmetic) off sz 0 0"
    unfolding Let_def by (simp only: if_False split: if_split_asm) simp_all
  then show ?thesis by simp
qed

lemma ff_operands: "group_operands_wf decode_ff"
proof -
  have "operands_wf i" if "decode_ff code off opc = Some (Inr i)" for code off opc i
  proof -
    have "opc = 0xff" using that by (simp add: decode_ff_def split: if_split_asm)
    with that have "bindE (modrm_size code (off + 1) 0) (\<lambda>sz.
              bindE (byte_at code (off + 1)) (\<lambda>modrm.
                let extension = modrm_extension modrm in
                if extension = 2 \<or> extension = 4 then
                  bindE (rm_operand code (off + 2) w_word modrm) (\<lambda>rm.
                    Inr ((with_operands (basic (if extension = 2 then k_call else k_jump) off sz 0 0)
                            rm default_operand 1 a_none)\<lparr>ins_indirect := True\<rparr>))
                else if extension \<ge> 3 \<and> extension \<le> 5 then Inl (Fail IndirectControlFlow)
                else Inr (basic (if extension = 6 then k_stack else k_arithmetic) off sz 0 0))) = Inr i"
      by (simp only: decode_ff_def if_True option.inject simp_thms)
    then show ?thesis
      unfolding bindE_eq_Inr [of "modrm_size code (off + 1) 0"] bindE_eq_Inr [of "byte_at code (off + 1)"]
      by (elim exE conjE) (rule ff_body_operands)
  qed
  then show ?thesis by (simp add: group_operands_wf_def)
qed

lemma fe_operands:
  "bindE (modrm_size code (Suc off) 0) (\<lambda>sz. bindE (byte_at code (Suc off)) (\<lambda>modrm.
     if modrm_extension modrm > 1 then Inl (Fail UnsupportedFEGroup)
     else Inr (basic k_arithmetic off sz 0 0))) = Inr i \<Longrightarrow> operands_wf i"
  by (auto simp: bindE_eq_Inr split: if_split_asm)

lemma f6_operands:
  "bindE (byte_at code (Suc off)) (\<lambda>modrm.
      sized code off (if modrm_extension modrm = 0 then v else 0)
        (if modrm_extension modrm = 0 then k_compare else k_arithmetic)) = Inr i \<Longrightarrow> operands_wf i"
  by (auto simp: bindE_eq_Inr dest: sized_operands split: if_split_asm)

lemma groups_operands: "group_operands_wf decode_groups"
proof -
  have "operands_wf i" if g: "decode_groups code off opc = Some (Inr i)" for code off opc i
  proof -
    consider "opc = 0xf6 \<or> opc = 0xf7" | "opc = 0xfe" | "opc \<noteq> 0xf6" "opc \<noteq> 0xf7" "opc \<noteq> 0xfe" by blast
    then show ?thesis
    proof cases
      case 1
      then have "decode_groups code off opc =
          Some (if off + 1 \<ge> length code then truncated off
            else bindE (byte_at code (off + 1)) (\<lambda>modrm.
              let extension = modrm_extension modrm;
                  immediate_size = (if extension = 0 then (if opc = 0xf6 then 1 else 2) else 0)
              in sized code off immediate_size (if extension = 0 then k_compare else k_arithmetic)))"
        by (simp only: decode_groups_def if_True)
      with g have "bindE (byte_at code (Suc off)) (\<lambda>modrm.
          sized code off (if modrm_extension modrm = 0 then (if opc = 0xf6 then 1 else 2) else 0)
            (if modrm_extension modrm = 0 then k_compare else k_arithmetic)) = Inr i"
        by (cases "off + 1 \<ge> length code")
          (simp_all only: if_True if_False truncated_neq Let_def option.inject Suc_eq_plus1)
      then show ?thesis by (rule f6_operands)
    next
      case 2
      with g show ?thesis by (simp add: decode_groups_def fe_operands)
    next
      case 3
      with g show ?thesis
        by (auto simp: decode_groups_def if_Some_eq dest: sized_operands split del: if_split)
    qed
  qed
  then show ?thesis by (simp add: group_operands_wf_def)
qed

lemma first_group_operands:
  "\<forall>g \<in> set gs. group_operands_wf g \<Longrightarrow> first_group gs code off opc = Inr i \<Longrightarrow> operands_wf i"
  by (induction gs) (auto simp: group_operands_wf_def split: option.splits)

lemma decode_opcode_operands: "decode_opcode code off opc = Inr i \<Longrightarrow> operands_wf i"
  unfolding decode_opcode_def
  by (rule first_group_operands [where gs = opcode_groups])
    (auto simp: opcode_groups_def simple_groups_operands string_operands register_groups_operands
      accumulator_operands modrm_arithmetic_operands move_modrm_operands group_immediate_operands
      ff_operands groups_operands)

lemma apply_prefixes_operands:
  "apply_prefixes off s i = Inr j \<Longrightarrow> operands_wf i \<Longrightarrow> operands_wf j"
  by (auto simp: apply_prefixes_def split: if_split_asm)

lemma decode_at_operands:
  assumes "decode_at code off = Inr i"
  shows "operands_wf i"
proof (cases "is_prefix (code ! off)")
  case False
  then show ?thesis
    using assms decode_at_inside [OF assms] by (auto simp: decode_at_plain dest: decode_opcode_operands)
next
  case True
  then show ?thesis
    using assms decode_at_inside [OF assms]
    by (auto simp: decode_at_prefixed bindE_eq_Inr split: if_split_asm
        dest: decode_opcode_operands apply_prefixes_operands)
qed

end
