(* ===== verification/RegisterSsa.thy ===== *)
theory RegisterSsa
  imports Prelude
begin

text \<open>
  \<open>ir/register_ssa.hpp\<close> and \<open>ir/register_ssa.cpp\<close>: the SSA builder. Its state is the value table
  \<open>values_\<close>. A \<open>register_state\<close> is an array with one slot per register; \<open>register_id::count\<close>, the
  enumerator after the last register, has no slot, so storing at it is outside the array.
\<close>

section \<open>Registers and values\<close>

datatype register_id =
  V_al | V_cl | V_dl | V_bl | V_ah | V_ch | V_dh | V_bh
| V_ax | V_bx | V_cx | V_dx | V_si | V_di | V_bp | V_sp | V_flags | V_count

fun index_of :: "register_id \<Rightarrow> nat" where
  "index_of V_al = 0" | "index_of V_cl = 1" | "index_of V_dl = 2" | "index_of V_bl = 3"
| "index_of V_ah = 4" | "index_of V_ch = 5" | "index_of V_dh = 6" | "index_of V_bh = 7"
| "index_of V_ax = 8" | "index_of V_bx = 9" | "index_of V_cx = 10" | "index_of V_dx = 11"
| "index_of V_si = 12" | "index_of V_di = 13" | "index_of V_bp = 14" | "index_of V_sp = 15"
| "index_of V_flags = 16" | "index_of V_count = 17"

lemma index_of_inject: "index_of r = index_of s \<longleftrightarrow> r = s"
  by (cases r; cases s) simp_all

text \<open>The order of the enumerators.\<close>

instantiation register_id :: linorder
begin
definition less_eq_register_id :: "register_id \<Rightarrow> register_id \<Rightarrow> bool" where
  "less_eq_register_id r s \<longleftrightarrow> index_of r \<le> index_of s"
definition less_register_id :: "register_id \<Rightarrow> register_id \<Rightarrow> bool" where
  "less_register_id r s \<longleftrightarrow> index_of r < index_of s"
instance
  by standard
    (auto simp: less_eq_register_id_def less_register_id_def index_of_inject [symmetric])
end

definition register_ids :: "register_id list" where
  "register_ids = [V_al, V_cl, V_dl, V_bl, V_ah, V_ch, V_dh, V_bh, V_ax, V_bx, V_cx, V_dx,
     V_si, V_di, V_bp, V_sp, V_flags]"

datatype value_kind = v_entry | v_definition | v_operation | v_phi

datatype operation_kind = op_add | op_subtract | op_and | op_or | op_xor | op_compare | op_test

record compare_flags =
  cf_zero :: bool
  cf_sign :: bool
  cf_carry :: bool
  cf_overflow :: bool

record ssa_value =
  sv_id :: nat
  sv_reg :: register_id
  sv_kind :: value_kind
  sv_inputs :: "nat list"
  sv_constant :: "u16 option"
  sv_operation :: "operation_kind option"

type_synonym ssa_table = "ssa_value list"
type_synonym register_state = "register_id \<Rightarrow> nat"

section \<open>The builder\<close>

definition entry_value :: "register_id \<Rightarrow> ssa_value" where
  "entry_value r = \<lparr>sv_id = index_of r, sv_reg = r, sv_kind = v_entry, sv_inputs = [],
     sv_constant = None, sv_operation = None\<rparr>"

definition builder_init :: ssa_table where
  "builder_init = map entry_value register_ids"

definition entry_state :: register_state where
  "entry_state = (\<lambda>r. index_of r)"

definition set_register :: "register_state \<Rightarrow> register_id \<Rightarrow> nat \<Rightarrow> ('e, register_state) res" where
  "set_register st r v = (if r = V_count then Inl Undefined else Inr (st(r := v)))"

text \<open>Each operation returns the table, the register state and the id of the new value.\<close>

type_synonym 'e ssa_result = "('e, ssa_table \<times> register_state \<times> nat) res"

definition push_value :: "ssa_table \<Rightarrow> register_state \<Rightarrow> register_id \<Rightarrow> ssa_value \<Rightarrow> 'e ssa_result" where
  "push_value vs st r v =
     bindE (set_register st r (length vs)) (\<lambda>st'. Inr (vs @ [v], st', length vs))"

definition ssa_define ::
  "ssa_table \<Rightarrow> register_state \<Rightarrow> register_id \<Rightarrow> nat list \<Rightarrow> 'e ssa_result" where
  "ssa_define vs st r inputs =
     push_value vs st r \<lparr>sv_id = length vs, sv_reg = r, sv_kind = v_definition, sv_inputs = inputs,
       sv_constant = None, sv_operation = None\<rparr>"

definition constant_value :: "nat \<Rightarrow> register_id \<Rightarrow> u16 \<Rightarrow> ssa_value" where
  "constant_value n r c = \<lparr>sv_id = n, sv_reg = r, sv_kind = v_definition, sv_inputs = [],
     sv_constant = Some c, sv_operation = None\<rparr>"

definition define_constant ::
  "ssa_table \<Rightarrow> register_state \<Rightarrow> register_id \<Rightarrow> u16 \<Rightarrow> 'e ssa_result" where
  "define_constant vs st r c = push_value vs st r (constant_value (length vs) r c)"

definition ssa_constant :: "ssa_table \<Rightarrow> register_id \<Rightarrow> u16 \<Rightarrow> ssa_table \<times> nat" where
  "ssa_constant vs r c = (vs @ [constant_value (length vs) r c], length vs)"

definition define_operation ::
  "ssa_table \<Rightarrow> register_state \<Rightarrow> register_id \<Rightarrow> operation_kind \<Rightarrow> nat list \<Rightarrow> 'e ssa_result" where
  "define_operation vs st r operation inputs =
     push_value vs st r \<lparr>sv_id = length vs, sv_reg = r, sv_kind = v_operation, sv_inputs = inputs,
       sv_constant = None, sv_operation = Some operation\<rparr>"

fun merge_registers ::
  "register_id list \<Rightarrow> ssa_table \<Rightarrow> register_state \<Rightarrow> register_state \<Rightarrow> register_state \<Rightarrow>
     ssa_table \<times> register_state" where
  "merge_registers [] vs first second merged = (vs, merged)"
| "merge_registers (r # rs) vs first second merged =
     (if first r = second r then merge_registers rs vs first second merged
      else merge_registers rs
        (vs @ [\<lparr>sv_id = length vs, sv_reg = r, sv_kind = v_phi, sv_inputs = [first r, second r],
                sv_constant = None, sv_operation = None\<rparr>])
        first second (merged(r := length vs)))"

definition merge :: "ssa_table \<Rightarrow> register_state \<Rightarrow> register_state \<Rightarrow> ssa_table \<times> register_state" where
  "merge vs first second = merge_registers register_ids vs first second first"

section \<open>Constants and flags\<close>

text \<open>The five operations with a 16-bit result; \<open>None\<close> for the comparisons.\<close>

fun fold_operation :: "operation_kind \<Rightarrow> u16 \<Rightarrow> u16 \<Rightarrow> u16 option" where
  "fold_operation op_add a b = Some (a + b)"
| "fold_operation op_subtract a b = Some (a - b)"
| "fold_operation op_and a b = Some (a AND b)"
| "fold_operation op_or a b = Some (a OR b)"
| "fold_operation op_xor a b = Some (a XOR b)"
| "fold_operation op_compare a b = None"
| "fold_operation op_test a b = None"

text \<open>The operation of a value with two constant inputs, where it has one.\<close>

definition constant_operands ::
  "ssa_table \<Rightarrow> ssa_value \<Rightarrow> ('e, (operation_kind \<times> u16 \<times> u16) option) res" where
  "constant_operands vs v =
     (case (sv_operation v, sv_inputs v) of
        (Some operation, [a, b]) \<Rightarrow>
          bindE (at vs a) (\<lambda>x. bindE (at vs b) (\<lambda>y.
            Inr (case (sv_constant x, sv_constant y) of
                   (Some c, Some d) \<Rightarrow> Some (operation, c, d) | _ \<Rightarrow> None)))
      | _ \<Rightarrow> Inr None)"

text \<open>
  The loop follows first inputs until it meets a constant. On a table with cyclic inputs it does
  not return, which is the outer \<open>None\<close>; \<open>resolve_constant_total\<close> shows that it returns on every
  table the builder makes.
\<close>

partial_function (option) resolve_constant ::
  "ssa_table \<Rightarrow> nat \<Rightarrow> (unit, u16 option) res option" where
  "resolve_constant vs current =
     (case at vs current of
        Inl e \<Rightarrow> Some (Inl e)
      | Inr value \<Rightarrow>
          (case sv_constant value of
             Some c \<Rightarrow> Some (Inr (Some c))
           | None \<Rightarrow>
               (case constant_operands vs value of
                  Inl e \<Rightarrow> Some (Inl e)
                | Inr (Some (operation, a, b)) \<Rightarrow> Some (Inr (fold_operation operation a b))
                | Inr None \<Rightarrow>
                    (case sv_inputs value of
                       [] \<Rightarrow> Some (Inr None)
                     | x # _ \<Rightarrow> resolve_constant vs x))))"

definition flags_of_compare :: "u16 \<Rightarrow> u16 \<Rightarrow> compare_flags" where
  "flags_of_compare left right =
     (let result16 = left - right;
          sign_change = ((sint left < 0) \<noteq> (sint right < 0))
      in \<lparr>cf_zero = (result16 = 0), cf_sign = (result16 AND 0x8000 \<noteq> 0), cf_carry = (left < right),
          cf_overflow = (sign_change \<and> (sint result16 < 0) \<noteq> (sint left < 0))\<rparr>)"

definition flags_of_test :: "u16 \<Rightarrow> u16 \<Rightarrow> compare_flags" where
  "flags_of_test left right =
     (let masked = left AND right
      in \<lparr>cf_zero = (masked = 0), cf_sign = (masked AND 0x8000 \<noteq> 0), cf_carry = False,
          cf_overflow = False\<rparr>)"

definition no_flags :: compare_flags where
  "no_flags = \<lparr>cf_zero = False, cf_sign = False, cf_carry = False, cf_overflow = False\<rparr>"

text \<open>The two operands of a comparison, resolved; \<open>None\<close> inside where either is unknown.\<close>

definition resolve_operands ::
  "ssa_table \<Rightarrow> ssa_value \<Rightarrow> (unit, (u16 \<times> u16) option) res option" where
  "resolve_operands vs value =
     (case sv_inputs value of
        [a, b] \<Rightarrow>
          (case resolve_constant vs a of
             None \<Rightarrow> None
           | Some (Inl e) \<Rightarrow> Some (Inl e)
           | Some (Inr left) \<Rightarrow>
               (case resolve_constant vs b of
                  None \<Rightarrow> None
                | Some (Inl e) \<Rightarrow> Some (Inl e)
                | Some (Inr right) \<Rightarrow>
                    Some (Inr (case (left, right) of
                                 (Some l, Some r) \<Rightarrow> Some (l, r) | _ \<Rightarrow> None))))
      | _ \<Rightarrow> Some (Inr None))"

definition flag_operation :: "ssa_value \<Rightarrow> (u16 \<Rightarrow> u16 \<Rightarrow> compare_flags) option" where
  "flag_operation value =
     (if sv_operation value = Some op_compare then Some flags_of_compare
      else if sv_operation value = Some op_test then Some flags_of_test else None)"

partial_function (option) resolve_compare_flags ::
  "ssa_table \<Rightarrow> nat \<Rightarrow> (unit, compare_flags) res option" where
  "resolve_compare_flags vs current =
     (case at vs current of
        Inl e \<Rightarrow> Some (Inl e)
      | Inr value \<Rightarrow>
          (case (case flag_operation value of
                   None \<Rightarrow> Some (Inr None)
                 | Some _ \<Rightarrow> resolve_operands vs value) of
             None \<Rightarrow> None
           | Some (Inl e) \<Rightarrow> Some (Inl e)
           | Some (Inr (Some (l, r))) \<Rightarrow> Some (Inr ((the (flag_operation value)) l r))
           | Some (Inr None) \<Rightarrow>
               (case sv_inputs value of
                  [] \<Rightarrow> Some (Inr no_flags)
                | x # _ \<Rightarrow> resolve_compare_flags vs x)))"

section \<open>Well-formed tables\<close>

text \<open>Dense ids and inputs that were defined earlier.\<close>

definition ssa_wf :: "ssa_table \<Rightarrow> bool" where
  "ssa_wf vs \<longleftrightarrow> (\<forall>i < length vs. sv_id (vs ! i) = i \<and> (\<forall>x \<in> set (sv_inputs (vs ! i)). x < i))"

definition state_wf :: "ssa_table \<Rightarrow> register_state \<Rightarrow> bool" where
  "state_wf vs st \<longleftrightarrow> (\<forall>r. r \<noteq> V_count \<longrightarrow> st r < length vs)"

lemma ssa_wf_id: "ssa_wf vs \<Longrightarrow> i < length vs \<Longrightarrow> sv_id (vs ! i) = i"
  by (simp add: ssa_wf_def)

lemma ssa_wf_input: "ssa_wf vs \<Longrightarrow> i < length vs \<Longrightarrow> x \<in> set (sv_inputs (vs ! i)) \<Longrightarrow> x < i"
  by (auto simp: ssa_wf_def)

lemma ssa_wf_snoc:
  "ssa_wf vs \<Longrightarrow> sv_id v = length vs \<Longrightarrow> \<forall>x \<in> set (sv_inputs v). x < length vs \<Longrightarrow> ssa_wf (vs @ [v])"
  by (auto simp: ssa_wf_def nth_append less_Suc_eq)

lemma state_wf_mono: "state_wf vs st \<Longrightarrow> length vs \<le> length ws \<Longrightarrow> state_wf ws st"
  by (auto simp: state_wf_def)

lemma state_wf_update: "state_wf vs st \<Longrightarrow> n < length vs \<Longrightarrow> state_wf vs (st(r := n))"
  by (auto simp: state_wf_def)

lemma builder_init_wf: "ssa_wf builder_init \<and> state_wf builder_init entry_state"
proof
  show "ssa_wf builder_init"
    by (auto simp: ssa_wf_def builder_init_def register_ids_def entry_value_def less_Suc_eq nth_Cons')
  show "state_wf builder_init entry_state"
    unfolding state_wf_def
  proof (intro allI impI)
    fix r assume "r \<noteq> V_count"
    then show "entry_state r < length builder_init"
      by (cases r) (simp_all add: entry_state_def builder_init_def register_ids_def)
  qed
qed

text \<open>What every operation promises: the table grows at the end and stays well formed.\<close>

definition extends :: "ssa_table \<Rightarrow> ssa_table \<Rightarrow> bool" where
  "extends vs ws \<longleftrightarrow> (\<exists>new. ws = vs @ new)"

lemma extends_refl [simp]: "extends vs vs"
  by (simp add: extends_def)

lemma extends_trans: "extends vs ws \<Longrightarrow> extends ws xs \<Longrightarrow> extends vs xs"
  by (auto simp: extends_def)

lemma extends_snoc [simp]: "extends vs (vs @ [v])"
  by (simp add: extends_def)

lemma extends_nth: "extends vs ws \<Longrightarrow> i < length vs \<Longrightarrow> ws ! i = vs ! i"
  by (auto simp: extends_def nth_append)

lemma extends_length: "extends vs ws \<Longrightarrow> length vs \<le> length ws"
  by (auto simp: extends_def)

lemma push_value_wf:
  assumes "push_value vs st r v = Inr (ws, st', n)" and wf: "ssa_wf vs" and st: "state_wf vs st"
    and v: "sv_id v = length vs" "\<forall>x \<in> set (sv_inputs v). x < length vs"
  shows "ssa_wf ws \<and> state_wf ws st' \<and> extends vs ws \<and> n = length vs \<and> ws ! n = v \<and>
    st' = st(r := n) \<and> length ws = Suc (length vs)"
proof -
  from assms(1) have eqs: "ws = vs @ [v]" "st' = st(r := length vs)" "n = length vs"
    by (auto simp: push_value_def set_register_def bindE_eq_Inr split: if_split_asm)
  have "state_wf (vs @ [v]) (st(r := length vs))"
    using st by (auto simp: state_wf_def less_SucI)
  then show ?thesis
    using ssa_wf_snoc [OF wf v] by (simp add: eqs)
qed

lemma ssa_define_wf:
  "ssa_define vs st r inputs = Inr (ws, st', n) \<Longrightarrow> ssa_wf vs \<Longrightarrow> state_wf vs st \<Longrightarrow>
     \<forall>x \<in> set inputs. x < length vs \<Longrightarrow> ssa_wf ws \<and> state_wf ws st' \<and> extends vs ws"
  unfolding ssa_define_def by (drule push_value_wf) auto

lemma define_constant_wf:
  "define_constant vs st r c = Inr (ws, st', n) \<Longrightarrow> ssa_wf vs \<Longrightarrow> state_wf vs st \<Longrightarrow>
     ssa_wf ws \<and> state_wf ws st' \<and> extends vs ws"
  unfolding define_constant_def by (drule push_value_wf) (auto simp: constant_value_def)

lemma define_operation_wf:
  "define_operation vs st r o1 inputs = Inr (ws, st', n) \<Longrightarrow> ssa_wf vs \<Longrightarrow> state_wf vs st \<Longrightarrow>
     \<forall>x \<in> set inputs. x < length vs \<Longrightarrow> ssa_wf ws \<and> state_wf ws st' \<and> extends vs ws"
  unfolding define_operation_def by (drule push_value_wf) auto

lemma ssa_constant_wf:
  "ssa_constant vs r c = (ws, n) \<Longrightarrow> ssa_wf vs \<Longrightarrow>
     ssa_wf ws \<and> extends vs ws \<and> n < length ws \<and> sv_constant (ws ! n) = Some c"
  by (auto simp: ssa_constant_def constant_value_def intro: ssa_wf_snoc)

lemma merge_registers_wf:
  "merge_registers rs vs first second merged = (ws, merged') \<Longrightarrow> ssa_wf vs \<Longrightarrow>
     state_wf vs first \<Longrightarrow> state_wf vs second \<Longrightarrow> state_wf vs merged \<Longrightarrow> V_count \<notin> set rs \<Longrightarrow>
     ssa_wf ws \<and> state_wf ws merged' \<and> extends vs ws"
proof (induction rs arbitrary: vs merged)
  case Nil
  then show ?case by simp
next
  case (Cons r rs)
  show ?case
  proof (cases "first r = second r")
    case True
    with Cons show ?thesis by simp
  next
    case False
    define v where "v = \<lparr>sv_id = length vs, sv_reg = r, sv_kind = v_phi,
      sv_inputs = [first r, second r], sv_constant = None, sv_operation = None\<rparr>"
    have "ssa_wf (vs @ [v])"
      using Cons.prems by (intro ssa_wf_snoc) (auto simp: v_def state_wf_def)
    moreover have "state_wf (vs @ [v]) first" "state_wf (vs @ [v]) second"
      "state_wf (vs @ [v]) (merged(r := length vs))"
      using Cons.prems by (auto simp: state_wf_def less_Suc_eq)
    moreover have "merge_registers rs (vs @ [v]) first second (merged(r := length vs)) = (ws, merged')"
      using Cons.prems(1) False by (simp add: v_def)
    moreover have "V_count \<notin> set rs" using Cons.prems(6) by simp
    ultimately have "ssa_wf ws \<and> state_wf ws merged' \<and> extends (vs @ [v]) ws"
      using Cons.IH by blast
    then show ?thesis using extends_trans [OF extends_snoc] by blast
  qed
qed

lemma merge_wf:
  "merge vs first second = (ws, merged) \<Longrightarrow> ssa_wf vs \<Longrightarrow> state_wf vs first \<Longrightarrow> state_wf vs second \<Longrightarrow>
     ssa_wf ws \<and> state_wf ws merged \<and> extends vs ws"
  unfolding merge_def by (drule (4) merge_registers_wf) (simp_all add: register_ids_def)

section \<open>Resolution returns on well-formed tables\<close>

lemma constant_operands_wf:
  assumes wf: "ssa_wf vs" and i: "i < length vs"
  obtains x where "constant_operands vs (vs ! i) = (Inr x :: ('e, _) res)"
proof -
  have bound: "y < length vs" if "y \<in> set (sv_inputs (vs ! i))" for y
    using wf i that unfolding ssa_wf_def by (meson order.strict_trans)
  have "\<exists>x. constant_operands vs (vs ! i) = (Inr x :: ('e, _) res)"
    using bound unfolding constant_operands_def
    by (auto split: option.splits list.splits)
  then show ?thesis using that by blast
qed

lemma resolve_constant_total:
  assumes wf: "ssa_wf vs"
  shows "i < length vs \<Longrightarrow> \<exists>c. resolve_constant vs i = Some (Inr c)"
proof (induction i rule: less_induct)
  case (less i)
  obtain x where x: "constant_operands vs (vs ! i) = (Inr x :: (unit, _) res)"
    using constant_operands_wf [OF wf less.prems] .
  have step: "\<exists>c. resolve_constant vs y = Some (Inr c)" if "sv_inputs (vs ! i) = y # ys" for y ys
  proof -
    from that wf less.prems have "y < i" by (auto simp: ssa_wf_def)
    with less show ?thesis by simp
  qed
  show ?case
    using x less.prems step
    by (subst resolve_constant.simps) (auto split: option.split list.split)
qed

lemma resolve_operands_total:
  assumes "ssa_wf vs" and "i < length vs"
  shows "\<exists>x. resolve_operands vs (vs ! i) = Some (Inr x)"
proof -
  have step: "\<exists>c. resolve_constant vs y = Some (Inr c)" if "y \<in> set (sv_inputs (vs ! i))" for y
  proof -
    from that assms have "y < i" by (auto simp: ssa_wf_def)
    with assms show ?thesis by (intro resolve_constant_total) simp_all
  qed
  show ?thesis
  proof (cases "\<exists>a b. sv_inputs (vs ! i) = [a, b]")
    case True
    then obtain a b where ab: "sv_inputs (vs ! i) = [a, b]" by blast
    obtain c d where "resolve_constant vs a = Some (Inr c)" "resolve_constant vs b = Some (Inr d)"
      using step [of a] step [of b] ab by auto
    with ab show ?thesis by (simp add: resolve_operands_def)
  next
    case False
    then show ?thesis by (auto simp: resolve_operands_def split: list.split)
  qed
qed

lemma resolve_compare_flags_total:
  assumes wf: "ssa_wf vs"
  shows "i < length vs \<Longrightarrow> \<exists>f. resolve_compare_flags vs i = Some (Inr f)"
proof (induction i rule: less_induct)
  case (less i)
  obtain x where x: "resolve_operands vs (vs ! i) = Some (Inr x)"
    using resolve_operands_total [OF wf less.prems] by blast
  have step: "\<exists>f. resolve_compare_flags vs y = Some (Inr f)" if "sv_inputs (vs ! i) = y # ys" for y ys
  proof -
    from that wf less.prems have "y < i" by (auto simp: ssa_wf_def)
    with less show ?thesis by simp
  qed
  show ?case
    using x less.prems step
    by (subst resolve_compare_flags.simps) (auto split: option.split list.split)
qed

end
