(* ===== verification/Optimizer.thy ===== *)
theory Optimizer
  imports RegisterSsa
begin

text \<open>
  The two analyses of \<open>optimizer/\<close> over the SSA table: \<open>constant_propagation.cpp\<close> and
  \<open>dead_value_elimination.cpp\<close>. Both read the table and return a vector with one entry per value.
\<close>

section \<open>Constant propagation\<close>

datatype propagation_error = pe_id_outside | pe_invalid_operation | pe_phi_input

text \<open>The inner loop over the inputs of a phi value, once its first input is known.\<close>

fun propagate_phi ::
  "nat \<Rightarrow> nat \<Rightarrow> nat list \<Rightarrow> u16 option list \<Rightarrow> (propagation_error, u16 option list) res" where
  "propagate_phi i first [] known = Inr known"
| "propagate_phi i first (x # xs) known =
     (if i \<le> x then Inl (Fail pe_phi_input)
      else if known ! x = None \<or> known ! x \<noteq> known ! first then Inr (known[i := None])
      else propagate_phi i first xs (known[i := known ! first]))"

definition propagate_operation ::
  "ssa_value \<Rightarrow> u16 option list \<Rightarrow> (propagation_error, u16 option list) res" where
  "propagate_operation value known =
     (case (sv_operation value, sv_inputs value) of
        (Some operation, [a, b]) \<Rightarrow>
          if sv_id value \<le> a \<or> sv_id value \<le> b then Inl (Fail pe_invalid_operation)
          else Inr (case (known ! a, known ! b) of
                      (Some x, Some y) \<Rightarrow>
                        (case fold_operation operation x y of
                           Some c \<Rightarrow> known[sv_id value := Some c]
                         | None \<Rightarrow> known)
                    | _ \<Rightarrow> known)
      | _ \<Rightarrow> Inl (Fail pe_invalid_operation))"

definition propagate_value ::
  "nat \<Rightarrow> ssa_value \<Rightarrow> u16 option list \<Rightarrow> (propagation_error, u16 option list) res" where
  "propagate_value n value known0 =
     (if n \<le> sv_id value then Inl (Fail pe_id_outside)
      else (let known = known0[sv_id value := sv_constant value]
            in if sv_kind value = v_operation then propagate_operation value known
               else if sv_kind value \<noteq> v_phi then Inr known
               else (case sv_inputs value of
                       [] \<Rightarrow> Inr known
                     | first # _ \<Rightarrow>
                         if sv_id value \<le> first then Inl (Fail pe_phi_input)
                         else if known ! first = None then Inr known
                         else propagate_phi (sv_id value) first (sv_inputs value) known)))"

fun propagate_values ::
  "nat \<Rightarrow> ssa_value list \<Rightarrow> u16 option list \<Rightarrow> (propagation_error, u16 option list) res" where
  "propagate_values n [] known = Inr known"
| "propagate_values n (v # vs) known =
     bindE (propagate_value n v known) (propagate_values n vs)"

definition propagate_constants ::
  "ssa_table \<Rightarrow> (propagation_error, u16 option list) res" where
  "propagate_constants vs = propagate_values (length vs) vs (replicate (length vs) None)"

subsection \<open>What the analysis computes\<close>

text \<open>The constant of one value, given those of the earlier values.\<close>

definition known_constant :: "u16 option list \<Rightarrow> ssa_value \<Rightarrow> u16 option" where
  "known_constant known value =
     (case sv_kind value of
        v_operation \<Rightarrow>
          (case (sv_operation value, sv_inputs value) of
             (Some operation, [a, b]) \<Rightarrow>
               (case (known ! a, known ! b) of
                  (Some x, Some y) \<Rightarrow>
                    (case fold_operation operation x y of Some c \<Rightarrow> Some c | None \<Rightarrow> sv_constant value)
                | _ \<Rightarrow> sv_constant value)
           | _ \<Rightarrow> sv_constant value)
      | v_phi \<Rightarrow>
          (case sv_inputs value of
             [] \<Rightarrow> sv_constant value
           | first # rest \<Rightarrow>
               (case known ! first of
                  None \<Rightarrow> sv_constant value
                | Some c \<Rightarrow> if \<forall>x \<in> set rest. known ! x = Some c then Some c else None))
      | _ \<Rightarrow> sv_constant value)"

text \<open>Every operation of the table has its operator and two inputs.\<close>

definition operations_wf :: "ssa_table \<Rightarrow> bool" where
  "operations_wf vs \<longleftrightarrow> (\<forall>v \<in> set vs. sv_kind v = v_operation \<longrightarrow>
     sv_operation v \<noteq> None \<and> length (sv_inputs v) = 2)"

lemma propagate_phi_exact:
  assumes "i < length known" and "known ! first = Some c" and "first < i"
    and "\<forall>x \<in> set xs. x < i"
  shows "propagate_phi i first xs (known[i := Some c]) =
    Inr (known[i := (if \<forall>x \<in> set xs. known ! x = Some c then Some c else None)])"
  using assms by (induction xs) auto

lemma propagate_value_exact:
  assumes "sv_id v < n" and "length known = n" and inputs: "\<forall>x \<in> set (sv_inputs v). x < sv_id v"
    and ops: "sv_kind v = v_operation \<longrightarrow> sv_operation v \<noteq> None \<and> length (sv_inputs v) = 2"
  shows "propagate_value n v known = Inr (known[sv_id v := known_constant known v])"
proof (cases "sv_kind v")
  case v_operation
  with ops obtain operation a b where ab: "sv_operation v = Some operation" "sv_inputs v = [a, b]"
    by (auto simp: numeral_2_eq_2 length_Suc_conv)
  then show ?thesis
    using assms v_operation
    by (auto simp: propagate_value_def propagate_operation_def known_constant_def Let_def
        split: option.split)
next
  case v_phi
  show ?thesis
  proof (cases "sv_inputs v")
    case Nil
    then show ?thesis
      using assms v_phi by (simp add: propagate_value_def known_constant_def)
  next
    case (Cons first rest)
    show ?thesis
    proof (cases "known ! first")
      case None
      then show ?thesis
        using assms v_phi Cons by (auto simp: propagate_value_def known_constant_def Let_def)
    next
      case (Some c)
      then show ?thesis
        using assms v_phi Cons propagate_phi_exact [of "sv_id v" known first c rest]
        by (auto simp: propagate_value_def known_constant_def Let_def)
    qed
  qed
qed (use assms in \<open>simp_all add: propagate_value_def known_constant_def\<close>)

text \<open>A constant depends on the entries of the inputs only.\<close>

lemma known_constant_cong:
  assumes "\<forall>x \<in> set (sv_inputs v). known ! x = known' ! x"
  shows "known_constant known v = known_constant known' v"
  using assms
  by (auto simp: known_constant_def split: value_kind.split option.split list.split)

definition exact_upto :: "ssa_table \<Rightarrow> nat \<Rightarrow> u16 option list \<Rightarrow> bool" where
  "exact_upto vs k known \<longleftrightarrow>
     length known = length vs \<and> (\<forall>i < k. known ! i = known_constant known (vs ! i))"

lemma exact_upto_step:
  assumes wf: "ssa_wf vs" and "k < length vs" and ex: "exact_upto vs k known"
  shows "exact_upto vs (Suc k) (known[k := known_constant known (vs ! k)])"
proof -
  let ?known = "known[k := known_constant known (vs ! k)]"
  have same: "known_constant ?known (vs ! i) = known_constant known (vs ! i)" if "i \<le> k" for i
  proof (rule known_constant_cong)
    show "\<forall>x \<in> set (sv_inputs (vs ! i)). ?known ! x = known ! x"
      using ssa_wf_input [OF wf, of i] assms(2) that by fastforce
  qed
  show ?thesis
    using assms same by (auto simp: exact_upto_def less_Suc_eq)
qed

lemma propagate_values_exact:
  assumes wf: "ssa_wf vs" and ops: "operations_wf vs"
  shows "exact_upto vs k known \<Longrightarrow> k \<le> length vs \<Longrightarrow>
    \<exists>known'. propagate_values (length vs) (drop k vs) known = Inr known' \<and>
      exact_upto vs (length vs) known'"
proof (induction "length vs - k" arbitrary: k known)
  case 0
  then show ?case by simp
next
  case (Suc m)
  then have k: "k < length vs" by simp
  have "propagate_value (length vs) (vs ! k) known =
      Inr (known[k := known_constant known (vs ! k)])"
    using wf ops k Suc.prems propagate_value_exact [of "vs ! k" "length vs" known]
    by (auto simp: ssa_wf_def operations_wf_def exact_upto_def)
  moreover have "exact_upto vs (Suc k) (known[k := known_constant known (vs ! k)])"
    using exact_upto_step [OF wf k Suc.prems(1)] .
  ultimately show ?case
    using Suc.hyps(1) [of "Suc k"] Suc.hyps(2) k
    by (simp add: Cons_nth_drop_Suc [symmetric])
qed

lemma propagate_constants_solves:
  assumes "ssa_wf vs" and "operations_wf vs"
  obtains known where "propagate_constants vs = Inr known" "exact_upto vs (length vs) known"
  using propagate_values_exact [OF assms, of 0 "replicate (length vs) None"]
  by (auto simp: propagate_constants_def exact_upto_def)

text \<open>The equations have one solution.\<close>

lemma exact_unique:
  assumes "ssa_wf vs" and "exact_upto vs (length vs) known" and "exact_upto vs (length vs) known'"
  shows "known = known'"
proof (rule nth_equalityI)
  show "length known = length known'" using assms by (simp add: exact_upto_def)
  fix i assume "i < length known"
  then show "known ! i = known' ! i"
  proof (induction i rule: less_induct)
    case (less i)
    have "known_constant known (vs ! i) = known_constant known' (vs ! i)"
      using less assms by (intro known_constant_cong) (force simp: ssa_wf_def exact_upto_def)
    then show ?case using less assms by (simp add: exact_upto_def)
  qed
qed

subsection \<open>Soundness\<close>

text \<open>
  A run gives every value a word: a constant its constant, an operation the result on the words of
  its inputs, a phi one of its inputs. Entry values and unknown definitions may be anything.
\<close>

definition consistent :: "ssa_table \<Rightarrow> (nat \<Rightarrow> u16) \<Rightarrow> bool" where
  "consistent vs val \<longleftrightarrow> (\<forall>i < length vs.
     (case sv_kind (vs ! i) of
        v_operation \<Rightarrow>
          (\<forall>operation a b c. sv_operation (vs ! i) = Some operation \<longrightarrow> sv_inputs (vs ! i) = [a, b] \<longrightarrow>
             fold_operation operation (val a) (val b) = Some c \<longrightarrow> val i = c)
      | v_phi \<Rightarrow> sv_inputs (vs ! i) \<noteq> [] \<longrightarrow> (\<exists>x \<in> set (sv_inputs (vs ! i)). val i = val x)
      | _ \<Rightarrow> True) \<and>
     (\<forall>c. sv_constant (vs ! i) = Some c \<longrightarrow> val i = c))"

lemma known_constant_sound:
  assumes "consistent vs val" and "i < length vs"
    and "\<forall>x \<in> set (sv_inputs (vs ! i)). \<forall>c. known ! x = Some c \<longrightarrow> val x = c"
    and "known_constant known (vs ! i) = Some c"
  shows "val i = c"
proof (cases "sv_kind (vs ! i)")
  case v_operation
  with assms show ?thesis
    by (fastforce simp: consistent_def known_constant_def split: option.split_asm list.split_asm)
next
  case v_phi
  with assms show ?thesis
    by (fastforce simp: consistent_def known_constant_def split: option.split_asm list.split_asm
        if_split_asm)
qed (use assms in \<open>auto simp: consistent_def known_constant_def\<close>)

lemma exact_sound:
  assumes wf: "ssa_wf vs" and ex: "exact_upto vs (length vs) known" and con: "consistent vs val"
  shows "i < length vs \<Longrightarrow> known ! i = Some c \<Longrightarrow> val i = c"
proof (induction i arbitrary: c rule: less_induct)
  case (less i)
  have "\<forall>x \<in> set (sv_inputs (vs ! i)). \<forall>c. known ! x = Some c \<longrightarrow> val x = c"
    using less wf by (force simp: ssa_wf_def)
  moreover have "known_constant known (vs ! i) = Some c"
    using ex less.prems by (simp add: exact_upto_def)
  ultimately show ?case using known_constant_sound [OF con less.prems(1)] by blast
qed

section \<open>Dead value elimination\<close>

datatype liveness_error = le_root_outside | le_not_dense | le_input_outside

lemma filter_Not_update:
  "i < length live \<Longrightarrow> \<not> live ! i \<Longrightarrow>
     length (filter Not (live[i := True])) < length (filter Not live)"
proof (induction live arbitrary: i)
  case (Cons a live)
  then show ?case by (cases i) auto
qed simp

text \<open>\<open>pending\<close> is a stack: the head of the list is the back of the vector.\<close>

function live_loop :: "ssa_table \<Rightarrow> bool list \<Rightarrow> nat list \<Rightarrow> (liveness_error, bool list) res" where
  "live_loop vs live [] = Inr live"
| "live_loop vs live (i # pending) =
     (if length vs \<le> i then Inl (Fail le_root_outside)
      else if length live \<le> i then Inl Undefined
      else if live ! i then live_loop vs live pending
      else if sv_id (vs ! i) \<noteq> i then Inl (Fail le_not_dense)
      else if \<exists>x \<in> set (sv_inputs (vs ! i)). length vs \<le> x then Inl (Fail le_input_outside)
      else live_loop vs (live[i := True]) (rev (sv_inputs (vs ! i)) @ pending))"
  by pat_completeness auto
termination
proof (relation "measures [\<lambda>(vs, live, pending). length (filter Not live),
    \<lambda>(vs, live, pending). length pending]")
  fix vs :: ssa_table and live :: "bool list" and i :: nat and pending :: "nat list"
  assume i: "\<not> length live \<le> i" "\<not> live ! i"
  then have "length (filter Not (live[i := True])) < length (filter Not live)"
    by (intro filter_Not_update) simp_all
  then show "((vs, live[i := True], rev (sv_inputs (vs ! i)) @ pending), (vs, live, i # pending))
      \<in> measures [\<lambda>(vs, live, pending). length (filter Not live),
          \<lambda>(vs, live, pending). length pending]"
    by simp
qed simp_all

definition live_values :: "ssa_table \<Rightarrow> nat list \<Rightarrow> (liveness_error, bool list) res" where
  "live_values vs roots = live_loop vs (replicate (length vs) False) (rev roots)"

subsection \<open>The live values are those the roots depend on\<close>

definition depends :: "ssa_table \<Rightarrow> (nat \<times> nat) set" where
  "depends vs = {(i, x). i < length vs \<and> x \<in> set (sv_inputs (vs ! i))}"

definition live_set :: "bool list \<Rightarrow> nat set" where
  "live_set live = {i. i < length live \<and> live ! i}"

lemma live_set_update [simp]: "i < length live \<Longrightarrow> live_set (live[i := True]) = insert i (live_set live)"
  by (auto simp: live_set_def nth_list_update)

definition needed_from :: "ssa_table \<Rightarrow> nat set \<Rightarrow> nat set" where
  "needed_from vs R = (depends vs)\<^sup>* `` R"

lemma needed_from_step:
  assumes i: "i < length vs"
  shows "needed_from vs (insert i R) = insert i (needed_from vs (set (sv_inputs (vs ! i)) \<union> R))"
proof -
  have "(i, j) \<in> (depends vs)\<^sup>* \<longleftrightarrow>
      j = i \<or> (\<exists>x \<in> set (sv_inputs (vs ! i)). (x, j) \<in> (depends vs)\<^sup>*)" for j
  proof
    assume "(i, j) \<in> (depends vs)\<^sup>*"
    then show "j = i \<or> (\<exists>x \<in> set (sv_inputs (vs ! i)). (x, j) \<in> (depends vs)\<^sup>*)"
      by (cases rule: converse_rtranclE) (auto simp: depends_def)
  next
    assume "j = i \<or> (\<exists>x \<in> set (sv_inputs (vs ! i)). (x, j) \<in> (depends vs)\<^sup>*)"
    then show "(i, j) \<in> (depends vs)\<^sup>*"
      using i by (auto simp: depends_def intro: converse_rtrancl_into_rtrancl)
  qed
  then have root: "needed_from vs {i} = insert i (needed_from vs (set (sv_inputs (vs ! i))))"
    by (intro set_eqI) (simp add: needed_from_def Image_iff)
  have split: "needed_from vs (S \<union> R) = needed_from vs S \<union> needed_from vs R" for S
    by (simp add: needed_from_def Image_Un)
  have "needed_from vs (insert i R) = needed_from vs {i} \<union> needed_from vs R"
    using split [of "{i}"] by simp
  then show ?thesis by (simp add: root split)
qed

text \<open>Closed sets absorb their dependencies.\<close>

definition settled :: "ssa_table \<Rightarrow> bool list \<Rightarrow> nat list \<Rightarrow> bool" where
  "settled vs live pending \<longleftrightarrow> length live = length vs \<and>
     (\<forall>i \<in> live_set live. set (sv_inputs (vs ! i)) \<subseteq> live_set live \<union> set pending)"

lemma settled_closed:
  assumes "settled vs live []"
  shows "needed_from vs (live_set live) = live_set live"
proof -
  have "j \<in> live_set live" if "(i, j) \<in> (depends vs)\<^sup>*" "i \<in> live_set live" for i j
    using that assms by (induction rule: rtrancl_induct) (auto simp: depends_def settled_def)
  then show ?thesis by (auto simp: needed_from_def)
qed

lemma needed_from_mono: "R \<subseteq> S \<Longrightarrow> needed_from vs R \<subseteq> needed_from vs S"
  by (auto simp: needed_from_def)

lemma live_loop_exact:
  assumes "ssa_wf vs" and "settled vs live pending" and "set pending \<subseteq> {..<length vs}"
  shows "\<exists>live'. live_loop vs live pending = Inr live' \<and> length live' = length vs \<and>
    live_set live' = needed_from vs (live_set live \<union> set pending)"
  using assms
proof (induction vs live pending rule: live_loop.induct)
  case (1 vs live)
  then show ?case using settled_closed [of vs live] by (simp add: settled_def)
next
  case (2 vs live i pending)
  then have i: "i < length vs" "i < length live" by (auto simp: settled_def)
  have dense: "sv_id (vs ! i) = i" "\<not> (\<exists>x \<in> set (sv_inputs (vs ! i)). length vs \<le> x)"
    using ssa_wf_id [OF "2.prems"(1) i(1)] ssa_wf_input [OF "2.prems"(1) i(1)] i(1)
    by (simp, meson not_le order.strict_trans)
  show ?case
  proof (cases "live ! i")
    case True
    then have mem: "i \<in> live_set live" using i by (simp add: live_set_def)
    then have "settled vs live pending" "live_set live \<union> set (i # pending) = live_set live \<union> set pending"
      using "2.prems"(2) by (auto simp: settled_def)
    then show ?thesis using 2 i True by simp
  next
    case False
    have "settled vs (live[i := True]) (rev (sv_inputs (vs ! i)) @ pending)"
      using "2.prems"(2) i by (auto simp: settled_def)
    moreover have "set (rev (sv_inputs (vs ! i)) @ pending) \<subseteq> {..<length vs}"
      using dense(2) "2.prems"(3) by (auto simp: not_le)
    ultimately obtain live' where "live_loop vs (live[i := True]) (rev (sv_inputs (vs ! i)) @ pending) =
        Inr live'" "length live' = length vs"
      and "live_set live' = needed_from vs (insert i (live_set live) \<union>
        set (rev (sv_inputs (vs ! i)) @ pending))"
      using "2.IH"(2) "2.prems"(1) i False dense by (auto simp: not_le)
    moreover have "needed_from vs (insert i (live_set live) \<union>
        set (rev (sv_inputs (vs ! i)) @ pending)) = needed_from vs (live_set live \<union> set (i # pending))"
      using needed_from_step [OF i(1)] by (simp add: Un_ac insert_absorb)
    ultimately show ?thesis using i False dense by simp
  qed
qed

end
