(* ===== verification/RealModeMemory.thy ===== *)
theory RealModeMemory
  imports Prelude
begin

text \<open>
  \<open>runtime/segmented_address.hpp\<close>, \<open>runtime/real_mode_memory.hpp\<close> and
  \<open>runtime/real_mode_memory.cpp\<close>: the 0x110000 bytes of 8086 physical memory behind
  bounds-checked byte and word accessors. The vector \<open>bytes_\<close> is allocated once with \<open>size\<close>
  elements and never resized, so it is a function on addresses, and the accessors check the bound
  \<open>memory_size\<close> as the code does. Addresses are \<open>std::uint32_t\<close>; they are numbers here and the
  one computation that could wrap, \<open>physical_address\<close>, writes the reduction out.
\<close>

datatype memory_error = AddressOutside | WordCrossesBoundary | RangeOutside

record real_mode_memory =
  mem_bytes :: "nat \<Rightarrow> byte"

definition memory_size :: nat where
  "memory_size = 0x110000"

definition real_mode_memory_init :: real_mode_memory where
  "real_mode_memory_init = \<lparr>mem_bytes = (\<lambda>_. 0)\<rparr>"

definition physical_address :: "u16 \<Rightarrow> u16 \<Rightarrow> nat" where
  "physical_address segment offset = (unat segment * 2 ^ 4 + unat offset) mod 2 ^ 32"

definition read8 :: "real_mode_memory \<Rightarrow> nat \<Rightarrow> (memory_error, byte) res" where
  "read8 m address =
     (if address \<ge> memory_size then Inl (Fail AddressOutside) else Inr (mem_bytes m address))"

definition write8 :: "real_mode_memory \<Rightarrow> nat \<Rightarrow> byte \<Rightarrow> (memory_error, real_mode_memory) res" where
  "write8 m address v =
     (if address \<ge> memory_size then Inl (Fail AddressOutside)
      else Inr (m\<lparr>mem_bytes := (mem_bytes m)(address := v)\<rparr>))"

definition read16 :: "real_mode_memory \<Rightarrow> nat \<Rightarrow> (memory_error, u16) res" where
  "read16 m address =
     (if address \<ge> memory_size \<or> memory_size - address < 2 then Inl (Fail WordCrossesBoundary)
      else Inr (le16 (mem_bytes m address) (mem_bytes m (address + 1))))"

definition write16 :: "real_mode_memory \<Rightarrow> nat \<Rightarrow> u16 \<Rightarrow> (memory_error, real_mode_memory) res" where
  "write16 m address v =
     (if address \<ge> memory_size \<or> memory_size - address < 2 then Inl (Fail WordCrossesBoundary)
      else Inr (m\<lparr>mem_bytes := (mem_bytes m)(address := lo8 v, address + 1 := hi8 v)\<rparr>))"

text \<open>\<open>std::copy\<close> of the span to \<open>bytes_.begin() + address\<close>.\<close>

fun copy_to :: "(nat \<Rightarrow> byte) \<Rightarrow> nat \<Rightarrow> byte list \<Rightarrow> nat \<Rightarrow> byte" where
  "copy_to f a [] = f"
| "copy_to f a (b # bs) = copy_to (f(a := b)) (Suc a) bs"

definition write_range :: "real_mode_memory \<Rightarrow> nat \<Rightarrow> byte list \<Rightarrow> (memory_error, real_mode_memory) res" where
  "write_range m address data =
     (if address > memory_size \<or> length data > memory_size - address then Inl (Fail RangeOutside)
      else Inr (m\<lparr>mem_bytes := copy_to (mem_bytes m) address data\<rparr>))"

definition read8_at :: "real_mode_memory \<Rightarrow> u16 \<Rightarrow> u16 \<Rightarrow> (memory_error, byte) res" where
  "read8_at m segment offset = read8 m (physical_address segment offset)"

definition write8_at ::
  "real_mode_memory \<Rightarrow> u16 \<Rightarrow> u16 \<Rightarrow> byte \<Rightarrow> (memory_error, real_mode_memory) res" where
  "write8_at m segment offset v = write8 m (physical_address segment offset) v"

definition read16_at :: "real_mode_memory \<Rightarrow> u16 \<Rightarrow> u16 \<Rightarrow> (memory_error, u16) res" where
  "read16_at m segment offset = read16 m (physical_address segment offset)"

definition write16_at ::
  "real_mode_memory \<Rightarrow> u16 \<Rightarrow> u16 \<Rightarrow> u16 \<Rightarrow> (memory_error, real_mode_memory) res" where
  "write16_at m segment offset v = write16 m (physical_address segment offset) v"

lemmas memory_defs = read8_def write8_def read16_def write16_def write_range_def
lemmas segmented_defs = read8_at_def write8_at_def read16_at_def write16_at_def

section \<open>Address arithmetic\<close>

lemma unat_u16_le: "unat (w :: u16) \<le> 65535"
  using unsigned_less [of w] by (simp add: less_Suc_eq_le [symmetric])

lemma physical_address_eq: "physical_address s off = unat s * 16 + unat off"
  using unat_u16_le [of s] unat_u16_le [of off] by (simp add: physical_address_def)

lemma physical_address_bound: "physical_address s off + 1 < memory_size"
  using unat_u16_le [of s] unat_u16_le [of off] by (simp add: physical_address_eq memory_size_def)

section \<open>The byte-store interface\<close>

text \<open>
  What the interrupt translators need of a memory: a byte written is read back, other bytes keep
  their value, and writes succeed exactly where reads do. A buffer copied byte by byte, as the
  \<open>INT 21h/3Fh\<close> handler does, is then read back as a whole.
\<close>

fun write_seq ::
  "('m \<Rightarrow> nat \<Rightarrow> byte \<Rightarrow> ('e, 'm) res) \<Rightarrow> 'm \<Rightarrow> nat \<Rightarrow> byte list \<Rightarrow> ('e, 'm) res" where
  "write_seq wr m a [] = Inr m"
| "write_seq wr m a (b # bs) = bindE (wr m a b) (\<lambda>m'. write_seq wr m' (Suc a) bs)"

locale byte_store =
  fixes rd :: "'m \<Rightarrow> nat \<Rightarrow> ('e, byte) res"
    and wr :: "'m \<Rightarrow> nat \<Rightarrow> byte \<Rightarrow> ('e, 'm) res"
  assumes rd_same: "wr m a v = Inr m' \<Longrightarrow> rd m' a = Inr v"
    and rd_other: "wr m a v = Inr m' \<Longrightarrow> b \<noteq> a \<Longrightarrow> rd m' b = rd m b"
    and wr_ok: "is_ok (wr m a v) = is_ok (rd m a)"
begin

lemma write_seq_frame:
  "write_seq wr m a bs = Inr m' \<Longrightarrow> b < a \<or> a + length bs \<le> b \<Longrightarrow> rd m' b = rd m b"
proof (induction bs arbitrary: m a)
  case Nil
  then show ?case by simp
next
  case (Cons x bs)
  then obtain m1 where 1: "wr m a x = Inr m1" and 2: "write_seq wr m1 (Suc a) bs = Inr m'"
    by (auto simp: bindE_eq_Inr)
  from 2 Cons.prems(2) have "rd m' b = rd m1 b" by (intro Cons.IH) auto
  also have "\<dots> = rd m b" using 1 Cons.prems(2) by (intro rd_other) auto
  finally show ?case .
qed

lemma write_seq_reads:
  "write_seq wr m a bs = Inr m' \<Longrightarrow> i < length bs \<Longrightarrow> rd m' (a + i) = Inr (bs ! i)"
proof (induction bs arbitrary: m a i)
  case Nil
  then show ?case by simp
next
  case (Cons x bs)
  then obtain m1 where 1: "wr m a x = Inr m1" and 2: "write_seq wr m1 (Suc a) bs = Inr m'"
    by (auto simp: bindE_eq_Inr)
  show ?case
  proof (cases i)
    case 0
    with 1 2 show ?thesis by (simp add: write_seq_frame rd_same)
  next
    case (Suc j)
    with Cons.IH [OF 2, of j] Cons.prems(2) show ?thesis by simp
  qed
qed

lemma write_seq_ok:
  "(\<And>i. i < length bs \<Longrightarrow> is_ok (rd m (a + i))) \<Longrightarrow> is_ok (write_seq wr m a bs)"
proof (induction bs arbitrary: m a)
  case Nil
  then show ?case by simp
next
  case (Cons x bs)
  have "is_ok (wr m a x)" using Cons.prems [of 0] by (simp add: wr_ok)
  then obtain m1 where 1: "wr m a x = Inr m1" by (auto simp: is_ok_iff)
  have "is_ok (rd m1 (Suc a + i))" if "i < length bs" for i
    using rd_other [OF 1, of "Suc a + i"] Cons.prems [of "Suc i"] that by simp
  from Cons.IH [OF this] 1 show ?case by simp
qed

end

interpretation mem: byte_store read8 write8
  by unfold_locales (auto simp: memory_defs split: if_splits)

section \<open>Word access and block copies\<close>

lemma copy_to_apply:
  "copy_to f a bs x = (if a \<le> x \<and> x < a + length bs then bs ! (x - a) else f x)"
  by (induction bs arbitrary: f a) (auto simp: nth_Cons' not_less less_Suc_eq_le)

lemma write_seq_copy_to:
  "a + length bs \<le> memory_size \<Longrightarrow>
   write_seq write8 m a bs = Inr (m\<lparr>mem_bytes := copy_to (mem_bytes m) a bs\<rparr>)"
  by (induction bs arbitrary: m a) (auto simp: write8_def)

lemma read16_bytes:
  "read8 m a = Inr lo \<Longrightarrow> read8 m (a + 1) = Inr hi \<Longrightarrow> read16 m a = Inr (le16 lo hi)"
  by (auto simp: memory_defs split: if_splits)

lemma write16_bytes: "a + 1 < memory_size \<Longrightarrow> write16 m a v = write_seq write8 m a [lo8 v, hi8 v]"
  by (auto simp: memory_defs)

lemma read16_write16: "write16 m a v = Inr m' \<Longrightarrow> read16 m' a = Inr v"
  by (auto simp: memory_defs split: if_splits)

lemma read16_write16_other:
  "write16 m a v = Inr m' \<Longrightarrow> b + 1 < a \<or> a + 1 < b \<Longrightarrow> read16 m' b = read16 m b"
  by (auto simp: memory_defs split: if_splits)

lemma read8_write16_other:
  "write16 m a v = Inr m' \<Longrightarrow> b < a \<or> a + 1 < b \<Longrightarrow> read8 m' b = read8 m b"
  by (auto simp: memory_defs split: if_splits)

lemma read16_at_ok: "is_ok (read16_at m s off)"
  using physical_address_bound [of s off] by (auto simp: segmented_defs memory_defs)

lemma write16_at_ok: "is_ok (write16_at m s off v)"
  using physical_address_bound [of s off] by (auto simp: segmented_defs memory_defs)

lemma read8_at_ok: "is_ok (read8_at m s off)"
  using physical_address_bound [of s off] by (auto simp: segmented_defs memory_defs)

lemma write8_at_ok: "is_ok (write8_at m s off v)"
  using physical_address_bound [of s off] by (auto simp: segmented_defs memory_defs)

end
