(* ===== verification/InstructionTranslator.thy ===== *)
theory InstructionTranslator
  imports DecoderOperands Optimizer RealModeMemory
begin

text \<open>
  \<open>semantics/instruction_translator.hpp\<close> and \<open>semantics/instruction_translator.cpp\<close>: the effect
  of one decoded instruction on the SSA table, the current register versions, the concrete register
  file and the real-mode memory. The two nullable pointers of \<open>translate\<close> are \<open>option\<close> fields. On an
  error the code returns without undoing anything; every caller then gives up, so the state reached
  is not part of the error.
\<close>

section \<open>Tables of the translator\<close>

fun compute_operation :: "operation_kind \<Rightarrow> u16 \<Rightarrow> u16 \<Rightarrow> u16" where
  "compute_operation op_add a b = a + b"
| "compute_operation op_subtract a b = a - b"
| "compute_operation op_and a b = a AND b"
| "compute_operation op_or a b = a OR b"
| "compute_operation op_xor a b = a XOR b"
| "compute_operation op_compare a b = 0"
| "compute_operation op_test a b = 0"

fun operation_for :: "alu_operation \<Rightarrow> operation_kind option" where
  "operation_for a_add = Some op_add"
| "operation_for a_subtract = Some op_subtract"
| "operation_for a_and = Some op_and"
| "operation_for a_or = Some op_or"
| "operation_for a_xor = Some op_xor"
| "operation_for a_compare = Some op_compare"
| "operation_for a_test = Some op_test"
| "operation_for _ = None"

fun register_for :: "register_name \<Rightarrow> register_id option" where
  "register_for R_al = Some V_al" | "register_for R_cl = Some V_cl"
| "register_for R_dl = Some V_dl" | "register_for R_bl = Some V_bl"
| "register_for R_ah = Some V_ah" | "register_for R_ch = Some V_ch"
| "register_for R_dh = Some V_dh" | "register_for R_bh = Some V_bh"
| "register_for R_ax = Some V_ax" | "register_for R_bx = Some V_bx"
| "register_for R_cx = Some V_cx" | "register_for R_dx = Some V_dx"
| "register_for R_si = Some V_si" | "register_for R_di = Some V_di"
| "register_for R_bp = Some V_bp" | "register_for R_sp = Some V_sp"
| "register_for _ = None"

text \<open>The name under which an SSA register sits in the concrete file.\<close>

fun name_of :: "register_id \<Rightarrow> register_name option" where
  "name_of V_al = Some R_al" | "name_of V_cl = Some R_cl"
| "name_of V_dl = Some R_dl" | "name_of V_bl = Some R_bl"
| "name_of V_ah = Some R_ah" | "name_of V_ch = Some R_ch"
| "name_of V_dh = Some R_dh" | "name_of V_bh = Some R_bh"
| "name_of V_ax = Some R_ax" | "name_of V_bx = Some R_bx"
| "name_of V_cx = Some R_cx" | "name_of V_dx = Some R_dx"
| "name_of V_si = Some R_si" | "name_of V_di = Some R_di"
| "name_of V_bp = Some R_bp" | "name_of V_sp = Some R_sp"
| "name_of V_flags = None" | "name_of V_count = None"

definition concrete_value :: "register_id \<Rightarrow> register_values \<Rightarrow> u16" where
  "concrete_value r values = (case name_of r of Some n \<Rightarrow> values n | None \<Rightarrow> 0)"

text \<open>The byte halves of the four word registers, as (word, high, low).\<close>

fun halves_of :: "register_id \<Rightarrow> (register_name \<times> register_name \<times> register_name) option" where
  "halves_of V_al = Some (R_ax, R_ah, R_al)" | "halves_of V_ah = Some (R_ax, R_ah, R_al)"
| "halves_of V_cl = Some (R_cx, R_ch, R_cl)" | "halves_of V_ch = Some (R_cx, R_ch, R_cl)"
| "halves_of V_dl = Some (R_dx, R_dh, R_dl)" | "halves_of V_dh = Some (R_dx, R_dh, R_dl)"
| "halves_of V_bl = Some (R_bx, R_bh, R_bl)" | "halves_of V_bh = Some (R_bx, R_bh, R_bl)"
| "halves_of _ = None"

definition merge_into_word ::
  "register_name \<Rightarrow> register_name \<Rightarrow> register_name \<Rightarrow> register_values \<Rightarrow> register_values" where
  "merge_into_word high_byte low_byte word_reg values =
     values(word_reg := push_bit 8 (values high_byte) OR values low_byte)"

definition store_concrete :: "register_id \<Rightarrow> u16 \<Rightarrow> register_values \<Rightarrow> register_values" where
  "store_concrete r v values =
     (case name_of r of
        None \<Rightarrow> values
      | Some n \<Rightarrow>
          (case halves_of r of
             Some (word_reg, high, low) \<Rightarrow>
               merge_into_word high low word_reg (values(n := ucast (ucast v :: byte)))
           | None \<Rightarrow> values(n := v)))"

section \<open>Translation\<close>

datatype translation_error =
  InstructionOutsideSource | ArithmeticNotImplemented | ArithmeticSourceNotSsa
| CallNeedsState | CallWriteFailed memory_error | ReturnNeedsState | ReturnReadFailed memory_error
| StackNeedsState | StackRegisterNotSsa | PopReadFailed memory_error | PushWriteFailed memory_error
| NotImplemented | StoreNeedsState | StoreSourceUnsupported | StoreAddressUnresolved
| StoreSourceNotSsa | StoreWriteFailed memory_error | MoveDestinationUnsupported
| MoveDestinationNotSsa | LoadNeedsState | LoadAddressUnresolved | LoadReadFailed memory_error
| MoveSourceNotSsa

record memory_access =
  ma_is_write :: bool
  ma_physical_address :: nat
  ma_width :: operand_width

record semantic_effect =
  ef_destination :: register_id
  ef_ssa_value :: nat
  ef_immediate :: "u16 option"
  ef_memory :: "memory_access option"

record machine =
  mc_table :: ssa_table
  mc_state :: register_state
  mc_registers :: "register_values option"
  mc_memory :: "real_mode_memory option"

type_synonym translation = "(translation_error, semantic_effect \<times> machine) res"

definition failed :: "translation_error \<Rightarrow> (translation_error, 'a) res" where
  "failed e = Inl (Fail e)"

text \<open>Both pointers, or the error of the instruction class.\<close>

definition with_concrete ::
  "machine \<Rightarrow> translation_error \<Rightarrow> (register_values \<Rightarrow> real_mode_memory \<Rightarrow> translation) \<Rightarrow> translation" where
  "with_concrete m e k =
     (case (mc_registers m, mc_memory m) of (Some r, Some mem) \<Rightarrow> k r mem | _ \<Rightarrow> failed e)"

text \<open>The last step of most instructions: a constant version of one register is defined.\<close>

definition define_effect ::
  "machine \<Rightarrow> register_id \<Rightarrow> u16 \<Rightarrow> memory_access option \<Rightarrow> register_values option \<Rightarrow>
     real_mode_memory option \<Rightarrow> translation" where
  "define_effect m r v access registers memory =
     bindE (define_constant (mc_table m) (mc_state m) r v) (\<lambda>(vs, st, n).
       Inr (\<lparr>ef_destination = r, ef_ssa_value = n, ef_immediate = Some v, ef_memory = access\<rparr>,
            \<lparr>mc_table = vs, mc_state = st, mc_registers = registers, mc_memory = memory\<rparr>))"

definition access_at :: "bool \<Rightarrow> u16 \<Rightarrow> u16 \<Rightarrow> operand_width \<Rightarrow> memory_access" where
  "access_at is_write segment offset width =
     \<lparr>ma_is_write = is_write, ma_physical_address = (unat segment * 16 + unat offset) mod 2 ^ 32,
      ma_width = width\<rparr>"

subsection \<open>Arithmetic and comparison\<close>

definition is_register_arithmetic :: "instruction \<Rightarrow> bool" where
  "is_register_arithmetic i \<longleftrightarrow>
     (let (a, b) = ins_operands i
      in (ins_kind i = k_arithmetic \<or> ins_kind i = k_compare) \<and> ins_operand_count i = 2 \<and>
         op_kind a = o_reg \<and> (op_kind b = o_immediate \<or> op_kind b = o_reg) \<and> op_width a = op_width b)"

definition arithmetic_source ::
  "machine \<Rightarrow> register_id \<Rightarrow> operand \<Rightarrow> (translation_error, ssa_table \<times> nat) res" where
  "arithmetic_source m destination source =
     (if op_kind source = o_immediate then
        Inr (ssa_constant (mc_table m) destination (op_immediate source))
      else (case register_for (op_reg source) of
              None \<Rightarrow> failed ArithmeticSourceNotSsa
            | Some s \<Rightarrow> Inr (mc_table m, mc_state m s)))"

definition concrete_arithmetic ::
  "ssa_table \<Rightarrow> operation_kind \<Rightarrow> register_id \<Rightarrow> nat \<Rightarrow> nat \<Rightarrow> register_values option \<Rightarrow>
     (translation_error, register_values option) res" where
  "concrete_arithmetic vs operation result_register input source registers =
     (case registers of
        None \<Rightarrow> Inr None
      | Some r \<Rightarrow>
          bindE (at vs input) (\<lambda>x. bindE (at vs source) (\<lambda>y.
            Inr (case (sv_constant x, sv_constant y) of
                   (Some a, Some b) \<Rightarrow>
                     if result_register = V_flags then Some r
                     else Some (store_concrete result_register (compute_operation operation a b) r)
                 | _ \<Rightarrow> Some r))))"

definition result_register :: "operation_kind \<Rightarrow> register_id \<Rightarrow> register_id" where
  "result_register operation destination =
     (if operation = op_compare \<or> operation = op_test then V_flags else destination)"

definition translate_arithmetic :: "instruction \<Rightarrow> machine \<Rightarrow> translation" where
  "translate_arithmetic i m =
     (let (a, b) = ins_operands i
      in case (register_for (op_reg a), operation_for (ins_alu i)) of
           (Some destination, Some operation) \<Rightarrow>
             (let input = mc_state m destination;
                  target = result_register operation destination
              in bindE (arithmetic_source m destination b) (\<lambda>(vs, source).
                 bindE (define_operation vs (mc_state m) target operation [input, source]) (\<lambda>(ws, st, n).
                 bindE (concrete_arithmetic ws operation target input source (mc_registers m)) (\<lambda>regs.
                   Inr (\<lparr>ef_destination = target, ef_ssa_value = n, ef_immediate = None,
                         ef_memory = None\<rparr>,
                        m\<lparr>mc_table := ws, mc_state := st, mc_registers := regs\<rparr>)))))
         | _ \<Rightarrow> failed ArithmeticNotImplemented)"

subsection \<open>CALL, RET, PUSH and POP\<close>

definition translate_call :: "instruction \<Rightarrow> machine \<Rightarrow> u16 \<Rightarrow> translation" where
  "translate_call i m segment =
     with_concrete m CallNeedsState (\<lambda>registers memory.
       (let new_sp = concrete_value V_sp registers - 2;
            return_ip = word_of_nat (ins_offset i + ins_size i)
        in bindE (wrapE CallWriteFailed (write16_at memory segment new_sp return_ip)) (\<lambda>memory'.
             define_effect m V_sp new_sp (Some (access_at True segment new_sp w_word))
               (Some (store_concrete V_sp new_sp registers)) (Some memory'))))"

definition translate_return :: "byte list \<Rightarrow> instruction \<Rightarrow> machine \<Rightarrow> u16 \<Rightarrow> translation" where
  "translate_return code i m segment =
     with_concrete m ReturnNeedsState (\<lambda>registers memory.
       (let current_sp = concrete_value V_sp registers
        in bindE (wrapE ReturnReadFailed (read16_at memory segment current_sp)) (\<lambda>_.
           bindE (if ins_size i = 3 then
                    bindE (at code (ins_offset i + 1)) (\<lambda>lo.
                    bindE (at code (ins_offset i + 2)) (\<lambda>hi. Inr (2 + le16 lo hi)))
                  else Inr 2) (\<lambda>adjust.
             define_effect m V_sp (current_sp + adjust)
               (Some (access_at False segment current_sp w_word))
               (Some (store_concrete V_sp (current_sp + adjust) registers)) (Some memory)))))"

definition is_stack_register :: "instruction \<Rightarrow> bool" where
  "is_stack_register i \<longleftrightarrow> ins_kind i = k_stack \<and> ins_size i = 1 \<and> ins_operand_count i = 1 \<and>
     op_kind (fst (ins_operands i)) = o_reg \<and> op_width (fst (ins_operands i)) = w_word"

definition translate_pop :: "register_id \<Rightarrow> machine \<Rightarrow> u16 \<Rightarrow> register_values \<Rightarrow> real_mode_memory \<Rightarrow> translation" where
  "translate_pop r m segment registers memory =
     (let current_sp = concrete_value V_sp registers
      in bindE (wrapE PopReadFailed (read16_at memory segment current_sp)) (\<lambda>v.
           define_effect m r v (Some (access_at False segment current_sp w_word))
             (Some (store_concrete V_sp (current_sp + 2) (store_concrete r v registers)))
             (Some memory)))"

definition translate_push :: "register_id \<Rightarrow> machine \<Rightarrow> u16 \<Rightarrow> register_values \<Rightarrow> real_mode_memory \<Rightarrow> translation" where
  "translate_push r m segment registers memory =
     (let new_sp = concrete_value V_sp registers - 2
      in bindE (wrapE PushWriteFailed (write16_at memory segment new_sp (concrete_value r registers)))
           (\<lambda>memory'. define_effect m V_sp new_sp (Some (access_at True segment new_sp w_word))
             (Some (store_concrete V_sp new_sp registers)) (Some memory')))"

definition translate_stack :: "instruction \<Rightarrow> machine \<Rightarrow> u16 \<Rightarrow> translation" where
  "translate_stack i m segment =
     with_concrete m StackNeedsState (\<lambda>registers memory.
       (case register_for (op_reg (fst (ins_operands i))) of
          None \<Rightarrow> failed StackRegisterNotSsa
        | Some r \<Rightarrow> if ins_stack_pop i then translate_pop r m segment registers memory
                    else translate_push r m segment registers memory))"

subsection \<open>MOV\<close>

definition store_value ::
  "operand \<Rightarrow> register_values \<Rightarrow> (translation_error, u16) res" where
  "store_value source registers =
     (if op_kind source = o_immediate then Inr (op_immediate source)
      else (case register_for (op_reg source) of
              None \<Rightarrow> failed StoreSourceNotSsa
            | Some s \<Rightarrow> Inr (concrete_value s registers)))"

definition resolve_with ::
  "translation_error \<Rightarrow> operand \<Rightarrow> register_values \<Rightarrow> (translation_error, u16) res" where
  "resolve_with e operand registers = wrapE (\<lambda>_. e) (effective_address operand registers)"

text \<open>
  The effect of a store is reported for the pseudo register \<open>count\<close>: the last step indexes the
  register array one past its end.
\<close>

definition translate_store :: "operand \<Rightarrow> operand \<Rightarrow> machine \<Rightarrow> u16 \<Rightarrow> translation" where
  "translate_store destination source m segment =
     with_concrete m StoreNeedsState (\<lambda>registers memory.
       if op_kind source \<noteq> o_reg \<and> op_kind source \<noteq> o_immediate then failed StoreSourceUnsupported
       else
         bindE (resolve_with StoreAddressUnresolved destination registers) (\<lambda>offset.
         bindE (store_value source registers) (\<lambda>v.
         bindE (wrapE StoreWriteFailed
                  (if op_width destination = w_byte then write8_at memory segment offset (ucast v)
                   else write16_at memory segment offset v)) (\<lambda>memory'.
         bindE (ssa_define (mc_table m) (mc_state m) V_count []) (\<lambda>(vs, st, n).
           Inr (\<lparr>ef_destination = V_count, ef_ssa_value = n, ef_immediate = None,
                 ef_memory = Some (access_at True segment offset (op_width destination))\<rparr>,
                m\<lparr>mc_table := vs, mc_state := st, mc_memory := Some memory'\<rparr>))))))"

definition translate_load :: "register_id \<Rightarrow> operand_width \<Rightarrow> operand \<Rightarrow> machine \<Rightarrow> u16 \<Rightarrow> translation" where
  "translate_load destination width source m segment =
     with_concrete m LoadNeedsState (\<lambda>registers memory.
       bindE (resolve_with LoadAddressUnresolved source registers) (\<lambda>offset.
       bindE (wrapE LoadReadFailed
                (if width = w_byte then bindE (read8_at memory segment offset) (\<lambda>b. Inr (ucast b))
                 else read16_at memory segment offset)) (\<lambda>v.
         define_effect m destination v (Some (access_at False segment offset width))
           (Some (store_concrete destination v registers)) (Some memory))))"

definition copy_register :: "register_id \<Rightarrow> operand \<Rightarrow> machine \<Rightarrow> translation" where
  "copy_register destination source m =
     (case register_for (op_reg source) of
        None \<Rightarrow> failed MoveSourceNotSsa
      | Some s \<Rightarrow>
          bindE (ssa_define (mc_table m) (mc_state m) destination [mc_state m s]) (\<lambda>(vs, st, n).
          bindE (case mc_registers m of
                   None \<Rightarrow> Inr None
                 | Some r \<Rightarrow> bindE (at vs (mc_state m s)) (\<lambda>x.
                     Inr (Some (case sv_constant x of Some c \<Rightarrow> store_concrete destination c r
                                | None \<Rightarrow> r)))) (\<lambda>regs.
            Inr (\<lparr>ef_destination = destination, ef_ssa_value = n, ef_immediate = None, ef_memory = None\<rparr>,
                 m\<lparr>mc_table := vs, mc_state := st, mc_registers := regs\<rparr>))))"

definition translate_move :: "instruction \<Rightarrow> machine \<Rightarrow> u16 \<Rightarrow> translation" where
  "translate_move i m segment =
     (let (a, b) = ins_operands i
      in if op_kind a = o_memory then translate_store a b m segment
         else if op_kind a \<noteq> o_reg then failed MoveDestinationUnsupported
         else (case register_for (op_reg a) of
                 None \<Rightarrow> failed MoveDestinationNotSsa
               | Some destination \<Rightarrow>
                   if op_kind b = o_memory then translate_load destination (op_width a) b m segment
                   else if op_kind b = o_immediate then
                     define_effect m destination (op_immediate b) None
                       (map_option (store_concrete destination (op_immediate b)) (mc_registers m))
                       (mc_memory m)
                   else copy_register destination b m))"

definition translate :: "byte list \<Rightarrow> instruction \<Rightarrow> machine \<Rightarrow> u16 \<Rightarrow> translation" where
  "translate code i m segment =
     (if ins_offset i > length code \<or> length code - ins_offset i < ins_size i
      then failed InstructionOutsideSource
      else if is_register_arithmetic i then translate_arithmetic i m
      else if ins_kind i = k_call \<and> ins_size i = 3 then translate_call i m segment
      else if ins_kind i = k_return \<and> (ins_size i = 1 \<or> ins_size i = 3)
        then translate_return code i m segment
      else if is_stack_register i then translate_stack i m segment
      else if (ins_kind i \<noteq> k_move_immediate \<and> ins_kind i \<noteq> k_move) \<or> ins_operand_count i \<noteq> 2
        then failed NotImplemented
      else translate_move i m segment)"

end
