(* ===== verification/ExitCompiler.thy ===== *)
theory ExitCompiler
  imports BinaryLoader InstructionTranslator ElfRun
begin

text \<open>
  \<open>compiler/exit_program_compiler.hpp\<close> and \<open>compiler/exit_program_compiler.cpp\<close>: the first compiler,
  for programs that set the exit code and terminate, with at most one string printed before.
\<close>

section \<open>Helpers\<close>

datatype exit_error =
  EntryUndecodable decode_error | OnlyNops | ExitUndecodable decode_error | NoExitSequence
| ConsoleNeedsCom | NotConsoleEntry | StringOutsideImage | NoConsoleInterrupt | StringUnterminated
| ByteEntryUndecodable decode_error | NotByteMove | NotAhOrAl | AhAlNotBothSet
| NoInterruptExit | NotMovAx | NoInterrupt21 | ExitArithmeticUnsupported

text \<open>A result whose error is only tested for; undefined behaviour is not an error.\<close>

fun attempt :: "('e, 'a) res \<Rightarrow> ('f, 'a option) res" where
  "attempt (Inr x) = Inr (Some x)"
| "attempt (Inl (Fail e)) = Inr None"
| "attempt (Inl Undefined) = Inl Undefined"

function skip_nops :: "byte list \<Rightarrow> nat \<Rightarrow> (exit_error, nat) res" where
  "skip_nops code offset =
     (if offset < length code then
        bindE (wrapE EntryUndecodable (decode_at code offset)) (\<lambda>i.
          if ins_kind i \<noteq> k_nop then Inr offset else skip_nops code (offset + ins_size i))
      else Inl (Fail OnlyNops))"
  by pat_completeness auto
termination
  by (relation "measure (\<lambda>(code, offset). length code - offset)") (auto dest: dec.dec_progress)

declare skip_nops.simps [simp del]

definition is_exit_interrupt :: "byte list \<Rightarrow> nat \<Rightarrow> (exit_error, bool) res" where
  "is_exit_interrupt code offset =
     bindE (attempt (decode_at code offset)) (\<lambda>r.
       Inr (case r of None \<Rightarrow> False
            | Some i \<Rightarrow> ins_kind i = k_interrupt \<and> ins_interrupt_number i = 0x21))"

definition extract_exit_code_at :: "byte list \<Rightarrow> nat \<Rightarrow> (exit_error, byte) res" where
  "extract_exit_code_at code offset =
     bindE (wrapE ExitUndecodable (decode_at code offset)) (\<lambda>move.
       if ins_kind move = k_move_immediate \<and> ins_size move = 3 \<and> code ! offset = 0xb8 \<and>
          offset + 3 \<le> length code then
         (let immediate = le16 (code ! (offset + 1)) (code ! (offset + 2))
          in bindE (attempt (skip_nops code (offset + ins_size move))) (\<lambda>interrupt.
             bindE (case interrupt of None \<Rightarrow> Inr False | Some p \<Rightarrow> is_exit_interrupt code p) (\<lambda>exits.
               if exits \<and> hi8 immediate = 0x4c then Inr (lo8 immediate) else Inl (Fail NoExitSequence))))
       else Inl (Fail NoExitSequence))"

section \<open>The console pattern\<close>

text \<open>The bytes up to the first \<open>'$'\<close>.\<close>

fun dollar_string :: "byte list \<Rightarrow> byte list option" where
  "dollar_string [] = None"
| "dollar_string (c # cs) = (if c = 0x24 then Some [] else map_option ((#) c) (dollar_string cs))"

definition emitted :: "(unit, byte list) res \<Rightarrow> (exit_error, byte list) res" where
  "emitted r = wrapE (\<lambda>_. NoExitSequence) r"

definition compile_console_program :: "program_image \<Rightarrow> (exit_error, byte list) res" where
  "compile_console_program img =
     (if img_format img \<noteq> com then Inl (Fail ConsoleNeedsCom)
      else (let bytes = img_bytes img in
        bindE (skip_nops bytes (entry_offset img)) (\<lambda>entry.
          if length bytes - entry < 5 \<or> bytes ! entry \<noteq> 0xba \<or> bytes ! (entry + 3) \<noteq> 0xb4 \<or>
             bytes ! (entry + 4) \<noteq> 0x09 then Inl (Fail NotConsoleEntry)
          else (let dx = unat (le16 (bytes ! (entry + 1)) (bytes ! (entry + 2)))
            in if dx < 0x100 \<or> dx - 0x100 \<ge> length bytes then Inl (Fail StringOutsideImage)
            else
              bindE (attempt (skip_nops bytes (entry + 5))) (\<lambda>interrupt.
              bindE (case interrupt of None \<Rightarrow> Inr False | Some p \<Rightarrow> is_exit_interrupt bytes p) (\<lambda>calls.
                case (interrupt, calls) of
                  (Some p, True) \<Rightarrow>
                    bindE (skip_nops bytes (p + 2)) (\<lambda>exit_offset.
                    bindE (extract_exit_code_at bytes exit_offset) (\<lambda>exit_code.
                      case dollar_string (drop (dx - 0x100) bytes) of
                        None \<Rightarrow> Inl (Fail StringUnterminated)
                      | Some message \<Rightarrow> emitted (emit_write_exit_executable message exit_code)))
                | _ \<Rightarrow> Inl (Fail NoConsoleInterrupt)))))))"

section \<open>The exit code\<close>

record byte_exit =
  be_ah :: byte
  be_al :: byte
  be_saw_ah :: bool
  be_saw_al :: bool

definition byte_exit_done :: "byte_exit \<Rightarrow> (exit_error, u16) res" where
  "byte_exit_done s =
     (if \<not> be_saw_ah s \<or> \<not> be_saw_al s then Inl (Fail AhAlNotBothSet)
      else Inr (le16 (be_al s) (be_ah s)))"

definition is_byte_move :: "instruction \<Rightarrow> bool" where
  "is_byte_move i \<longleftrightarrow> ins_kind i = k_move_immediate \<and> ins_size i = 2 \<and>
     op_kind (fst (ins_operands i)) = o_reg \<and> op_width (fst (ins_operands i)) = w_byte"

function combine_byte_exit :: "byte list \<Rightarrow> nat \<Rightarrow> byte_exit \<Rightarrow> (exit_error, u16) res" where
  "combine_byte_exit code cursor s =
     (if cursor < length code then
        bindE (wrapE ByteEntryUndecodable (decode_at code cursor)) (\<lambda>i.
          if ins_kind i = k_interrupt then byte_exit_done s
          else if \<not> is_byte_move i then Inl (Fail NotByteMove)
          else (let imm = lo8 (op_immediate (snd (ins_operands i)));
                    reg = op_reg (fst (ins_operands i))
                in if reg = R_ah then
                     combine_byte_exit code (cursor + ins_size i) (s\<lparr>be_ah := imm, be_saw_ah := True\<rparr>)
                   else if reg = R_al then
                     combine_byte_exit code (cursor + ins_size i) (s\<lparr>be_al := imm, be_saw_al := True\<rparr>)
                   else Inl (Fail NotAhOrAl)))
      else byte_exit_done s)"
  by pat_completeness auto
termination
  by (relation "measure (\<lambda>(code, cursor, s). length code - cursor)") (auto dest: dec.dec_progress)

declare combine_byte_exit.simps [simp del]

definition combine_start :: byte_exit where
  "combine_start = \<lparr>be_ah = 0, be_al = 0, be_saw_ah = False, be_saw_al = False\<rparr>"

text \<open>The last check of the byte and word forms.\<close>

definition finish_exit :: "byte list \<Rightarrow> nat \<Rightarrow> u16 \<Rightarrow> (exit_error, byte) res" where
  "finish_exit code interrupt exit_value =
     bindE (is_exit_interrupt code interrupt) (\<lambda>exits.
       if \<not> exits \<or> hi8 exit_value \<noteq> 0x4c then Inl (Fail NoInterruptExit) else Inr (lo8 exit_value))"

definition byte_form_exit :: "byte list \<Rightarrow> nat \<Rightarrow> nat \<Rightarrow> (exit_error, byte) res" where
  "byte_form_exit code entry interrupt_offset =
     bindE (combine_byte_exit code entry combine_start) (\<lambda>exit_value.
     bindE (is_exit_interrupt code interrupt_offset) (\<lambda>exits.
       if exits then finish_exit code interrupt_offset exit_value
       else bindE (skip_nops code (interrupt_offset + 2)) (\<lambda>following.
              finish_exit code following exit_value)))"

definition exit_arithmetic :: "alu_operation \<Rightarrow> u16 \<Rightarrow> u16 \<Rightarrow> (exit_error, u16) res" where
  "exit_arithmetic alu v immediate =
     (case alu of
        a_add \<Rightarrow> Inr (v + immediate)
      | a_subtract \<Rightarrow> Inr (v - immediate)
      | a_and \<Rightarrow> Inr (v AND immediate)
      | a_or \<Rightarrow> Inr (v OR immediate)
      | a_xor \<Rightarrow> Inr (v XOR immediate)
      | _ \<Rightarrow> Inl (Fail ExitArithmeticUnsupported))"

definition is_exit_arithmetic :: "instruction \<Rightarrow> bool" where
  "is_exit_arithmetic i \<longleftrightarrow> ins_kind i = k_arithmetic \<and> ins_operand_count i = 2 \<and>
     op_reg (fst (ins_operands i)) = R_ax \<and> op_width (snd (ins_operands i)) = w_word"

definition word_form_exit :: "byte list \<Rightarrow> nat \<Rightarrow> u16 \<Rightarrow> (exit_error, byte) res" where
  "word_form_exit code interrupt_offset exit_value =
     bindE (is_exit_interrupt code interrupt_offset) (\<lambda>exits.
       if exits then finish_exit code interrupt_offset exit_value
       else
         bindE (attempt (decode_at code interrupt_offset)) (\<lambda>arithmetic.
           case arithmetic of
             None \<Rightarrow> Inl (Fail NoInterrupt21)
           | Some i \<Rightarrow>
               if \<not> is_exit_arithmetic i then Inl (Fail NoInterrupt21)
               else
                 bindE (exit_arithmetic (ins_alu i) exit_value (op_immediate (snd (ins_operands i)))) (\<lambda>v.
                 bindE (skip_nops code (interrupt_offset + ins_size i)) (\<lambda>following.
                   finish_exit code following v))))"

definition exit_machine :: machine where
  "exit_machine = \<lparr>mc_table = builder_init, mc_state = entry_state, mc_registers = None, mc_memory = None\<rparr>"

definition exit_extract_code :: "program_image \<Rightarrow> (exit_error, byte) res" where
  "exit_extract_code img =
     (let code = img_bytes img in
      bindE (skip_nops code (entry_offset img)) (\<lambda>entry.
      bindE (wrapE EntryUndecodable (decode_at code entry)) (\<lambda>move.
      bindE (skip_nops code (entry + ins_size move)) (\<lambda>interrupt_offset.
      bindE (attempt (translate code move exit_machine 0)) (\<lambda>effect.
        case effect of
          Some (e, _) \<Rightarrow>
            if ins_kind move = k_move_immediate \<and> op_width (fst (ins_operands move)) = w_byte
            then byte_form_exit code entry interrupt_offset
            else (case (ef_destination e, ef_immediate e) of
                    (V_ax, Some exit_value) \<Rightarrow> word_form_exit code interrupt_offset exit_value
                  | _ \<Rightarrow> Inl (Fail NotMovAx))
        | None \<Rightarrow>
            bindE (combine_byte_exit code entry combine_start) (\<lambda>combined. Inr (lo8 combined)))))))"

definition exit_compile :: "program_image \<Rightarrow> (exit_error, byte list) res" where
  "exit_compile img =
     bindE (attempt (compile_console_program img)) (\<lambda>console.
       case console of
         Some elf \<Rightarrow> Inr elf
       | None \<Rightarrow> bindE (exit_extract_code img) (\<lambda>exit_code.
                   emitted (emit_exit_executable exit_code)))"

end
