(* ===== verification/ExitFacts.thy ===== *)
theory ExitFacts
  imports ExitCompiler
begin

text \<open>
  What the exit compiler does on the programs it is written for: the decodings it meets, the images
  it emits, and what those images do when they run.
\<close>

section \<open>Decoded instructions\<close>

definition mov_ax_instruction :: "nat \<Rightarrow> u16 \<Rightarrow> instruction" where
  "mov_ax_instruction off v =
     with_operands (basic k_move_immediate off 3 0 0)
       (default_operand\<lparr>op_kind := o_reg, op_width := w_word, op_reg := R_ax\<rparr>)
       (immediate_operand w_word v) 2 a_none"

definition mov_dx_instruction :: "nat \<Rightarrow> u16 \<Rightarrow> instruction" where
  "mov_dx_instruction off v =
     with_operands (basic k_move_immediate off 3 0 0)
       (default_operand\<lparr>op_kind := o_reg, op_width := w_word, op_reg := R_dx\<rparr>)
       (immediate_operand w_word v) 2 a_none"

definition mov_ah_instruction :: "nat \<Rightarrow> byte \<Rightarrow> instruction" where
  "mov_ah_instruction off v =
     with_operands (basic k_move_immediate off 2 0 0)
       (default_operand\<lparr>op_kind := o_reg, op_width := w_byte, op_reg := R_ah\<rparr>)
       (immediate_operand w_byte (ucast v)) 2 a_none"

lemma need_here: "n \<le> length code - off \<Longrightarrow> need code off n r = r"
  by (simp add: need_def)

lemma skipped_groups:
  "decode_fixed code off 0xb8 = None" "decode_fixed code off 0xba = None" "decode_fixed code off 0xb4 = None"
  "decode_string code off 0xb8 = None" "decode_string code off 0xba = None" "decode_string code off 0xb4 = None"
  "decode_io code off 0xb8 = None" "decode_io code off 0xba = None" "decode_io code off 0xb4 = None"
  by (simp_all add: decode_fixed_def decode_string_def is_string_opcode_def decode_io_def)

lemma skipped_before_int:
  "decode_fixed code off 0xcd = None" "decode_string code off 0xcd = None" "decode_io code off 0xcd = None"
  "decode_immediate_move code off 0xcd = None" "decode_accumulator code off 0xcd = None"
  "decode_stack code off 0xcd = None" "decode_inc_dec code off 0xcd = None"
  "decode_modrm_arithmetic code off 0xcd = None" "decode_move_modrm code off 0xcd = None"
  "decode_group_immediate code off 0xcd = None" "decode_ff code off 0xcd = None"
  "decode_groups code off 0xcd = None"
  by (simp_all add: decode_fixed_def decode_string_def is_string_opcode_def decode_io_def
      decode_immediate_move_def decode_accumulator_def accumulator_opcodes_def decode_stack_def
      decode_inc_dec_def decode_modrm_arithmetic_def is_modrm_arithmetic_def decode_move_modrm_def
      decode_group_immediate_def group_immediate_opcodes_def decode_ff_def decode_groups_def)

lemma immediate_move_word:
  "immediate_move off w_word 0 v = Inr (mov_ax_instruction off v)"
  "immediate_move off w_word 2 v = Inr (mov_dx_instruction off v)"
  by (simp_all add: immediate_move_def register_operand_def decoder_register_for_def
      word_registers_def mov_ax_instruction_def mov_dx_instruction_def)

lemma decode_mov_ax:
  assumes "off + 2 < length code" and "code ! off = 0xb8"
  shows "decode_at code off = Inr (mov_ax_instruction off (le16 (code ! (off + 1)) (code ! (off + 2))))"
proof -
  have "decode_immediate_move code off 0xb8 =
      Some (Inr (mov_ax_instruction off (le16 (code ! (off + 1)) (code ! (off + 2)))))"
    using assms(1) by (simp add: decode_immediate_move_def need_here immediate_move_word)
  then show ?thesis
    using assms by (simp add: decode_at_plain is_prefix_def decode_opcode_def opcode_groups_def skipped_groups)
qed

lemma decode_mov_dx:
  assumes "off + 2 < length code" and "code ! off = 0xba"
  shows "decode_at code off = Inr (mov_dx_instruction off (le16 (code ! (off + 1)) (code ! (off + 2))))"
proof -
  have "decode_immediate_move code off 0xba =
      Some (Inr (mov_dx_instruction off (le16 (code ! (off + 1)) (code ! (off + 2)))))"
    using assms(1) by (simp add: decode_immediate_move_def need_here immediate_move_word)
  then show ?thesis
    using assms by (simp add: decode_at_plain is_prefix_def decode_opcode_def opcode_groups_def skipped_groups)
qed

lemma decode_mov_ah:
  assumes "off + 1 < length code" and "code ! off = 0xb4"
  shows "decode_at code off = Inr (mov_ah_instruction off (code ! (off + 1)))"
proof -
  have "decode_immediate_move code off 0xb4 = Some (Inr (mov_ah_instruction off (code ! (off + 1))))"
    using assms(1)
    by (simp add: decode_immediate_move_def need_here immediate_move_def register_operand_def byte_at_def
        decoder_register_for_def byte_registers_def mov_ah_instruction_def)
  then show ?thesis
    using assms by (simp add: decode_at_plain is_prefix_def decode_opcode_def opcode_groups_def skipped_groups)
qed

lemma decode_int:
  assumes "off + 1 < length code" and "code ! off = 0xcd"
  shows "decode_at code off = Inr (basic k_interrupt off 2 0 (code ! (off + 1)))"
proof -
  have "decode_control code off 0xcd = Some (Inr (basic k_interrupt off 2 0 (code ! (off + 1))))"
    using assms(1) by (simp add: decode_control_def need_here byte_at_def)
  then show ?thesis
    using assms
    by (simp add: decode_at_plain is_prefix_def decode_opcode_def opcode_groups_def skipped_before_int)
qed

lemma decode_nop:
  "off < length code \<Longrightarrow> code ! off = 0x90 \<Longrightarrow> decode_at code off = Inr (basic k_nop off 1 0 0)"
  by (simp add: decode_at_plain is_prefix_def decode_opcode_def opcode_groups_def decode_fixed_def)

section \<open>The entry sequence\<close>

lemma com_image_sel [simp]:
  "img_bytes (com_image code) = code" "entry_offset (com_image code) = 0" "img_format (com_image code) = com"
  by (simp_all add: com_image_def entry_offset_def)

lemma skip_nops_here:
  "off < length code \<Longrightarrow> decode_at code off = Inr i \<Longrightarrow> ins_kind i \<noteq> k_nop \<Longrightarrow> skip_nops code off = Inr off"
  by (simp add: skip_nops.simps [of code off])

lemma skip_nops_nops:
  "\<forall>k < n. off + k < length code \<and> code ! (off + k) = 0x90 \<Longrightarrow>
     skip_nops code off = skip_nops code (off + n)"
proof (induction n arbitrary: off)
  case (Suc n)
  then have here: "off < length code" "code ! off = 0x90" by (metis add.right_neutral zero_less_Suc)+
  have "skip_nops code off = skip_nops code (off + 1)"
    using decode_nop [OF here] here by (simp add: skip_nops.simps [of code off])
  also have "\<dots> = skip_nops code (off + 1 + n)"
    using Suc.prems by (intro Suc.IH) auto
  finally show ?case by simp
qed simp

lemma is_exit_int:
  "off + 1 < length code \<Longrightarrow> code ! off = 0xcd \<Longrightarrow>
     is_exit_interrupt code off = Inr (code ! (off + 1) = 0x21)"
  by (simp add: is_exit_interrupt_def decode_int)

lemma hi8_of_le16: "hi8 (le16 a b) = b"
  by simp

text \<open>\<open>MOV AX, 4Cxxh; INT 21h\<close> at a position, possibly with NOPs before the interrupt.\<close>

definition exit_sequence_at :: "byte list \<Rightarrow> nat \<Rightarrow> nat \<Rightarrow> byte \<Rightarrow> bool" where
  "exit_sequence_at code off n v \<longleftrightarrow>
     off + 5 + n \<le> length code \<and> code ! off = 0xb8 \<and> code ! (off + 1) = v \<and> code ! (off + 2) = 0x4c \<and>
     (\<forall>k < n. code ! (off + 3 + k) = 0x90) \<and> code ! (off + 3 + n) = 0xcd \<and> code ! (off + 4 + n) = 0x21"

lemma exit_sequence_decode:
  assumes "exit_sequence_at code off n v"
  shows "decode_at code off = Inr (mov_ax_instruction off (le16 v 0x4c))"
    and "skip_nops code (off + 3) = Inr (off + 3 + n)"
    and "is_exit_interrupt code (off + 3 + n) = Inr True"
proof -
  show "decode_at code off = Inr (mov_ax_instruction off (le16 v 0x4c))"
    using assms decode_mov_ax [of off code] by (simp add: exit_sequence_at_def)
  have int: "off + 3 + n + 1 < length code" "code ! (off + 3 + n) = 0xcd" "code ! (off + 3 + n + 1) = 0x21"
    using assms by (simp_all add: exit_sequence_at_def ac_simps)
  have "skip_nops code (off + 3) = skip_nops code (off + 3 + n)"
    using assms by (intro skip_nops_nops) (auto simp: exit_sequence_at_def)
  also have "\<dots> = Inr (off + 3 + n)"
    using int decode_int [OF int(1,2)] by (intro skip_nops_here) auto
  finally show "skip_nops code (off + 3) = Inr (off + 3 + n)" .
  show "is_exit_interrupt code (off + 3 + n) = Inr True"
    using is_exit_int [OF int(1,2)] int(3) by simp
qed

lemma mov_ax_sel [simp]:
  "ins_kind (mov_ax_instruction off v) = k_move_immediate" "ins_size (mov_ax_instruction off v) = 3"
  "ins_offset (mov_ax_instruction off v) = off" "ins_operand_count (mov_ax_instruction off v) = 2"
  by (simp_all add: mov_ax_instruction_def)

lemma extract_at_sequence:
  assumes "exit_sequence_at code off n v"
  shows "extract_exit_code_at code off = Inr v"
proof -
  have "code ! off = 0xb8" "code ! (off + 1) = v" "code ! (off + 2) = 0x4c" "off + 3 \<le> length code"
    using assms by (simp_all add: exit_sequence_at_def)
  then show ?thesis
    using exit_sequence_decode [OF assms] by (simp add: extract_exit_code_at_def)
qed

text \<open>The translator's effect of the entry instruction.\<close>

lemma translate_mov_ax:
  assumes "off + 3 \<le> length code"
  shows "\<exists>m. translate code (mov_ax_instruction off v) exit_machine 0 =
    Inr (\<lparr>ef_destination = V_ax, ef_ssa_value = 17, ef_immediate = Some v, ef_memory = None\<rparr>, m)"
proof -
  have "\<not> length code - off < 3" "\<not> length code < off" using assms by simp_all
  then show ?thesis
    by (simp add: translate_def is_register_arithmetic_def is_stack_register_def translate_move_def
        mov_ax_instruction_def immediate_operand_def default_operand_def define_effect_def
        define_constant_def push_value_def set_register_def exit_machine_def builder_init_def
        register_ids_def)
qed

lemma exit_extract_sequence:
  assumes nops: "\<forall>k < k0. entry_offset img + k < length (img_bytes img) \<and> img_bytes img ! (entry_offset img + k) = 0x90"
    and seq: "exit_sequence_at (img_bytes img) (entry_offset img + k0) n v"
  shows "exit_extract_code img = Inr v"
proof -
  let ?code = "img_bytes img" and ?off = "entry_offset img + k0"
  note dec = exit_sequence_decode [OF seq]
  have "?off < length ?code" using seq by (simp add: exit_sequence_at_def)
  then have "skip_nops ?code (entry_offset img) = Inr ?off"
    using skip_nops_nops [OF nops] dec(1) by (simp add: skip_nops_here)
  moreover have "?off + 3 \<le> length ?code" using seq by (simp add: exit_sequence_at_def)
  from translate_mov_ax [OF this, of "le16 v 0x4c"] obtain m where
    "translate ?code (mov_ax_instruction ?off (le16 v 0x4c)) exit_machine 0 =
      Inr (\<lparr>ef_destination = V_ax, ef_ssa_value = 17, ef_immediate = Some (le16 v 0x4c),
        ef_memory = None\<rparr>, m)" by blast
  moreover have "op_width (fst (ins_operands (mov_ax_instruction ?off (le16 v 0x4c)))) = w_word"
    by (simp add: mov_ax_instruction_def default_operand_def)
  ultimately show ?thesis
    using dec by (simp add: exit_extract_code_def Let_def word_form_exit_def finish_exit_def)
qed

section \<open>The console pattern\<close>

lemma dollar_string_append: "0x24 \<notin> set msg \<Longrightarrow> dollar_string (msg @ 0x24 # rest) = Some msg"
  by (induction msg) auto

text \<open>
  \<open>MOV DX, 10Ch; MOV AH, 9; INT 21h; MOV AX, 4Cxxh; INT 21h\<close>, the string, its terminator and
  anything after it.
\<close>

definition console_program :: "byte list \<Rightarrow> byte \<Rightarrow> byte list \<Rightarrow> byte list" where
  "console_program message exit_code rest =
     [0xba, 0x0c, 0x01, 0xb4, 0x09, 0xcd, 0x21, 0xb8, exit_code, 0x4c, 0xcd, 0x21] @
     message @ 0x24 # rest"

lemma console_program_bytes:
  "length (console_program message e rest) = 13 + length message + length rest"
  "console_program message e rest ! 0 = 0xba" "console_program message e rest ! Suc 0 = 0x0c"
  "console_program message e rest ! 2 = 0x01" "console_program message e rest ! 3 = 0xb4"
  "console_program message e rest ! 4 = 0x09" "console_program message e rest ! 5 = 0xcd"
  "console_program message e rest ! 6 = 0x21" "console_program message e rest ! 7 = 0xb8"
  "console_program message e rest ! 8 = e" "console_program message e rest ! 9 = 0x4c"
  "console_program message e rest ! 10 = 0xcd" "console_program message e rest ! 11 = 0x21"
  "drop 12 (console_program message e rest) = message @ 0x24 # rest"
  by (simp_all add: console_program_def)

lemma mov_other_sel [simp]:
  "ins_kind (mov_dx_instruction off v) = k_move_immediate" "ins_size (mov_dx_instruction off v) = 3"
  "ins_kind (mov_ah_instruction off b) = k_move_immediate" "ins_size (mov_ah_instruction off b) = 2"
  by (simp_all add: mov_dx_instruction_def mov_ah_instruction_def)

lemma le16_10c: "unat (le16 0x0c 0x01) = 268"
  by (simp add: le16_def)

lemma compile_console:
  assumes "0x24 \<notin> set message"
  shows "compile_console_program (com_image (console_program message e rest)) =
    emitted (emit_write_exit_executable message e)"
proof -
  let ?code = "console_program message e rest"
  note bytes = console_program_bytes [of message e rest]
  have entry: "skip_nops ?code 0 = Inr 0"
    using decode_mov_dx [of 0 ?code] bytes by (simp add: skip_nops_here)
  have call: "skip_nops ?code 5 = Inr 5" "is_exit_interrupt ?code 5 = Inr True"
    using decode_int [of 5 ?code] bytes is_exit_int [of 5 ?code] by (simp_all add: skip_nops_here)
  have seq: "exit_sequence_at ?code 7 0 e"
    using bytes by (simp add: exit_sequence_at_def)
  have after: "skip_nops ?code 7 = Inr 7"
    using exit_sequence_decode(1) [OF seq] bytes by (simp add: skip_nops_here)
  have "?code ! Suc (Suc 0) = 1" using bytes by (simp add: numeral_2_eq_2)
  then show ?thesis
    using entry call after extract_at_sequence [OF seq] assms bytes le16_10c
    by (simp add: compile_console_program_def com_image_def entry_offset_def dollar_string_append
        Let_def)
qed

end
