(* ===== verification/Conditions.thy ===== *)
theory Conditions
  imports InstructionDecoder RegisterSsa
begin

text \<open>
  The conditions of the 8086 conditional jumps: \<open>evaluate_condition\<close> of
  \<open>compiler/straight_line_compiler.cpp\<close> over the flags that \<open>register_ssa.cpp\<close> lifts from a
  comparison, against the comparison of the two numbers that each condition stands for.
\<close>

definition condition_of_flags :: "branch_condition \<Rightarrow> compare_flags \<Rightarrow> bool" where
  "condition_of_flags condition flags =
     (case condition of
        c_equal \<Rightarrow> cf_zero flags
      | c_not_equal \<Rightarrow> \<not> cf_zero flags
      | c_below \<Rightarrow> cf_carry flags
      | c_above_or_equal \<Rightarrow> \<not> cf_carry flags
      | c_below_or_equal \<Rightarrow> cf_carry flags \<or> cf_zero flags
      | c_above \<Rightarrow> \<not> cf_carry flags \<and> \<not> cf_zero flags
      | c_sign \<Rightarrow> cf_sign flags
      | c_not_sign \<Rightarrow> \<not> cf_sign flags
      | c_overflow \<Rightarrow> cf_overflow flags
      | c_not_overflow \<Rightarrow> \<not> cf_overflow flags
      | c_less \<Rightarrow> cf_sign flags \<noteq> cf_overflow flags
      | c_greater_or_equal \<Rightarrow> cf_sign flags = cf_overflow flags
      | c_less_or_equal \<Rightarrow> cf_zero flags \<or> cf_sign flags \<noteq> cf_overflow flags
      | c_greater \<Rightarrow> \<not> cf_zero flags \<and> cf_sign flags = cf_overflow flags
      | _ \<Rightarrow> False)"

definition evaluate_condition ::
  "branch_condition \<Rightarrow> ssa_table \<Rightarrow> nat \<Rightarrow> (unit, bool) res option" where
  "evaluate_condition condition vs flags_ssa =
     map_option (\<lambda>r. bindE r (\<lambda>flags. Inr (condition_of_flags condition flags)))
       (resolve_compare_flags vs flags_ssa)"

section \<open>The meaning of the conditions\<close>

text \<open>\<open>None\<close> for the conditions that \<open>evaluate_condition\<close> does not know: parity and the LOOP family.\<close>

fun compares :: "branch_condition \<Rightarrow> u16 \<Rightarrow> u16 \<Rightarrow> bool option" where
  "compares c_equal l r = Some (l = r)"
| "compares c_not_equal l r = Some (l \<noteq> r)"
| "compares c_below l r = Some (unat l < unat r)"
| "compares c_above_or_equal l r = Some (unat r \<le> unat l)"
| "compares c_below_or_equal l r = Some (unat l \<le> unat r)"
| "compares c_above l r = Some (unat r < unat l)"
| "compares c_sign l r = Some (sint (l - r) < 0)"
| "compares c_not_sign l r = Some (0 \<le> sint (l - r))"
| "compares c_overflow l r = Some (sint l - sint r < - (2 ^ 15) \<or> 2 ^ 15 \<le> sint l - sint r)"
| "compares c_not_overflow l r = Some (- (2 ^ 15) \<le> sint l - sint r \<and> sint l - sint r < 2 ^ 15)"
| "compares c_less l r = Some (sint l < sint r)"
| "compares c_greater_or_equal l r = Some (sint r \<le> sint l)"
| "compares c_less_or_equal l r = Some (sint l \<le> sint r)"
| "compares c_greater l r = Some (sint r < sint l)"
| "compares _ l r = None"

lemma sint_u16_bounds: "- 32768 \<le> sint (w :: u16)" "sint (w :: u16) < 32768"
  using sint_ge [of w] sint_lt [of w] by simp_all

lemma and_sign_bit: "(w :: u16) AND 0x8000 \<noteq> 0 \<longleftrightarrow> sint w < 0"
proof -
  have "w AND 0x8000 \<noteq> 0 \<longleftrightarrow> bit w 15"
    using and_exp_eq_0_iff_not_bit [of w 15] by simp
  also have "\<dots> \<longleftrightarrow> sint w < 0"
    using bit_last_iff [of w] by simp
  finally show ?thesis .
qed

lemma mod_once:
  fixes x :: int
  assumes "- 65536 \<le> x" and "x < 131072"
  shows "x mod 65536 = (if x < 0 then x + 65536 else if 65536 \<le> x then x - 65536 else x)"
proof -
  have "(x + 65536) mod 65536 = x mod 65536" "(x - 65536) mod 65536 = x mod 65536" by simp_all
  moreover have "x < 0 \<Longrightarrow> (x + 65536) mod 65536 = x + 65536"
    using assms by (intro mod_pos_pos_trivial) simp_all
  moreover have "65536 \<le> x \<Longrightarrow> (x - 65536) mod 65536 = x - 65536"
    using assms by (intro mod_pos_pos_trivial) simp_all
  ultimately show ?thesis by simp
qed

text \<open>The 16-bit difference as a signed number wraps at most once.\<close>

lemma sint_diff_cases:
  "sint (l - r :: u16) =
     (if sint l - sint r < - 32768 then sint l - sint r + 65536
      else if 32768 \<le> sint l - sint r then sint l - sint r - 65536 else sint l - sint r)"
proof -
  let ?d = "sint l - sint r"
  have "sint (l - r) = signed_take_bit 15 ?d"
    by (simp add: sint_word_ariths)
  also have "\<dots> = (?d + 32768) mod 65536 - 32768"
    by (simp add: signed_take_bit_eq_take_bit_shift take_bit_eq_mod)
  finally have *: "sint (l - r) = (?d + 32768) mod 65536 - 32768" .
  have "- 65536 \<le> ?d + 32768" "?d + 32768 < 2 * 65536"
    using sint_u16_bounds [of l] sint_u16_bounds [of r] by linarith+
  then have "(?d + 32768) mod 65536 =
      (if ?d + 32768 < 0 then ?d + 32768 + 65536
       else if 65536 \<le> ?d + 32768 then ?d + 32768 - 65536 else ?d + 32768)"
    by (intro mod_once) simp_all
  with * show ?thesis by auto
qed

lemma flags_of_compare_signed:
  "cf_sign (flags_of_compare l r) \<longleftrightarrow> sint (l - r) < 0"
  "cf_overflow (flags_of_compare l r) \<longleftrightarrow> sint l - sint r < - 32768 \<or> 32768 \<le> sint l - sint r"
proof -
  show "cf_sign (flags_of_compare l r) \<longleftrightarrow> sint (l - r) < 0"
    by (simp add: flags_of_compare_def Let_def and_sign_bit)
  show "cf_overflow (flags_of_compare l r) \<longleftrightarrow> sint l - sint r < - 32768 \<or> 32768 \<le> sint l - sint r"
    using sint_u16_bounds [of l] sint_u16_bounds [of r] sint_diff_cases [of l r]
    by (auto simp: flags_of_compare_def Let_def split: if_split_asm)
qed

lemma flags_of_compare_less:
  "cf_sign (flags_of_compare l r) \<noteq> cf_overflow (flags_of_compare l r) \<longleftrightarrow> sint l < sint r"
  using sint_u16_bounds [of l] sint_u16_bounds [of r] sint_diff_cases [of l r]
  unfolding flags_of_compare_signed by (auto split: if_split_asm)

lemma flags_of_compare_unsigned:
  "cf_zero (flags_of_compare l r) \<longleftrightarrow> l = r" "cf_carry (flags_of_compare l r) \<longleftrightarrow> unat l < unat r"
  by (simp_all add: flags_of_compare_def Let_def word_less_nat_alt)

lemma sint_eq_iff: "sint (l :: u16) = sint r \<longleftrightarrow> l = r"
  by (auto intro: signed_word_eqI)

lemma condition_of_compare:
  "compares c l r = Some b \<Longrightarrow> condition_of_flags c (flags_of_compare l r) = b"
proof -
  have less: "(cf_sign (flags_of_compare l r) = cf_overflow (flags_of_compare l r)) = (sint r \<le> sint l)"
    using flags_of_compare_less [of l r] by linarith
  have u: "unat l = unat r \<longleftrightarrow> l = r" by (simp add: word_unat_eq_iff)
  assume "compares c l r = Some b"
  then show ?thesis
  proof (cases "c = c_sign \<or> c = c_not_sign \<or> c = c_overflow \<or> c = c_not_overflow")
    case True
    with \<open>compares c l r = Some b\<close> show ?thesis
      by (auto simp: condition_of_flags_def flags_of_compare_signed)
  next
    case False
    with \<open>compares c l r = Some b\<close> sint_eq_iff [of l r] u show ?thesis
      by (cases c) (auto simp: condition_of_flags_def flags_of_compare_less flags_of_compare_unsigned less)
  qed
qed

lemma unknown_condition_never_taken: "compares c l r = None \<Longrightarrow> \<not> condition_of_flags c flags"
  by (cases c) (simp_all add: condition_of_flags_def)

section \<open>From a comparison in the table\<close>

text \<open>A flags value whose inputs resolve is evaluated on the resolved numbers.\<close>

lemma resolve_compare_flags_compare:
  assumes "n < length vs" and "sv_operation (vs ! n) = Some op_compare" and "sv_inputs (vs ! n) = [a, b]"
    and "resolve_constant vs a = Some (Inr (Some l))" and "resolve_constant vs b = Some (Inr (Some r))"
  shows "resolve_compare_flags vs n = Some (Inr (flags_of_compare l r))"
  using assms
  by (subst resolve_compare_flags.simps) (simp add: flag_operation_def resolve_operands_def)

end
