(* ===== verification/StraightLine.thy ===== *)
theory StraightLine
  imports BinaryLoader CfgFacts ControlFlowIr Conditions InstructionTranslator ElfRun
begin

text \<open>
  \<open>compiler/straight_line_compiler.hpp\<close> and \<open>compiler/straight_line_compiler.cpp\<close>: the compiler that
  executes a program symbolically along one path, deciding conditional branches from constants, and
  collects the system calls to emit. Loops of the code that may not end (following SSA inputs, the
  walk itself) are \<open>partial_function\<close>s: the outer \<open>None\<close> is a run that does not return.

  The host files that the compiler reads while it compiles are the parameter \<open>host\<close>, which maps a
  path to the contents of the file, \<open>None\<close> where \<open>std::ifstream\<close> cannot open it. Spans into
  \<open>write_payloads\<close> stay valid when that vector grows, since moving a vector keeps its buffer, so
  the calls hold the bytes themselves.
\<close>

section \<open>Results that may not return\<close>

type_synonym ('e, 'a) partial = "('e, 'a) res option"

definition bindP :: "('e, 'a) partial \<Rightarrow> ('a \<Rightarrow> ('e, 'b) partial) \<Rightarrow> ('e, 'b) partial" where
  "bindP m f = Option.bind m (\<lambda>r. case r of Inl e \<Rightarrow> Some (Inl e) | Inr x \<Rightarrow> f x)"

lemma bindP_simps [simp]:
  "bindP None f = None" "bindP (Some (Inl e)) f = Some (Inl e)" "bindP (Some (Inr x)) f = f x"
  by (simp_all add: bindP_def)

lemma bindP_mono [partial_function_mono]:
  assumes "mono_option B" and "\<And>y. mono_option (\<lambda>f. C y f)"
  shows "mono_option (\<lambda>f. bindP (B f) (\<lambda>y. C y f))"
  unfolding bindP_def
proof (intro bind_mono assms)
  fix y
  show "mono_option (\<lambda>f. case y of Inl e \<Rightarrow> Some (Inl e) | Inr y \<Rightarrow> C y f)"
    by (cases y) (simp_all add: assms(2) option.const_mono)
qed

definition failP :: "'e \<Rightarrow> ('e, 'a) partial" where
  "failP e = Some (Inl (Fail e))"

section \<open>Following a value\<close>

partial_function (option) resolve_exit_code :: "ssa_table \<Rightarrow> nat \<Rightarrow> (unit, u16) partial" where
  "resolve_exit_code vs current =
     (case at vs current of
        Inl e \<Rightarrow> Some (Inl e)
      | Inr value \<Rightarrow>
          (case sv_constant value of
             Some c \<Rightarrow> Some (Inr c)
           | None \<Rightarrow>
               (case constant_operands vs value of
                  Inl e \<Rightarrow> Some (Inl e)
                | Inr operands \<Rightarrow>
                    (case Option.bind operands (\<lambda>(operation, a, b). fold_operation operation a b) of
                       Some c \<Rightarrow> Some (Inr c)
                     | None \<Rightarrow>
                         (case sv_inputs value of
                            [] \<Rightarrow> Some (Inr 0)
                          | x # _ \<Rightarrow> resolve_exit_code vs x)))))"

section \<open>The state of the walk\<close>

record translation_state =
  sl_table :: ssa_table
  sl_state :: register_state
  sl_registers :: register_values
  sl_memory :: real_mode_memory
  sl_writes :: "write_call list"
  sl_actions :: "syscall_action list"
  sl_read_payloads :: "u16 \<Rightarrow> byte list option"
  sl_next_fake_handle :: u32
  sl_handle_for_bx :: "u16 \<Rightarrow> u32 option"
  sl_visited_block :: "bool list"

datatype straight_line_error =
  ControlFlowEnds | LoopsUnsupported | CannotDecode nat decode_error | UnsupportedInterrupt byte
| FilenameUnreadable | FilenameUnterminated | UnsupportedAccessMode | CloseUnknownHandle
| WriteUnknownHandle | BufferUnreadable | ReadZeroCount | ReadBeforeOpen | BufferUnwritable
| UnsupportedVideo byte | StringUnreadable | StringMissingTerminator | UnsupportedDosFunction byte
| BranchTargetsUnresolved | CannotTranslate nat translation_error | CannotBuildCfg cfg_error
| CannotLowerIr ir_error | NoReachableBlocks | CannotLoadMz memory_error | CannotLoadCom | EmitFailed

definition sl_value :: "translation_state \<Rightarrow> register_id \<Rightarrow> (straight_line_error, u16) partial" where
  "sl_value ts r =
     map_option (wrapE (\<lambda>_. ControlFlowEnds)) (resolve_exit_code (sl_table ts) (sl_state ts r))"

definition sl_define ::
  "register_id \<Rightarrow> u16 \<Rightarrow> translation_state \<Rightarrow> (straight_line_error, translation_state) partial" where
  "sl_define r v ts =
     Some (bindE (define_constant (sl_table ts) (sl_state ts) r v) (\<lambda>(vs, st, _).
       Inr (ts\<lparr>sl_table := vs, sl_state := st\<rparr>)))"

text \<open>
  Reading a string from memory up to a terminator. The loop stops at the end of memory; \<open>n\<close> counts
  the bytes left there, so it is \<open>memory_size - cursor\<close> at the start.
\<close>

fun read_until :: "real_mode_memory \<Rightarrow> byte \<Rightarrow> nat \<Rightarrow> nat \<Rightarrow> (memory_error, byte list option) res" where
  "read_until memory terminator cursor 0 = Inr None"
| "read_until memory terminator cursor (Suc n) =
     bindE (read8 memory cursor) (\<lambda>b.
       if b = terminator then Inr (Some [])
       else bindE (read_until memory terminator (Suc cursor) n) (\<lambda>r. Inr (map_option ((#) b) r)))"

definition read_string ::
  "straight_line_error \<Rightarrow> straight_line_error \<Rightarrow> byte \<Rightarrow> translation_state \<Rightarrow> u16 \<Rightarrow>
     (straight_line_error, byte list) partial" where
  "read_string unreadable unterminated terminator ts start =
     Some (bindE (wrapE (\<lambda>_. unreadable)
         (read_until (sl_memory ts) terminator (unat start) (memory_size - unat start))) (\<lambda>r.
       case r of Some bytes \<Rightarrow> Inr bytes | None \<Rightarrow> Inl (Fail unterminated)))"

fun read_buffer :: "real_mode_memory \<Rightarrow> nat \<Rightarrow> nat \<Rightarrow> (memory_error, byte list) res" where
  "read_buffer memory address 0 = Inr []"
| "read_buffer memory address (Suc n) =
     bindE (read8 memory address) (\<lambda>b. bindE (read_buffer memory (Suc address) n) (\<lambda>bs. Inr (b # bs)))"

section \<open>Interrupts\<close>

datatype walk_step = exits byte | continues translation_state

definition access_flags :: "byte \<Rightarrow> u32 option" where
  "access_flags al = (if al = 0 then Some 0 else if al = 1 then Some 0x41 else if al = 2 then Some 0x42 else None)"

type_synonym handler = "translation_state \<Rightarrow> (straight_line_error, walk_step) partial"

definition handle_open :: "(byte list \<Rightarrow> byte list option) \<Rightarrow> byte \<Rightarrow> handler" where
  "handle_open host al ts =
     bindP (sl_value ts V_dx) (\<lambda>dx.
     bindP (read_string FilenameUnreadable FilenameUnterminated 0 ts dx) (\<lambda>filename.
       case access_flags al of
         None \<Rightarrow> failP UnsupportedAccessMode
       | Some flags \<Rightarrow>
           (let handle = sl_next_fake_handle ts; h16 = ucast handle;
                action = act_open \<lparr>oc_filename = filename, oc_flags = flags, oc_mode = 0x1ff\<rparr>
            in bindP (sl_define V_ax h16 ts) (\<lambda>ts1.
               bindP (sl_define V_bx h16 ts1) (\<lambda>ts2.
                 Some (Inr (continues (ts2\<lparr>sl_actions := sl_actions ts @ [action],
                   sl_next_fake_handle := handle + 1,
                   sl_registers := (sl_registers ts)(R_ax := h16, R_bx := h16),
                   sl_handle_for_bx := (sl_handle_for_bx ts)(h16 \<mapsto> handle),
                   sl_read_payloads :=
                     (if flags = 0 then
                        (case host filename of
                           Some file_bytes \<Rightarrow> (sl_read_payloads ts)(h16 \<mapsto> file_bytes)
                         | None \<Rightarrow> sl_read_payloads ts)
                      else sl_read_payloads ts)\<rparr>))))))))"

definition handle_close :: handler where
  "handle_close ts =
     bindP (sl_value ts V_bx) (\<lambda>bx.
       if bx \<noteq> 1 \<and> bx \<noteq> 2 then
         (if sl_handle_for_bx ts bx = None then failP CloseUnknownHandle
          else Some (Inr (continues (ts\<lparr>sl_handle_for_bx := (sl_handle_for_bx ts)(bx := None)\<rparr>))))
       else Some (Inr (continues ts)))"

definition descriptor_for :: "translation_state \<Rightarrow> u16 \<Rightarrow> u32 option" where
  "descriptor_for ts bx = (if bx = 1 then Some 1 else if bx = 2 then Some 2 else sl_handle_for_bx ts bx)"

definition handle_write :: handler where
  "handle_write ts =
     bindP (sl_value ts V_bx) (\<lambda>bx.
     bindP (sl_value ts V_cx) (\<lambda>cx.
     bindP (sl_value ts V_dx) (\<lambda>dx.
       case descriptor_for ts bx of
         None \<Rightarrow> failP WriteUnknownHandle
       | Some fd \<Rightarrow>
           bindP (Some (wrapE (\<lambda>_. BufferUnreadable) (read_buffer (sl_memory ts) (unat dx) (unat cx)))) (\<lambda>payload.
             Some (Inr (continues (ts\<lparr>sl_actions := sl_actions ts @
               [act_write \<lparr>wc_payload = payload, wc_file_descriptor = fd\<rparr>]\<rparr>)))))))"

definition handle_read :: handler where
  "handle_read ts =
     bindP (sl_value ts V_bx) (\<lambda>bx.
     bindP (sl_value ts V_cx) (\<lambda>cx.
     bindP (sl_value ts V_dx) (\<lambda>dx.
       if cx = 0 then failP ReadZeroCount
       else (case sl_read_payloads ts bx of
               None \<Rightarrow> failP ReadBeforeOpen
             | Some file_bytes \<Rightarrow>
                 (let data = take (unat cx) file_bytes; copied = word_of_nat (length data)
                  in bindP (Some (wrapE (\<lambda>_. BufferUnwritable) (write_seq write8 (sl_memory ts) (unat dx) data)))
                       (\<lambda>memory.
                     bindP (sl_define V_ax copied ts) (\<lambda>ts1.
                       Some (Inr (continues (ts1\<lparr>sl_memory := memory,
                         sl_registers := (sl_registers ts)(R_ax := copied)\<rparr>))))))))))"

definition add_write :: "byte list \<Rightarrow> u32 \<Rightarrow> translation_state \<Rightarrow> translation_state" where
  "add_write payload fd ts =
     ts\<lparr>sl_writes := sl_writes ts @ [\<lparr>wc_payload = payload, wc_file_descriptor = fd\<rparr>]\<rparr>"

definition handle_video :: "byte \<Rightarrow> byte \<Rightarrow> handler" where
  "handle_video ah al ts =
     (if ah = 0x0e then Some (Inr (continues (add_write [al] 1 ts)))
      else if ah = 0x02 then Some (Inr (continues ts))
      else failP (UnsupportedVideo ah))"

definition handle_print :: handler where
  "handle_print ts =
     bindP (sl_value ts V_dx) (\<lambda>dx.
     bindP (read_string StringUnreadable StringMissingTerminator 0x24 ts dx) (\<lambda>payload.
       Some (Inr (continues (add_write payload 1 ts)))))"

definition handle_putc :: handler where
  "handle_putc ts =
     bindP (sl_value ts V_dl) (\<lambda>dl. Some (Inr (continues (add_write [lo8 dl] 2 ts))))"

text \<open>The tests in the order of the code: the file services come before the interrupt is looked at.\<close>

definition handle_interrupt :: "(byte list \<Rightarrow> byte list option) \<Rightarrow> byte \<Rightarrow> handler" where
  "handle_interrupt host number ts =
     (if number \<noteq> 0x21 \<and> number \<noteq> 0x10 then failP (UnsupportedInterrupt number)
      else (let ax = sl_registers ts R_ax; ah = hi8 ax; al = lo8 ax
        in if ah = 0x4c then Some (Inr (exits al))
           else if ah = 0x3d then handle_open host al ts
           else if ah = 0x3e then handle_close ts
           else if ah = 0x40 then handle_write ts
           else if ah = 0x3f then handle_read ts
           else if number = 0x10 then handle_video ah al ts
           else if ah = 0x09 then handle_print ts
           else if ah = 0x02 then handle_putc ts
           else failP (UnsupportedDosFunction ah)))"

section \<open>The walk\<close>

text \<open>\<open>position + size + relative_target\<close> in 64-bit unsigned arithmetic.\<close>

definition walk_target :: "nat \<Rightarrow> instruction \<Rightarrow> nat" where
  "walk_target position i =
     nat ((int position + int (ins_size i) + ins_relative_target i) mod 2 ^ 64)"

text \<open>The first block with a start, and the last one, as the two loops of the code find them.\<close>

fun first_block :: "control_flow_graph \<Rightarrow> nat \<Rightarrow> nat option" where
  "first_block [] target = None"
| "first_block (b # bs) target =
     (if bb_start b = target then Some 0 else map_option Suc (first_block bs target))"

fun last_block :: "control_flow_graph \<Rightarrow> nat \<Rightarrow> nat option" where
  "last_block [] target = None"
| "last_block (b # bs) target =
     (case last_block bs target of
        Some k \<Rightarrow> Some (Suc k)
      | None \<Rightarrow> if bb_start b = target then Some 0 else None)"

definition enter_block ::
  "control_flow_graph \<Rightarrow> nat \<Rightarrow> translation_state \<Rightarrow> (straight_line_error, nat \<times> translation_state) res" where
  "enter_block graph index ts =
     (if index \<ge> length graph then Inl (Fail ControlFlowEnds)
      else bindE (at (sl_visited_block ts) index) (\<lambda>visited.
        if visited then Inl (Fail LoopsUnsupported)
        else Inr (bb_start (graph ! index),
               ts\<lparr>sl_visited_block := (sl_visited_block ts)[index := True]\<rparr>)))"

definition sl_translate ::
  "byte list \<Rightarrow> nat \<Rightarrow> instruction \<Rightarrow> translation_state \<Rightarrow> (straight_line_error, translation_state) res" where
  "sl_translate bytes position i ts =
     bindE (wrapE (CannotTranslate position)
       (translate bytes i \<lparr>mc_table = sl_table ts, mc_state = sl_state ts,
          mc_registers = Some (sl_registers ts), mc_memory = Some (sl_memory ts)\<rparr> 0)) (\<lambda>(_, m).
       Inr (ts\<lparr>sl_table := mc_table m, sl_state := mc_state m,
         sl_registers := (case mc_registers m of Some r \<Rightarrow> r | None \<Rightarrow> sl_registers ts),
         sl_memory := (case mc_memory m of Some mem \<Rightarrow> mem | None \<Rightarrow> sl_memory ts)\<rparr>))"

text \<open>One round of the loop: the position it goes on at, or the exit code.\<close>

datatype 'a round = finished byte 'a | goes_on nat 'a

definition branch_round ::
  "control_flow_graph \<Rightarrow> nat \<Rightarrow> instruction \<Rightarrow> translation_state \<Rightarrow>
     (straight_line_error, translation_state round) partial" where
  "branch_round graph position i ts =
     (case (last_block graph (walk_target position i), last_block graph (position + ins_size i)) of
        (Some target, Some fallthrough) \<Rightarrow>
          bindP (map_option (wrapE (\<lambda>_. ControlFlowEnds))
              (evaluate_condition (ins_condition i) (sl_table ts) (sl_state ts V_flags))) (\<lambda>taken.
          bindP (Some (enter_block graph (if taken then target else fallthrough) ts)) (\<lambda>(p, ts').
            Some (Inr (goes_on p ts'))))
      | _ \<Rightarrow> failP BranchTargetsUnresolved)"

definition walk_round ::
  "(byte list \<Rightarrow> byte list option) \<Rightarrow> byte list \<Rightarrow> control_flow_graph \<Rightarrow> nat \<Rightarrow> translation_state \<Rightarrow>
     (straight_line_error, translation_state round) partial" where
  "walk_round host bytes graph position ts =
     (if position \<ge> length bytes then failP ControlFlowEnds
      else bindP (Some (wrapE (CannotDecode position) (decode_at bytes position))) (\<lambda>i.
        if ins_kind i = k_interrupt then
          bindP (handle_interrupt host (ins_interrupt_number i) ts) (\<lambda>step.
            case step of
              exits code \<Rightarrow> Some (Inr (finished code ts))
            | continues ts' \<Rightarrow> Some (Inr (goes_on (position + ins_size i) ts')))
        else if ins_kind i = k_return then failP ControlFlowEnds
        else if ins_kind i = k_jump then
          (case first_block graph (walk_target position i) of
             None \<Rightarrow> Some (Inr (goes_on (walk_target position i) ts))
           | Some index \<Rightarrow>
               bindP (Some (enter_block graph index ts)) (\<lambda>(p, ts'). Some (Inr (goes_on p ts'))))
        else if ins_kind i = k_conditional_jump \<or> ins_kind i = k_loop then
          branch_round graph position i ts
        else bindP (Some (sl_translate bytes position i ts)) (\<lambda>ts'.
               Some (Inr (goes_on (position + ins_size i) ts')))))"

partial_function (option) walk_blocks ::
  "(byte list \<Rightarrow> byte list option) \<Rightarrow> byte list \<Rightarrow> control_flow_graph \<Rightarrow> nat \<Rightarrow> translation_state \<Rightarrow>
     (straight_line_error, byte \<times> translation_state) partial" where
  "walk_blocks host bytes graph position ts =
     bindP (walk_round host bytes graph position ts) (\<lambda>r.
       case r of
         finished code ts' \<Rightarrow> Some (Inr (code, ts'))
       | goes_on p ts' \<Rightarrow> walk_blocks host bytes graph p ts')"

definition translate_block ::
  "(byte list \<Rightarrow> byte list option) \<Rightarrow> byte list \<Rightarrow> control_flow_graph \<Rightarrow> nat \<Rightarrow> translation_state \<Rightarrow>
     (straight_line_error, byte \<times> translation_state) partial" where
  "translate_block host bytes graph index ts =
     bindP (Some (enter_block graph index ts)) (\<lambda>(p, ts'). walk_blocks host bytes graph p ts')"

section \<open>Entry points\<close>

definition mz_segment :: "program_image \<Rightarrow> u16" where
  "mz_segment img = 0x1000 + img_header_paragraphs img"

definition initial_registers :: "program_image \<Rightarrow> register_values" where
  "initial_registers img =
     (if img_format img = mz then
        (\<lambda>_. 0)(R_ds := 0x1000, R_es := 0x1000,
          R_ss := mz_segment img + sa_segment (img_initial_stack img),
          R_sp := sa_offset (img_initial_stack img))
      else (\<lambda>_. 0)(R_sp := 0xfffe))"

definition load_memory :: "program_image \<Rightarrow> (straight_line_error, real_mode_memory) res" where
  "load_memory img =
     (if img_format img = mz then
        wrapE CannotLoadMz (write_range real_mode_memory_init (unat (mz_segment img) * 16) (img_bytes img))
      else wrapE (\<lambda>_. CannotLoadCom) (write_range real_mode_memory_init 0x100 (img_bytes img)))"

definition initial_state :: "program_image \<Rightarrow> nat \<Rightarrow> real_mode_memory \<Rightarrow> translation_state" where
  "initial_state img blocks memory =
     \<lparr>sl_table = builder_init, sl_state = entry_state, sl_registers = initial_registers img,
      sl_memory = memory, sl_writes = [], sl_actions = [], sl_read_payloads = Map.empty,
      sl_next_fake_handle = 3, sl_handle_for_bx = Map.empty,
      sl_visited_block = replicate blocks False\<rparr>"

text \<open>The common part of \<open>extract_exit_code\<close> and \<open>compile\<close>.\<close>

definition straight_line_walk ::
  "(byte list \<Rightarrow> byte list option) \<Rightarrow> program_image \<Rightarrow> (straight_line_error, byte \<times> translation_state) partial" where
  "straight_line_walk host img =
     bindP (Some (wrapE CannotBuildCfg (build (img_bytes img) (entry_offset img)))) (\<lambda>graph.
     bindP (Some (wrapE CannotLowerIr (lower graph))) (\<lambda>_.
       if graph = [] then failP NoReachableBlocks
       else bindP (Some (load_memory img)) (\<lambda>memory.
              translate_block host (img_bytes img) graph 0 (initial_state img (length graph) memory))))"

definition straight_line_exit_code ::
  "(byte list \<Rightarrow> byte list option) \<Rightarrow> program_image \<Rightarrow> (straight_line_error, byte) partial" where
  "straight_line_exit_code host img =
     bindP (straight_line_walk host img) (\<lambda>(code, _). Some (Inr code))"

definition straight_line_compile ::
  "(byte list \<Rightarrow> byte list option) \<Rightarrow> program_image \<Rightarrow> (straight_line_error, byte list) partial" where
  "straight_line_compile host img =
     bindP (straight_line_walk host img) (\<lambda>(code, ts).
       Some (wrapE (\<lambda>_. EmitFailed)
         (if sl_actions ts \<noteq> [] then emit_action_program_executable (sl_actions ts) code
          else if sl_writes ts = [] then emit_exit_executable code
          else emit_multi_write_exit_executable (sl_writes ts) code)))"

end
