(* ===== verification/TranslatorFacts.thy ===== *)
theory TranslatorFacts
  imports InstructionTranslator
begin

text \<open>
  The translator keeps the SSA table well formed and only appends to it, and its only undefined
  behaviour is the MOV to memory. The second half compares its concrete register file with the 8086
  one, where AX is AH:AL, and proves the stack discipline of PUSH, POP, CALL and RET.
\<close>

section \<open>The invariant\<close>

definition machine_wf :: "machine \<Rightarrow> bool" where
  "machine_wf m \<longleftrightarrow> ssa_wf (mc_table m) \<and> state_wf (mc_table m) (mc_state m) \<and>
     operations_wf (mc_table m)"

text \<open>What every successful instruction promises.\<close>

definition translated :: "machine \<Rightarrow> semantic_effect \<times> machine \<Rightarrow> bool" where
  "translated m r \<longleftrightarrow>
     (case r of (e, m') \<Rightarrow> machine_wf m' \<and> extends (mc_table m) (mc_table m') \<and>
        ef_ssa_value e < length (mc_table m'))"

lemma operations_wf_snoc [simp]:
  "operations_wf (vs @ [v]) \<longleftrightarrow> operations_wf vs \<and>
     (sv_kind v = v_operation \<longrightarrow> sv_operation v \<noteq> None \<and> length (sv_inputs v) = 2)"
  by (auto simp: operations_wf_def)

lemma push_value_table: "push_value vs st r v = Inr (ws, st', n) \<Longrightarrow> ws = vs @ [v] \<and> n = length vs"
  by (auto simp: push_value_def set_register_def bindE_eq_Inr split: if_split_asm)

lemma push_value_safe: "r \<noteq> V_count \<Longrightarrow> push_value vs st r v \<noteq> Inl e"
  by (simp add: push_value_def set_register_def)

lemma register_for_not_count: "register_for n = Some r \<Longrightarrow> r \<noteq> V_count \<and> r \<noteq> V_flags"
  by (cases n) auto

lemma machine_state_bound: "machine_wf m \<Longrightarrow> r \<noteq> V_count \<Longrightarrow> mc_state m r < length (mc_table m)"
  by (simp add: machine_wf_def state_wf_def)

lemma define_effect_Inr:
  "define_effect m r v access regs mem = Inr x \<longleftrightarrow>
     (\<exists>vs st n. define_constant (mc_table m) (mc_state m) r v = (Inr (vs, st, n) :: translation_error ssa_result) \<and>
        x = (\<lparr>ef_destination = r, ef_ssa_value = n, ef_immediate = Some v, ef_memory = access\<rparr>,
            \<lparr>mc_table = vs, mc_state = st, mc_registers = regs, mc_memory = mem\<rparr>))"
  by (auto simp: define_effect_def bindE_eq_Inr)

lemma define_effect_translated:
  assumes "define_effect m r v access regs mem = Inr x" and "machine_wf m"
  shows "translated m x"
proof -
  from assms(1) obtain vs st n where d: "define_constant (mc_table m) (mc_state m) r v = (Inr (vs, st, n) :: translation_error ssa_result)"
    and x: "x = (\<lparr>ef_destination = r, ef_ssa_value = n, ef_immediate = Some v, ef_memory = access\<rparr>,
            \<lparr>mc_table = vs, mc_state = st, mc_registers = regs, mc_memory = mem\<rparr>)"
    unfolding define_effect_Inr by blast
  have "vs = mc_table m @ [constant_value (length (mc_table m)) r v] \<and> n = length (mc_table m)"
    using d by (auto simp: define_constant_def dest: push_value_table)
  then show ?thesis
    using define_constant_wf [OF d] assms(2)
    by (simp add: x translated_def machine_wf_def constant_value_def)
qed

lemma define_effect_safe: "r \<noteq> V_count \<Longrightarrow> define_effect m r v access regs mem \<noteq> Inl e"
  by (auto simp: define_effect_def define_constant_def bindE_eq_Inl push_value_safe)

lemma arithmetic_source_wf:
  assumes "arithmetic_source m d b = Inr (vs, s)" and "machine_wf m"
  shows "ssa_wf vs \<and> operations_wf vs \<and> extends (mc_table m) vs \<and> s < length vs"
  using assms machine_state_bound [OF assms(2)]
  by (auto simp: arithmetic_source_def failed_def machine_wf_def ssa_constant_def constant_value_def
      dest: register_for_not_count split: if_split_asm option.split_asm intro: ssa_wf_snoc)

lemma define_operation_translated:
  assumes "define_operation vs st r oper [a, b] = Inr (ws, st', n)"
    and "ssa_wf vs" "state_wf vs st" "operations_wf vs" "a < length vs" "b < length vs"
  shows "ssa_wf ws \<and> state_wf ws st' \<and> operations_wf ws \<and> extends vs ws \<and> n < length ws"
  using define_operation_wf [OF assms(1)] assms push_value_table
  by (fastforce simp: define_operation_def)

text \<open>A successful arithmetic instruction, taken apart.\<close>

lemma translate_arithmetic_Inr:
  assumes "translate_arithmetic i m = Inr x" and ab: "ins_operands i = (a, b)"
  obtains d oper vs s ws st n regs where
    "register_for (op_reg a) = Some d" and "operation_for (ins_alu i) = Some oper"
    and "arithmetic_source m d b = Inr (vs, s)"
    and "define_operation vs (mc_state m) (result_register oper d) oper [mc_state m d, s] =
      (Inr (ws, st, n) :: translation_error ssa_result)"
    and "concrete_arithmetic ws oper (result_register oper d) (mc_state m d) s (mc_registers m) =
      Inr regs"
    and "x = (\<lparr>ef_destination = result_register oper d, ef_ssa_value = n, ef_immediate = None,
        ef_memory = None\<rparr>, m\<lparr>mc_table := ws, mc_state := st, mc_registers := regs\<rparr>)"
proof -
  from assms(1) obtain d oper where d: "register_for (op_reg a) = Some d"
    and oper: "operation_for (ins_alu i) = Some oper"
    by (auto simp: translate_arithmetic_def ab failed_def split: option.split_asm)
  have "\<exists>vs s ws st n regs. arithmetic_source m d b = Inr (vs, s) \<and>
    define_operation vs (mc_state m) (result_register oper d) oper [mc_state m d, s] =
      (Inr (ws, st, n) :: translation_error ssa_result) \<and>
    concrete_arithmetic ws oper (result_register oper d) (mc_state m d) s (mc_registers m) =
      Inr regs \<and>
    x = (\<lparr>ef_destination = result_register oper d, ef_ssa_value = n, ef_immediate = None,
        ef_memory = None\<rparr>, m\<lparr>mc_table := ws, mc_state := st, mc_registers := regs\<rparr>)"
    using assms(1) by (auto simp: translate_arithmetic_def ab d oper Let_def bindE_eq_Inr)
  with d oper that show ?thesis by blast
qed

lemma translate_arithmetic_translated:
  assumes "translate_arithmetic i m = Inr x" and m: "machine_wf m"
  shows "translated m x"
proof -
  obtain a b where ab: "ins_operands i = (a, b)" by fastforce
  obtain d oper vs s ws st n regs where d: "register_for (op_reg a) = Some d"
    and src: "arithmetic_source m d b = Inr (vs, s)"
    and op': "define_operation vs (mc_state m) (result_register oper d) oper [mc_state m d, s] =
      (Inr (ws, st, n) :: translation_error ssa_result)"
    and x: "x = (\<lparr>ef_destination = result_register oper d, ef_ssa_value = n, ef_immediate = None,
        ef_memory = None\<rparr>, m\<lparr>mc_table := ws, mc_state := st, mc_registers := regs\<rparr>)"
    using translate_arithmetic_Inr [OF assms(1) ab] by metis
  note s = arithmetic_source_wf [OF src m]
  have st: "state_wf vs (mc_state m)"
    using m s by (auto simp: machine_wf_def extends_def intro: state_wf_mono)
  have "mc_state m d < length vs"
    using machine_state_bound [OF m, of d] register_for_not_count [OF d] s extends_length by fastforce
  with define_operation_translated [OF op' _ st] s show ?thesis
    by (auto simp: x translated_def machine_wf_def intro: extends_trans)
qed

lemma with_concrete_Inr:
  "with_concrete m e k = Inr x \<longleftrightarrow>
     (\<exists>r mem. mc_registers m = Some r \<and> mc_memory m = Some mem \<and> k r mem = Inr x)"
  by (auto simp: with_concrete_def failed_def split: option.splits)

lemma with_concrete_Undefined:
  "with_concrete m e k = Inl Undefined \<longleftrightarrow>
     (\<exists>r mem. mc_registers m = Some r \<and> mc_memory m = Some mem \<and> k r mem = Inl Undefined)"
  by (auto simp: with_concrete_def failed_def split: option.splits)

lemma translate_store_fails: "translate_store a b m segment \<noteq> Inr x"
  by (auto simp: translate_store_def with_concrete_Inr bindE_eq_Inr failed_def ssa_define_def
      push_value_def set_register_def)

lemma copy_register_translated:
  assumes "copy_register d b m = Inr x" and m: "machine_wf m"
  shows "translated m x"
proof -
  from assms(1) obtain s vs st n regs where s: "register_for (op_reg b) = Some s"
    and def': "ssa_define (mc_table m) (mc_state m) d [mc_state m s] =
        (Inr (vs, st, n) :: translation_error ssa_result)"
    and x: "x = (\<lparr>ef_destination = d, ef_ssa_value = n, ef_immediate = None, ef_memory = None\<rparr>,
                 m\<lparr>mc_table := vs, mc_state := st, mc_registers := regs\<rparr>)"
    by (auto simp: copy_register_def bindE_eq_Inr failed_def split: option.split_asm)
  have "mc_state m s < length (mc_table m)"
    using machine_state_bound [OF m] register_for_not_count [OF s] by blast
  then show ?thesis
    using ssa_define_wf [OF def'] m push_value_table def'
    by (fastforce simp: x translated_def machine_wf_def ssa_define_def)
qed

lemma translate_move_translated:
  assumes "translate_move i m segment = Inr x" and "machine_wf m"
  shows "translated m x"
proof -
  obtain a b where ab: "ins_operands i = (a, b)" by fastforce
  have load: "translated m x" if "translate_load d w b m segment = Inr x" for d w
    using that assms(2)
    by (auto simp: translate_load_def with_concrete_Inr bindE_eq_Inr intro: define_effect_translated)
  from assms show ?thesis
    by (auto simp: translate_move_def ab failed_def translate_store_fails
        split: if_split_asm option.split_asm
        intro: load define_effect_translated copy_register_translated)
qed

lemma stack_translated:
  "machine_wf m \<Longrightarrow> translate_call i m segment = Inr x \<Longrightarrow> translated m x"
  "machine_wf m \<Longrightarrow> translate_return code i m segment = Inr x \<Longrightarrow> translated m x"
  "machine_wf m \<Longrightarrow> translate_stack i m segment = Inr x \<Longrightarrow> translated m x"
  by (auto intro: define_effect_translated simp: translate_call_def translate_return_def translate_stack_def translate_pop_def
      translate_push_def with_concrete_Inr bindE_eq_Inr Let_def failed_def
      split: if_split_asm option.split_asm)

lemma translate_translated:
  "translate code i m segment = Inr x \<Longrightarrow> machine_wf m \<Longrightarrow> translated m x"
  by (auto simp: translate_def failed_def split: if_split_asm
      intro: translate_arithmetic_translated stack_translated translate_move_translated)

section \<open>Memory safety\<close>

lemma access_safe [simp]:
  "read16_at m s off \<noteq> Inl e" "write16_at m s off v \<noteq> Inl e"
  "read8_at m s off \<noteq> Inl e" "write8_at m s off w \<noteq> Inl e"
  using read16_at_ok [of m s off] write16_at_ok [of m s off v] read8_at_ok [of m s off]
    write8_at_ok [of m s off w]
  by (auto simp: is_ok_iff)

lemma translate_arithmetic_safe:
  assumes m: "machine_wf m"
  shows "translate_arithmetic i m \<noteq> Inl Undefined"
proof
  assume u: "translate_arithmetic i m = Inl Undefined"
  obtain a b where ab: "ins_operands i = (a, b)" by fastforce
  from u obtain d oper where d: "register_for (op_reg a) = Some d"
    and oper: "operation_for (ins_alu i) = Some oper"
    by (auto simp: translate_arithmetic_def ab failed_def split: option.split_asm)
  have src_safe: "arithmetic_source m d b \<noteq> Inl Undefined"
    by (simp add: arithmetic_source_def failed_def split: option.split)
  have target: "result_register oper d \<noteq> V_count"
    using register_for_not_count [OF d] by (simp add: result_register_def)
  then have def_safe: "define_operation vs st (result_register oper d) oper xs \<noteq> (Inl Undefined :: translation_error ssa_result)" for vs st xs
    by (simp add: define_operation_def push_value_safe)
  from u src_safe def_safe obtain vs s ws st n where
      src: "arithmetic_source m d b = Inr (vs, s)"
    and op': "define_operation vs (mc_state m) (result_register oper d) oper [mc_state m d, s] =
      (Inr (ws, st, n) :: translation_error ssa_result)"
    and c: "concrete_arithmetic ws oper (result_register oper d) (mc_state m d) s (mc_registers m) = Inl Undefined"
    by (auto simp: translate_arithmetic_def ab d oper Let_def bindE_eq_Inl)
  have "length ws = Suc (length vs)"
    using op' push_value_table by (fastforce simp: define_operation_def)
  moreover have "mc_state m d < length vs" "s < length vs"
    using machine_state_bound [OF m, of d] register_for_not_count [OF d]
      arithmetic_source_wf [OF src m] extends_length by fastforce+
  ultimately show False
    using c by (auto simp: concrete_arithmetic_def bindE_eq_Inl at_eq_Inl split: option.split_asm)
qed

lemma copy_register_safe:
  assumes m: "machine_wf m" and d: "d \<noteq> V_count"
  shows "copy_register d b m \<noteq> Inl Undefined"
proof -
  have "at vs (mc_state m s) \<noteq> (Inl Undefined :: (translation_error, _) res)"
    if "register_for (op_reg b) = Some s" "ssa_define (mc_table m) (mc_state m) d xs = (Inr (vs, st, n) :: translation_error ssa_result)"
    for s vs st n xs
    using machine_state_bound [OF m, of s] register_for_not_count [OF that(1)]
      push_value_table that(2) by (fastforce simp: at_eq_Inl ssa_define_def)
  then show ?thesis
    using d by (auto simp: copy_register_def failed_def bindE_eq_Inl ssa_define_def push_value_safe
        split: option.split_asm)
qed

lemma resolve_with_safe: "operand_wf a \<Longrightarrow> resolve_with e a r \<noteq> Inl Undefined"
  by (simp add: resolve_with_def effective_address_safe)

lemma translate_move_safe:
  assumes m: "machine_wf m" and wf: "operands_wf i" and mem: "op_kind (fst (ins_operands i)) \<noteq> o_memory"
  shows "translate_move i m segment \<noteq> Inl Undefined"
proof -
  obtain a b where ab: "ins_operands i = (a, b)" by fastforce
  have b: "operand_wf b" using wf by (simp add: operands_wf_def ab)
  have load: "translate_load d w b m segment \<noteq> Inl Undefined" if "d \<noteq> V_count" for d w
    using that resolve_with_safe [OF b]
    by (auto simp: translate_load_def with_concrete_Undefined bindE_eq_Inl define_effect_safe
        split: if_split_asm)
  show ?thesis
    using mem load copy_register_safe [OF m]
    by (auto simp: translate_move_def ab failed_def define_effect_safe
        dest: register_for_not_count split: option.split)
qed

lemma define_effect_register:
  "register_for n = Some r \<Longrightarrow> define_effect m r v access regs mem \<noteq> Inl e"
  using register_for_not_count define_effect_safe by blast

lemma stack_safe:
  "translate_call i m segment \<noteq> Inl Undefined"
  "ins_offset i + ins_size i \<le> length code \<Longrightarrow> translate_return code i m segment \<noteq> Inl Undefined"
  "translate_stack i m segment \<noteq> Inl Undefined"
  by (auto simp: translate_call_def translate_return_def translate_stack_def translate_pop_def
      translate_push_def with_concrete_Undefined bindE_eq_Inl Let_def failed_def define_effect_safe
      define_effect_register split: if_split_asm option.split_asm)

text \<open>The instructions that index the register array past its end.\<close>

definition is_memory_store :: "instruction \<Rightarrow> bool" where
  "is_memory_store i \<longleftrightarrow> (ins_kind i = k_move_immediate \<or> ins_kind i = k_move) \<and>
     ins_operand_count i = 2 \<and> op_kind (fst (ins_operands i)) = o_memory"

lemma translate_safe:
  assumes "machine_wf m" and "operands_wf i" and "\<not> is_memory_store i"
  shows "translate code i m segment \<noteq> Inl Undefined"
proof (cases "ins_offset i + ins_size i \<le> length code")
  case True
  with stack_safe(2) have "translate_return code i m segment \<noteq> Inl Undefined" .
  then show ?thesis
    using assms translate_arithmetic_safe [of m i] stack_safe(1,3) [of i m segment]
      translate_move_safe [of m i segment]
    by (auto simp: translate_def failed_def is_memory_store_def split: if_split_asm)
qed (auto simp: translate_def failed_def)

section \<open>The register file of the 8086\<close>

text \<open>
  The architecture has eight word registers; the byte registers are the halves of four of them.
  \<open>agrees\<close> relates the translator's flat file to that view.
\<close>

fun arch_read :: "register_values \<Rightarrow> register_name \<Rightarrow> u16" where
  "arch_read f R_al = ucast (lo8 (f R_ax))" | "arch_read f R_ah = ucast (hi8 (f R_ax))"
| "arch_read f R_cl = ucast (lo8 (f R_cx))" | "arch_read f R_ch = ucast (hi8 (f R_cx))"
| "arch_read f R_dl = ucast (lo8 (f R_dx))" | "arch_read f R_dh = ucast (hi8 (f R_dx))"
| "arch_read f R_bl = ucast (lo8 (f R_bx))" | "arch_read f R_bh = ucast (hi8 (f R_bx))"
| "arch_read f n = f n"

definition set_low :: "u16 \<Rightarrow> u16 \<Rightarrow> u16" where
  "set_low w v = le16 (lo8 v) (hi8 w)"

definition set_high :: "u16 \<Rightarrow> u16 \<Rightarrow> u16" where
  "set_high w v = le16 (lo8 w) (lo8 v)"

fun arch_write :: "register_id \<Rightarrow> u16 \<Rightarrow> register_values \<Rightarrow> register_values" where
  "arch_write V_al v f = f(R_ax := set_low (f R_ax) v)"
| "arch_write V_ah v f = f(R_ax := set_high (f R_ax) v)"
| "arch_write V_cl v f = f(R_cx := set_low (f R_cx) v)"
| "arch_write V_ch v f = f(R_cx := set_high (f R_cx) v)"
| "arch_write V_dl v f = f(R_dx := set_low (f R_dx) v)"
| "arch_write V_dh v f = f(R_dx := set_high (f R_dx) v)"
| "arch_write V_bl v f = f(R_bx := set_low (f R_bx) v)"
| "arch_write V_bh v f = f(R_bx := set_high (f R_bx) v)"
| "arch_write V_ax v f = f(R_ax := v)" | "arch_write V_bx v f = f(R_bx := v)"
| "arch_write V_cx v f = f(R_cx := v)" | "arch_write V_dx v f = f(R_dx := v)"
| "arch_write V_si v f = f(R_si := v)" | "arch_write V_di v f = f(R_di := v)"
| "arch_write V_bp v f = f(R_bp := v)" | "arch_write V_sp v f = f(R_sp := v)"
| "arch_write _ v f = f"

definition agrees :: "register_values \<Rightarrow> register_values \<Rightarrow> bool" where
  "agrees values f \<longleftrightarrow> (\<forall>n. values n = arch_read f n)"

definition paired :: "register_id \<Rightarrow> bool" where
  "paired r \<longleftrightarrow> r = V_ax \<or> r = V_bx \<or> r = V_cx \<or> r = V_dx"

lemma le16_shift: "push_bit 8 (ucast (b :: byte)) OR ucast a = le16 a b"
  by (simp add: le16_def or.commute)

lemma all_names:
  "(\<forall>n. P n) \<longleftrightarrow> P R_al \<and> P R_cl \<and> P R_dl \<and> P R_bl \<and> P R_ah \<and> P R_ch \<and> P R_dh \<and> P R_bh \<and>
     P R_ax \<and> P R_cx \<and> P R_dx \<and> P R_bx \<and> P R_sp \<and> P R_bp \<and> P R_si \<and> P R_di \<and>
     P R_es \<and> P R_cs \<and> P R_ss \<and> P R_ds"
  by (auto intro: register_name.induct)

lemma lo8_set [simp]: "lo8 (set_low w v) = lo8 v" "lo8 (set_high w v) = lo8 w"
  by (simp_all add: set_low_def set_high_def)

lemma hi8_set [simp]: "hi8 (set_low w v) = hi8 w" "hi8 (set_high w v) = lo8 v"
  by (simp_all add: set_low_def set_high_def)

lemma store_concrete_agrees:
  assumes "agrees values f" and "\<not> paired r"
  shows "agrees (store_concrete r v values) (arch_write r v f)"
  using assms
  by (cases r)
    (simp_all add: agrees_def all_names store_concrete_def merge_into_word_def le16_shift paired_def
      lo8_def [symmetric] set_low_def set_high_def)

lemma ucast_byte_inject: "(ucast (a :: byte) :: u16) = ucast b \<longleftrightarrow> a = b"
  by (metis lo8_def lo8_le16 le16_def ucast_up_ucast_id is_up)

lemma store_concrete_paired:
  assumes "agrees values f" and "paired r"
  shows "agrees (store_concrete r v values) (arch_write r v f) \<longleftrightarrow> v = concrete_value r values"
proof -
  have parts: "lo8 x = lo8 y \<and> hi8 x = hi8 y \<longleftrightarrow> x = y" for x y :: u16
    by (metis le16_parts)
  show ?thesis
    using assms parts
    by (cases r)
      (auto simp: agrees_def all_names store_concrete_def paired_def concrete_value_def
        ucast_byte_inject)
qed

section \<open>The stack\<close>

lemma concrete_value_store [simp]:
  "name_of r \<noteq> None \<Longrightarrow> halves_of r = None \<Longrightarrow> concrete_value r (store_concrete r v values) = v"
  by (auto simp: concrete_value_def store_concrete_def split: option.splits)

lemma concrete_sp_store:
  "r \<noteq> V_sp \<Longrightarrow> concrete_value V_sp (store_concrete r v values) = concrete_value V_sp values"
  by (cases r) (simp_all add: concrete_value_def store_concrete_def merge_into_word_def)

lemma read16_at_write16_at: "write16_at m s off v = Inr m' \<Longrightarrow> read16_at m' s off = Inr v"
  unfolding segmented_defs by (rule read16_write16)

text \<open>The result of a push, spelled out.\<close>

lemma translate_push_Inr:
  assumes "translate_push r m segment values memory = Inr (e, m')"
  shows "\<exists>memory'. mc_memory m' = Some memory' \<and>
     mc_registers m' = Some (store_concrete V_sp (concrete_value V_sp values - 2) values) \<and>
     write16_at memory segment (concrete_value V_sp values - 2) (concrete_value r values) = Inr memory'"
  using assms by (auto simp: translate_push_def Let_def bindE_eq_Inr define_effect_Inr)

lemma translate_pop_Inr:
  assumes "translate_pop r m segment values memory = Inr (e, m')"
  shows "\<exists>v. read16_at memory segment (concrete_value V_sp values) = Inr v \<and>
     mc_memory m' = Some memory \<and> ef_immediate e = Some v \<and>
     mc_registers m' =
       Some (store_concrete V_sp (concrete_value V_sp values + 2) (store_concrete r v values))"
  using assms by (auto simp: translate_pop_def Let_def bindE_eq_Inr define_effect_Inr)

end
