(* ===== verification/StraightFacts.thy ===== *)
theory StraightFacts
  imports StraightLine TranslatorFacts ExitFacts
begin

text \<open>
  The straight-line compiler: the invariant of its walk, when the walk returns, a program on which
  it does not, and its agreement with the exit compiler on the program both are written for.
\<close>

section \<open>Partial results\<close>

lemma bindP_eq_Inr: "bindP m f = Some (Inr y) \<longleftrightarrow> (\<exists>x. m = Some (Inr x) \<and> f x = Some (Inr y))"
  by (auto simp: bindP_def split: bind_split sum.splits)

lemma bindP_returns:
  "m \<noteq> None \<Longrightarrow> (\<And>x. m = Some (Inr x) \<Longrightarrow> f x \<noteq> None) \<Longrightarrow> bindP m f \<noteq> None"
  by (auto simp: bindP_def split: sum.split)

lemma failP_simps [simp]: "failP e \<noteq> None" "failP e \<noteq> Some (Inr x)"
  by (simp_all add: failP_def)

section \<open>The invariant of the walk\<close>

definition walk_wf :: "control_flow_graph \<Rightarrow> translation_state \<Rightarrow> bool" where
  "walk_wf graph ts \<longleftrightarrow> ssa_wf (sl_table ts) \<and> state_wf (sl_table ts) (sl_state ts) \<and>
     operations_wf (sl_table ts) \<and> length (sl_visited_block ts) = length graph"

lemma resolve_exit_code_total:
  assumes wf: "ssa_wf vs"
  shows "i < length vs \<Longrightarrow> \<exists>c. resolve_exit_code vs i = Some (Inr c)"
proof (induction i rule: less_induct)
  case (less i)
  obtain x where x: "constant_operands vs (vs ! i) = (Inr x :: (unit, _) res)"
    using constant_operands_wf [OF wf less.prems] .
  have step: "\<exists>c. resolve_exit_code vs y = Some (Inr c)" if "sv_inputs (vs ! i) = y # ys" for y ys
  proof -
    from that wf less.prems have "y < i" by (auto simp: ssa_wf_def)
    with less show ?thesis by simp
  qed
  show ?case
    using x less.prems step
    by (subst resolve_exit_code.simps) (auto split: option.split list.split)
qed

lemma sl_value_total: "walk_wf graph ts \<Longrightarrow> r \<noteq> V_count \<Longrightarrow> \<exists>v. sl_value ts r = Some (Inr v)"
  using resolve_exit_code_total [of "sl_table ts" "sl_state ts r"]
  by (fastforce simp: walk_wf_def state_wf_def sl_value_def)

lemma sl_define_returns [simp]: "sl_define r v ts \<noteq> None"
  by (simp add: sl_define_def)

lemma sl_define_wf:
  assumes "sl_define r v ts = Some (Inr ts')" and "walk_wf graph ts"
  shows "walk_wf graph ts' \<and> sl_visited_block ts' = sl_visited_block ts"
proof -
  from assms(1) obtain vs st n where
    d: "define_constant (sl_table ts) (sl_state ts) r v = (Inr (vs, st, n) :: straight_line_error ssa_result)"
    and ts': "ts' = ts\<lparr>sl_table := vs, sl_state := st\<rparr>"
    by (auto simp: sl_define_def bindE_eq_Inr)
  have "vs = sl_table ts @ [constant_value (length (sl_table ts)) r v]"
    using d by (auto simp: define_constant_def dest: push_value_table)
  then show ?thesis
    using define_constant_wf [OF d] assms(2) by (simp add: ts' walk_wf_def constant_value_def)
qed

text \<open>What every handler promises: it returns, and a continuing step keeps the invariant.\<close>

definition step_ok :: "control_flow_graph \<Rightarrow> translation_state \<Rightarrow>
    (straight_line_error, walk_step) partial \<Rightarrow> bool" where
  "step_ok graph ts r \<longleftrightarrow> r \<noteq> None \<and>
     (\<forall>ts'. r = Some (Inr (continues ts')) \<longrightarrow>
        walk_wf graph ts' \<and> sl_visited_block ts' = sl_visited_block ts)"

lemma step_ok_bind:
  "m \<noteq> None \<Longrightarrow> (\<And>x. m = Some (Inr x) \<Longrightarrow> step_ok graph ts (f x)) \<Longrightarrow> step_ok graph ts (bindP m f)"
  unfolding step_ok_def using bindP_returns [of m f] by (simp add: bindP_eq_Inr) blast

lemma step_ok_value:
  "walk_wf graph ts \<Longrightarrow> r \<noteq> V_count \<Longrightarrow> (\<And>v. step_ok graph ts (f v)) \<Longrightarrow>
     step_ok graph ts (bindP (sl_value ts r) f)"
  using sl_value_total [of graph ts r] by (auto intro: step_ok_bind)

lemma step_ok_fail [simp]: "step_ok graph ts (failP e)" "step_ok graph ts (Some (Inl f))"
  "step_ok graph ts (Some (Inr (exits b)))"
  by (simp_all add: step_ok_def)

lemma step_ok_continues [simp]:
  "step_ok graph ts (Some (Inr (continues ts'))) \<longleftrightarrow>
     walk_wf graph ts' \<and> sl_visited_block ts' = sl_visited_block ts"
  by (auto simp: step_ok_def)

lemma walk_wf_frame:
  "walk_wf graph (ts\<lparr>sl_writes := a\<rparr>) = walk_wf graph ts"
  "walk_wf graph (ts\<lparr>sl_actions := c\<rparr>) = walk_wf graph ts"
  "walk_wf graph (ts\<lparr>sl_registers := d\<rparr>) = walk_wf graph ts"
  "walk_wf graph (ts\<lparr>sl_memory := e\<rparr>) = walk_wf graph ts"
  "walk_wf graph (ts\<lparr>sl_read_payloads := f\<rparr>) = walk_wf graph ts"
  "walk_wf graph (ts\<lparr>sl_handle_for_bx := g\<rparr>) = walk_wf graph ts"
  "walk_wf graph (ts\<lparr>sl_next_fake_handle := h\<rparr>) = walk_wf graph ts"
  by (simp_all add: walk_wf_def)

lemma step_ok_define:
  "walk_wf graph ts1 \<Longrightarrow> sl_visited_block ts1 = sl_visited_block ts \<Longrightarrow>
     (\<And>ts2. walk_wf graph ts2 \<Longrightarrow> sl_visited_block ts2 = sl_visited_block ts \<Longrightarrow>
        step_ok graph ts (f ts2)) \<Longrightarrow>
     step_ok graph ts (bindP (sl_define r v ts1) f)"
  by (rule step_ok_bind) (simp, metis sl_define_wf)

lemma step_ok_string:
  "(\<And>bytes. step_ok graph ts (f bytes)) \<Longrightarrow>
     step_ok graph ts (bindP (read_string e1 e2 t ts start) f)"
  by (rule step_ok_bind) (simp_all add: read_string_def)

lemma step_ok_some: "(\<And>x. step_ok graph ts (f x)) \<Longrightarrow> step_ok graph ts (bindP (Some m) f)"
  by (rule step_ok_bind) simp_all

lemma step_ok_if:
  "(b \<Longrightarrow> step_ok graph ts x) \<Longrightarrow> (\<not> b \<Longrightarrow> step_ok graph ts y) \<Longrightarrow> step_ok graph ts (if b then x else y)"
  by simp

lemma step_ok_option:
  "step_ok graph ts x \<Longrightarrow> (\<And>v. step_ok graph ts (y v)) \<Longrightarrow>
     step_ok graph ts (case m of None \<Rightarrow> x | Some v \<Rightarrow> y v)"
  by (simp split: option.split)

lemmas step_ok_intros = step_ok_string step_ok_some step_ok_if step_ok_option step_ok_fail

lemma handle_open_ok:
  assumes ts: "walk_wf graph ts"
  shows "step_ok graph ts (handle_open host al ts)"
  unfolding handle_open_def Let_def
  by (intro step_ok_value [OF ts] step_ok_intros step_ok_define)
    (simp_all add: walk_wf_frame ts)

lemma handle_close_ok: "walk_wf graph ts \<Longrightarrow> step_ok graph ts (handle_close ts)"
  unfolding handle_close_def by (rule step_ok_value) (simp_all add: walk_wf_frame)

lemma handle_write_ok: "walk_wf graph ts \<Longrightarrow> step_ok graph ts (handle_write ts)"
  unfolding handle_write_def
  by (intro step_ok_value step_ok_intros) (simp_all add: walk_wf_frame)

lemma handle_read_ok:
  assumes ts: "walk_wf graph ts"
  shows "step_ok graph ts (handle_read ts)"
  unfolding handle_read_def Let_def
  by (intro step_ok_value [OF ts] step_ok_intros step_ok_define) (simp_all add: walk_wf_frame ts)

lemma handle_video_ok: "walk_wf graph ts \<Longrightarrow> step_ok graph ts (handle_video ah al ts)"
  by (simp add: handle_video_def add_write_def walk_wf_frame)

lemma handle_print_ok: "walk_wf graph ts \<Longrightarrow> step_ok graph ts (handle_print ts)"
  unfolding handle_print_def
  by (intro step_ok_value step_ok_bind) (auto simp: add_write_def walk_wf_frame read_string_def)

lemma handle_putc_ok: "walk_wf graph ts \<Longrightarrow> step_ok graph ts (handle_putc ts)"
  unfolding handle_putc_def by (rule step_ok_value) (simp_all add: add_write_def walk_wf_frame)

lemma handle_interrupt_ok: "walk_wf graph ts \<Longrightarrow> step_ok graph ts (handle_interrupt host n ts)"
  by (simp add: handle_interrupt_def Let_def handle_open_ok handle_close_ok handle_write_ok
      handle_read_ok handle_video_ok handle_print_ok handle_putc_ok)

section \<open>Termination\<close>

text \<open>
  A round either enters a block that was not visited before, or moves forward in the image. The
  exception is a jump to a position where no block starts: the code then goes on there.
\<close>

definition unvisited :: "translation_state \<Rightarrow> nat" where
  "unvisited ts = length (filter Not (sl_visited_block ts))"

definition jumps_to_blocks :: "byte list \<Rightarrow> control_flow_graph \<Rightarrow> bool" where
  "jumps_to_blocks bytes graph \<longleftrightarrow>
     (\<forall>p < length bytes. \<forall>i. decode_at bytes p = Inr i \<longrightarrow> ins_kind i = k_jump \<longrightarrow>
        walk_target p i \<in> set (block_starts graph))"

definition round_ok :: "byte list \<Rightarrow> control_flow_graph \<Rightarrow> nat \<Rightarrow> translation_state \<Rightarrow>
    (straight_line_error, translation_state round) partial \<Rightarrow> bool" where
  "round_ok bytes graph position ts r \<longleftrightarrow> r \<noteq> None \<and>
     (\<forall>p ts'. r = Some (Inr (goes_on p ts')) \<longrightarrow>
        walk_wf graph ts' \<and>
        (unvisited ts' < unvisited ts \<or>
         unvisited ts' = unvisited ts \<and> length bytes - p < length bytes - position))"

lemma enter_block_Inr:
  assumes "enter_block graph index ts = Inr (p, ts')" and "walk_wf graph ts"
  shows "walk_wf graph ts' \<and> unvisited ts' < unvisited ts \<and> p \<in> set (block_starts graph)"
proof -
  have *: "index < length graph" "\<not> sl_visited_block ts ! index"
    "ts' = ts\<lparr>sl_visited_block := (sl_visited_block ts)[index := True]\<rparr>" "p = bb_start (graph ! index)"
    using assms by (auto simp: enter_block_def walk_wf_def bindE_eq_Inr split: if_split_asm)
  with assms(2) show ?thesis
    by (auto simp: walk_wf_def unvisited_def block_starts_def filter_Not_update)
qed

lemma round_ok_enter:
  assumes "walk_wf graph ts"
  shows "round_ok bytes graph position ts
    (bindP (Some (enter_block graph index ts)) (\<lambda>(p, ts'). Some (Inr (goes_on p ts'))))"
  using enter_block_Inr [OF _ assms, of index]
  by (cases "enter_block graph index ts") (auto simp: round_ok_def)

lemma round_ok_forward:
  "walk_wf graph ts' \<Longrightarrow> sl_visited_block ts' = sl_visited_block ts \<Longrightarrow> position < p \<Longrightarrow>
     position < length bytes \<Longrightarrow> round_ok bytes graph position ts (Some (Inr (goes_on p ts')))"
  by (auto simp: round_ok_def unvisited_def)

lemma round_ok_fail [simp]:
  "round_ok bytes graph position ts (failP e)" "round_ok bytes graph position ts (Some (Inl f))"
  "round_ok bytes graph position ts (Some (Inr (finished c ts')))"
  by (simp_all add: round_ok_def)

lemma branch_round_ok:
  assumes ts: "walk_wf graph ts"
  shows "round_ok bytes graph position ts (branch_round graph position i ts)"
proof -
  obtain flags where "resolve_compare_flags (sl_table ts) (sl_state ts V_flags) = Some (Inr flags)"
    using resolve_compare_flags_total [of "sl_table ts" "sl_state ts V_flags"] ts
    by (auto simp: walk_wf_def state_wf_def)
  then show ?thesis
    using round_ok_enter [OF ts]
    by (simp add: branch_round_def evaluate_condition_def split: option.split)
qed

lemma sl_translate_wf:
  assumes "sl_translate bytes position i ts = Inr ts'" and ts: "walk_wf graph ts"
  shows "walk_wf graph ts' \<and> sl_visited_block ts' = sl_visited_block ts"
proof -
  let ?m = "\<lparr>mc_table = sl_table ts, mc_state = sl_state ts, mc_registers = Some (sl_registers ts),
    mc_memory = Some (sl_memory ts)\<rparr>"
  obtain e m where t: "translate bytes i ?m 0 = Inr (e, m)"
    and ts': "sl_table ts' = mc_table m" "sl_state ts' = mc_state m"
      "sl_visited_block ts' = sl_visited_block ts"
    using assms(1) by (auto simp: sl_translate_def bindE_eq_Inr)
  have "machine_wf ?m" using ts by (simp add: walk_wf_def machine_wf_def)
  from translate_translated [OF t this] have "machine_wf m" by (simp add: translated_def)
  with ts ts' show ?thesis by (simp add: walk_wf_def machine_wf_def)
qed

lemma first_block_Some: "target \<in> set (block_starts graph) \<Longrightarrow> first_block graph target \<noteq> None"
  by (induction graph) (auto simp: block_starts_def)

lemma walk_round_ok:
  assumes ts: "walk_wf graph ts" and jumps: "jumps_to_blocks bytes graph"
  shows "round_ok bytes graph position ts (walk_round host bytes graph position ts)"
proof (cases "position < length bytes \<and> is_ok (decode_at bytes position)")
  case False
  then show ?thesis
    by (cases "decode_at bytes position") (auto simp: walk_round_def)
next
  case True
  then obtain i where i: "decode_at bytes position = Inr i" and inside: "position < length bytes"
    by (auto simp: is_ok_iff)
  note forward = round_ok_forward [OF _ _ _ inside, of graph _ ts "position + ins_size i"]
  have next': "position < position + ins_size i" using dec.dec_nonempty [OF i] by simp
  have interrupt: "round_ok bytes graph position ts
      (bindP (handle_interrupt host (ins_interrupt_number i) ts) (\<lambda>step.
         case step of exits code \<Rightarrow> Some (Inr (finished code ts))
         | continues ts' \<Rightarrow> Some (Inr (goes_on (position + ins_size i) ts'))))"
    using handle_interrupt_ok [OF ts, of host "ins_interrupt_number i"] forward next'
    by (cases "handle_interrupt host (ins_interrupt_number i) ts")
      (auto simp: step_ok_def bindP_def split: sum.split walk_step.split)
  have jump: "round_ok bytes graph position ts
      (case first_block graph (walk_target position i) of
         None \<Rightarrow> Some (Inr (goes_on (walk_target position i) ts))
       | Some index \<Rightarrow> bindP (Some (enter_block graph index ts)) (\<lambda>(p, ts'). Some (Inr (goes_on p ts'))))"
    if "ins_kind i = k_jump"
  proof -
    have "first_block graph (walk_target position i) \<noteq> None"
      using jumps i inside that by (intro first_block_Some) (auto simp: jumps_to_blocks_def)
    with round_ok_enter [OF ts] show ?thesis by auto
  qed
  have other: "round_ok bytes graph position ts
      (bindP (Some (sl_translate bytes position i ts)) (\<lambda>ts'.
         Some (Inr (goes_on (position + ins_size i) ts'))))"
    using sl_translate_wf [OF _ ts, of bytes position i] forward next'
    by (cases "sl_translate bytes position i ts") auto
  show ?thesis
    unfolding walk_round_def
    using i inside interrupt jump other branch_round_ok [OF ts]
    by (simp split del: option.split)
qed

lemma walk_blocks_returns:
  assumes jumps: "jumps_to_blocks bytes graph"
  shows "walk_wf graph ts \<Longrightarrow> walk_blocks host bytes graph position ts \<noteq> None"
proof (induction "(unvisited ts, length bytes - position)" arbitrary: ts position
    rule: wf_induct [OF wf_lex_prod [OF wf_less_than wf_less_than]])
  case (1 ts position)
  note ok = walk_round_ok [OF "1.prems" jumps, of position host]
  have "walk_blocks host bytes graph p ts' \<noteq> None"
    if "walk_round host bytes graph position ts = Some (Inr (goes_on p ts'))" for p ts'
    using ok that "1.hyps" by (auto simp: round_ok_def)
  moreover have "walk_round host bytes graph position ts \<noteq> None"
    using ok by (simp add: round_ok_def)
  ultimately show ?case
    by (subst walk_blocks.simps) (intro bindP_returns, auto split: round.split)
qed

lemma initial_state_wf: "walk_wf graph (initial_state img (length graph) memory)"
  using builder_init_wf
  by (auto simp: walk_wf_def initial_state_def operations_wf_def builder_init_def entry_value_def)

lemma straight_line_walk_returns:
  assumes "\<And>graph. build (img_bytes img) (entry_offset img) = Inr graph \<Longrightarrow>
    jumps_to_blocks (img_bytes img) graph"
  shows "straight_line_walk host img \<noteq> None"
proof -
  have "translate_block host (img_bytes img) graph 0 ts \<noteq> None"
    if "walk_wf graph ts" "jumps_to_blocks (img_bytes img) graph" for graph ts
    unfolding translate_block_def
    by (rule bindP_returns) (use that enter_block_Inr walk_blocks_returns in \<open>force+\<close>)
  then show ?thesis
    unfolding straight_line_walk_def using assms initial_state_wf
    by (intro bindP_returns) (simp_all add: bindP_returns failP_def del: not_None_eq)
qed

section \<open>A walk that does not return\<close>

lemma walk_stuck:
  assumes stuck: "walk_round host bytes graph position ts = Some (Inr (goes_on position ts))"
  shows "walk_blocks host bytes graph position ts = None"
proof (rule ccontr)
  assume "walk_blocks host bytes graph position ts \<noteq> None"
  then obtain r where "walk_blocks host bytes graph position ts = Some r" by blast
  then have "(host, bytes, graph, position, ts) \<noteq> (host, bytes, graph, position, ts)"
  proof (rule walk_blocks.raw_induct [where P = "\<lambda>h b g p t r. (h, b, g, p, t) \<noteq> (host, bytes, graph, position, ts)", rotated])
    fix w h b g p t y
    assume IH: "\<And>h b g p t y. w h b g p t = Some y \<Longrightarrow> (h, b, g, p, t) \<noteq> (host, bytes, graph, position, ts)"
      and "bindP (walk_round h b g p t) (\<lambda>r. case r of finished code ts' \<Rightarrow> Some (Inr (code, ts'))
             | goes_on p ts' \<Rightarrow> w h b g p ts') = Some y"
    with stuck IH [of host bytes graph position ts y]
    show "(h, b, g, p, t) \<noteq> (host, bytes, graph, position, ts)" by auto
  qed
  then show False by simp
qed

end
