(* ===== verification/StraightPrograms.thy ===== *)
theory StraightPrograms
  imports StraightFacts
begin

text \<open>
  Three programs through the straight-line compiler: \<open>MOV AX, 4Cxxh; INT 21h\<close>, on which it agrees
  with the exit compiler for every exit code; \<open>JMP $\<close>, which it rejects as a loop; and
  \<open>MOV AH, 2; INT 21h; JMP $\<close>, on which it does not return, because the basic blocks end at the
  interrupt and the jump behind it has no block to enter.
\<close>

section \<open>Decoding\<close>

lemma skipped_before_eb:
  "decode_fixed code off 0xeb = None" "decode_string code off 0xeb = None" "decode_io code off 0xeb = None"
  "decode_immediate_move code off 0xeb = None" "decode_accumulator code off 0xeb = None"
  "decode_stack code off 0xeb = None" "decode_inc_dec code off 0xeb = None"
  "decode_modrm_arithmetic code off 0xeb = None" "decode_move_modrm code off 0xeb = None"
  "decode_group_immediate code off 0xeb = None" "decode_ff code off 0xeb = None"
  "decode_groups code off 0xeb = None"
  by (simp_all add: decode_fixed_def decode_string_def is_string_opcode_def decode_io_def
      decode_immediate_move_def decode_accumulator_def accumulator_opcodes_def decode_stack_def
      decode_inc_dec_def decode_modrm_arithmetic_def is_modrm_arithmetic_def decode_move_modrm_def
      decode_group_immediate_def group_immediate_opcodes_def decode_ff_def decode_groups_def)

lemma decode_jmp_self:
  assumes "off + 1 < length code" and "code ! off = 0xeb" and "code ! (off + 1) = 0xfe"
  shows "\<exists>i. decode_at code off = Inr i \<and> ins_kind i = k_jump \<and> ins_size i = 2 \<and>
    ins_relative_target i = - 2 \<and> ins_offset i = off"
proof -
  have "sint (0xfe :: byte) = - 2" by simp
  then have "\<exists>i. decode_control code off 0xeb = Some (Inr i) \<and> ins_kind i = k_jump \<and> ins_size i = 2 \<and>
    ins_relative_target i = - 2 \<and> ins_offset i = off"
    using assms by (simp add: decode_control_def relative8_def need_here byte_at_def basic_def)
  then show ?thesis
    using assms
    by (auto simp: decode_at_plain is_prefix_def decode_opcode_def opcode_groups_def skipped_before_eb)
qed

section \<open>Graphs\<close>

lemma pass_single:
  "walk code starts s s = Inr (b, starts', ch) \<Longrightarrow> next_start s starts' = None \<Longrightarrow>
     pass code starts s [] False = Inr ([b], starts', ch)"
  by (simp add: pass.simps [of code starts s "[]" False])

lemma build_single:
  "0 < length code \<Longrightarrow> walk code [0] 0 0 = Inr (b, [0], False) \<Longrightarrow> build code 0 = Inr [b]"
  using pass_single [of code "[0]" 0 b "[0]" False]
  by (simp add: build_def build_loop.simps [of code "[0]"] next_start_def)

text \<open>A move and then an interrupt: one block, and no successors.\<close>

lemma build_move_int:
  assumes "decode_at code 0 = Inr i" and "\<not> ends_block (ins_kind i)" and "0 < ins_size i"
    and "decode_at code (ins_size i) = Inr (basic k_interrupt (ins_size i) 2 0 n)"
  shows "build code 0 = Inr [\<lparr>bb_start = 0, bb_end = ins_size i + 2, bb_successors = [],
    bb_condition = c_always\<rparr>]"
proof (rule build_single)
  have inside: "ins_size i < length code" using dec.dec_inside [OF assms(4)] .
  then show "0 < length code" by (cases code) simp_all
  have "walk code [0] 0 (ins_size i) = Inr (\<lparr>bb_start = 0, bb_end = ins_size i + 2,
      bb_successors = [], bb_condition = c_always\<rparr>, [0], False)"
    using assms by (subst walk.simps)
      (simp add: finish_block_def direct_target_def ends_block_def has_direct_target_def
        falls_through_def basic_def)
  with assms inside show "walk code [0] 0 0 = Inr (\<lparr>bb_start = 0, bb_end = ins_size i + 2,
      bb_successors = [], bb_condition = c_always\<rparr>, [0], False)"
    by (subst walk.simps) simp
qed

lemma build_jmp_self:
  assumes "code = [0xeb, 0xfe]"
  shows "build code 0 = Inr [\<lparr>bb_start = 0, bb_end = 2, bb_successors = [0], bb_condition = c_always\<rparr>]"
proof (rule build_single)
  show "0 < length code" by (simp add: assms)
  obtain i where i: "decode_at code 0 = Inr i" "ins_kind i = k_jump" "ins_size i = 2"
    "ins_relative_target i = - 2" "ins_offset i = 0"
    using decode_jmp_self [of 0 code] by (auto simp: assms)
  then show "walk code [0] 0 0 = Inr (\<lparr>bb_start = 0, bb_end = 2, bb_successors = [0],
      bb_condition = c_always\<rparr>, [0], False)"
    by (subst walk.simps)
      (simp add: finish_block_def direct_target_def ends_block_def has_direct_target_def
        falls_through_def target_for_def set_insert_def assms)
qed

section \<open>Walks of COM programs\<close>

text \<open>The walk of a COM image whose graph is one block at the entry.\<close>

definition com_state :: "byte list \<Rightarrow> nat \<Rightarrow> translation_state" where
  "com_state code blocks =
     initial_state (com_image code) blocks
       (real_mode_memory_init\<lparr>mem_bytes := copy_to (mem_bytes real_mode_memory_init) 0x100 code\<rparr>)"

lemma walk_com_single:
  assumes code: "code \<noteq> []" "length code \<le> 65535" and g: "build code 0 = Inr [b]" and b: "bb_start b = 0"
  shows "straight_line_walk host (com_image code) =
    walk_blocks host code [b] 0 ((com_state code 1)\<lparr>sl_visited_block := [True]\<rparr>)"
proof -
  obtain p where p: "lower [b] = Inr p"
    using good_graph_lowers [OF build_good [OF g]] by blast
  have "\<not> memory_size < 0x100" "\<not> memory_size - 0x100 < length code"
    using code(2) by (simp_all add: memory_size_def)
  then show ?thesis
    using g p b
    by (simp add: straight_line_walk_def load_memory_def write_range_def translate_block_def enter_block_def
        com_state_def initial_state_def)
qed

text \<open>A constant moved into a register.\<close>

lemma walk_move_immediate:
  assumes "position < length code" and "decode_at code position = Inr i"
    and "i = with_operands (basic k_move_immediate position n 0 0)
       (default_operand\<lparr>op_kind := o_reg, op_width := w, op_reg := reg\<rparr>) (immediate_operand w v) 2 a_none"
    and "register_for reg = Some r"
  shows "walk_round host code graph position ts =
    Some (Inr (goes_on (position + n) (ts\<lparr>
      sl_table := sl_table ts @ [constant_value (length (sl_table ts)) r v],
      sl_state := (sl_state ts)(r := length (sl_table ts)),
      sl_registers := store_concrete r v (sl_registers ts)\<rparr>)))"
proof -
  have "\<not> length code < position" "\<not> length code - position < n"
    using assms(1) dec.dec_end [OF assms(2)] assms(3) by (simp_all add: with_operands_def basic_def)
  then show ?thesis
    using assms register_for_not_count [OF assms(4)]
    by (simp add: walk_round_def sl_translate_def translate_def is_register_arithmetic_def
        is_stack_register_def translate_move_def with_operands_def basic_def immediate_operand_def
        default_operand_def define_effect_def define_constant_def push_value_def set_register_def)
qed

lemma walk_exit:
  assumes "position < length code" and "decode_at code position = Inr (basic k_interrupt position 2 0 n)"
    and "n = 0x21 \<or> n = 0x10" and "hi8 (sl_registers ts R_ax) = 0x4c"
  shows "walk_round host code graph position ts = Some (Inr (finished (lo8 (sl_registers ts R_ax)) ts))"
  using assms by (auto simp: walk_round_def handle_interrupt_def basic_def Let_def)

lemma walk_blocks_goes_on:
  "walk_round host code graph position ts = Some (Inr (goes_on p ts')) \<Longrightarrow>
     walk_blocks host code graph position ts = walk_blocks host code graph p ts'"
  by (subst walk_blocks.simps) simp

lemma walk_blocks_finished:
  "walk_round host code graph position ts = Some (Inr (finished c ts')) \<Longrightarrow>
     walk_blocks host code graph position ts = Some (Inr (c, ts'))"
  by (subst walk_blocks.simps) simp

subsection \<open>MOV AX, 4Cxxh; INT 21h\<close>

definition exit_program :: "byte \<Rightarrow> byte list" where
  "exit_program v = [0xb8, v, 0x4c, 0xcd, 0x21]"

lemma exit_program_walk:
  "\<exists>ts. straight_line_walk host (com_image (exit_program v)) = Some (Inr (v, ts)) \<and>
     sl_actions ts = [] \<and> sl_writes ts = []"
proof -
  let ?code = "exit_program v"
  have d0: "decode_at ?code 0 = Inr (mov_ax_instruction 0 (le16 v 0x4c))"
    using decode_mov_ax [where off = 0 and code = ?code] by (simp add: exit_program_def)
  have d3: "decode_at ?code 3 = Inr (basic k_interrupt 3 2 0 0x21)"
    using decode_int [where off = 3 and code = ?code] by (simp add: exit_program_def)
  let ?b = "\<lparr>bb_start = 0, bb_end = 3 + 2, bb_successors = [], bb_condition = c_always\<rparr>"
  have g: "build ?code 0 = Inr [?b]"
    using build_move_int [OF d0, where n = "0x21"] d3 by (simp add: ends_block_def)
  let ?ts = "(com_state ?code 1)\<lparr>sl_visited_block := [True]\<rparr>"
  have "straight_line_walk host (com_image ?code) = walk_blocks host ?code [?b] 0 ?ts"
    by (rule walk_com_single [OF _ _ g]) (simp_all add: exit_program_def)
  moreover obtain ts where go: "walk_round host ?code [?b] 0 ?ts = Some (Inr (goes_on 3 ts))"
      and ts: "sl_actions ts = []" "sl_writes ts = []" "sl_registers ts R_ax = le16 v 0x4c"
    using walk_move_immediate [OF _ d0 mov_ax_instruction_def, where host = host and graph = "[?b]" and ts = ?ts and r = V_ax]
    by (simp add: exit_program_def com_state_def initial_state_def store_concrete_def)
  moreover have "walk_round host ?code [?b] 3 ts = Some (Inr (finished v ts))"
    using walk_exit [OF _ d3, where ts = ts and host = host and graph = "[?b]"] ts(3)
    by (simp add: exit_program_def)
  ultimately show ?thesis
    using walk_blocks_goes_on [OF go] walk_blocks_finished by auto
qed

subsection \<open>JMP $\<close>

definition self_jump :: "byte list" where
  "self_jump = [0xeb, 0xfe]"

lemma self_jump_graph:
  "build self_jump 0 = Inr [\<lparr>bb_start = 0, bb_end = 2, bb_successors = [0], bb_condition = c_always\<rparr>]"
  by (rule build_jmp_self) (simp add: self_jump_def)

lemma skipped_before_fe:
  "decode_fixed code off 0xfe = None" "decode_string code off 0xfe = None" "decode_io code off 0xfe = None"
  "decode_immediate_move code off 0xfe = None" "decode_accumulator code off 0xfe = None"
  "decode_stack code off 0xfe = None" "decode_inc_dec code off 0xfe = None"
  "decode_modrm_arithmetic code off 0xfe = None" "decode_move_modrm code off 0xfe = None"
  "decode_group_immediate code off 0xfe = None" "decode_ff code off 0xfe = None"
  by (simp_all add: decode_fixed_def decode_string_def is_string_opcode_def decode_io_def
      decode_immediate_move_def decode_accumulator_def accumulator_opcodes_def decode_stack_def
      decode_inc_dec_def decode_modrm_arithmetic_def is_modrm_arithmetic_def decode_move_modrm_def
      decode_group_immediate_def group_immediate_opcodes_def decode_ff_def)

lemma decode_fe:
  assumes "decode_at code off = Inr j" and "code ! off = 0xfe"
  shows "ins_kind j = k_arithmetic"
proof -
  have "\<exists>r. decode_groups code off 0xfe = Some r \<and> (\<forall>j. r = Inr j \<longrightarrow> ins_kind j = k_arithmetic)"
    by (auto simp: decode_groups_def bindE_eq_Inr basic_def split: if_split_asm)
  then show ?thesis
    using assms dec.dec_inside [OF assms(1)]
    by (auto simp: decode_at_plain is_prefix_def decode_opcode_def opcode_groups_def skipped_before_fe)
qed

lemma self_jump_to_blocks:
  "jumps_to_blocks self_jump [\<lparr>bb_start = 0, bb_end = 2, bb_successors = [0], bb_condition = c_always\<rparr>]"
  unfolding jumps_to_blocks_def
proof (intro allI impI)
  fix p i
  assume p: "p < length self_jump" and i: "decode_at self_jump p = Inr i" and jump: "ins_kind i = k_jump"
  have "p \<noteq> 1" using decode_fe [OF i] jump by (auto simp: self_jump_def)
  with p have "p = 0" by (simp add: self_jump_def)
  moreover obtain k where "decode_at self_jump 0 = Inr k" "ins_size k = 2" "ins_relative_target k = - 2"
    using decode_jmp_self [of 0 self_jump] by (auto simp: self_jump_def)
  ultimately show "walk_target p i \<in> set (block_starts
      [\<lparr>bb_start = 0, bb_end = 2, bb_successors = [0], bb_condition = c_always\<rparr>])"
    using i by (simp add: walk_target_def block_starts_def)
qed

subsection \<open>MOV AH, 2; INT 21h; JMP $\<close>

definition spinning_program :: "byte list" where
  "spinning_program = [0xb4, 0x02, 0xcd, 0x21, 0xeb, 0xfe]"

lemma spinning_program_diverges: "straight_line_walk host (com_image spinning_program) = None"
proof -
  let ?code = spinning_program
  have d0: "decode_at ?code 0 = Inr (mov_ah_instruction 0 2)"
    using decode_mov_ah [where off = 0 and code = ?code] by (simp add: spinning_program_def)
  have d2: "decode_at ?code 2 = Inr (basic k_interrupt 2 2 0 0x21)"
    using decode_int [where off = 2 and code = ?code] by (simp add: spinning_program_def)
  obtain i where d4: "decode_at ?code 4 = Inr i" "ins_kind i = k_jump" "ins_size i = 2"
      "ins_relative_target i = - 2"
    using decode_jmp_self [where off = 4 and code = ?code] by (auto simp: spinning_program_def)
  have len: "length ?code = 6" by (simp add: spinning_program_def)
  let ?b = "\<lparr>bb_start = 0, bb_end = 2 + 2, bb_successors = [], bb_condition = c_always\<rparr>"
  have g: "build ?code 0 = Inr [?b]"
    using build_move_int [OF d0, where n = "0x21"] d2 by (simp add: ends_block_def)
  let ?ts = "(com_state ?code 1)\<lparr>sl_visited_block := [True]\<rparr>"
  have "straight_line_walk host (com_image ?code) = walk_blocks host ?code [?b] 0 ?ts"
    by (rule walk_com_single [OF _ _ g]) (simp_all add: spinning_program_def)
  moreover have spin: "walk_blocks host ?code [?b] 4 ts = None" for ts
    by (rule walk_stuck) (simp add: walk_round_def d4 len walk_target_def)
  moreover have "walk_blocks host ?code [?b] 2 ts = None"
    if ah: "hi8 (sl_registers ts R_ax) = 2" and wf: "walk_wf [?b] ts" for ts
  proof -
    obtain dl where "sl_value ts V_dl = Some (Inr dl)" using sl_value_total [OF wf, of V_dl] by auto
    then show ?thesis
      using d2 ah spin
      by (subst walk_blocks.simps)
        (simp add: walk_round_def len basic_def handle_interrupt_def Let_def handle_putc_def)
  qed
  moreover have "\<exists>ts. walk_blocks host ?code [?b] 0 ?ts = walk_blocks host ?code [?b] 2 ts \<and>
      hi8 (sl_registers ts R_ax) = 2 \<and> walk_wf [?b] ts"
  proof -
    obtain ts where r: "walk_round host ?code [?b] 0 ?ts = Some (Inr (goes_on 2 ts))"
      and ts: "hi8 (sl_registers ts R_ax) = 2" "sl_visited_block ts = [True]"
      using walk_move_immediate [OF _ d0 mov_ah_instruction_def, where host = host and graph = "[?b]" and ts = ?ts and r = V_ah]
      by (auto simp: len com_state_def initial_state_def store_concrete_def merge_into_word_def
          initial_registers_def hi8_def)
    have "walk_wf [?b] ?ts"
      using initial_state_wf [of "[?b]"] by (simp add: com_state_def walk_wf_def)
    moreover have "jumps_to_blocks [] [?b]" by (simp add: jumps_to_blocks_def)
    ultimately have "walk_wf [?b] ts"
      using r d0 sl_translate_wf [of ?code 0 "mov_ah_instruction 0 2" ?ts ts "[?b]"]
      by (auto simp: walk_round_def len bindP_eq_Inr)
    with r ts show ?thesis by (subst walk_blocks.simps) auto
  qed
  ultimately show ?thesis by auto
qed

end
