(* ===== verification/VirtualDrive.thy ===== *)
theory VirtualDrive
  imports KeyedStores
begin

text \<open>
  \<open>runtime/virtual_drive\<close>: the map from absolute DOS paths to host paths below the root of the drive.

  A \<open>std::filesystem::path\<close> is the flag of its root directory and the list of its names, as iteration
  over the path gives them after the root. The host's directory tree with its symbolic links enters
  through one function, \<open>std::filesystem::weakly_canonical\<close>: it is the parameter \<open>canonical\<close>, with \<open>None\<close>
  where the call reports an error.
\<close>

record host_path =
  hp_absolute :: bool
  hp_names :: "string list"

definition dot :: string where "dot = ''.''"
definition dotdot :: string where "dotdot = ''..''"

text \<open>\<open>path /= name\<close> for a name without separators.\<close>

definition append_name :: "host_path \<Rightarrow> string \<Rightarrow> host_path" where
  "append_name p name = p\<lparr>hp_names := hp_names p @ [name]\<rparr>"

text \<open>\<open>path::lexically_relative\<close>: the names of the result, empty for the empty path.\<close>

fun strip_common :: "string list \<Rightarrow> string list \<Rightarrow> string list \<times> string list" where
  "strip_common (x # xs) (y # ys) = (if x = y then strip_common xs ys else (x # xs, y # ys))"
| "strip_common xs ys = (xs, ys)"

definition climb :: "string list \<Rightarrow> int" where
  "climb names = (\<Sum>n\<leftarrow>names. if n = dotdot then - 1 else if n = [] \<or> n = dot then 0 else 1)"

definition lexically_relative :: "host_path \<Rightarrow> host_path \<Rightarrow> string list" where
  "lexically_relative p base =
     (if hp_absolute p \<noteq> hp_absolute base then []
      else (let (xs, ys) = strip_common (hp_names p) (hp_names base); n = climb ys
        in if xs = [] \<and> ys = [] then [dot]
           else if n = 0 \<and> (xs = [] \<or> hd xs = []) then [dot]
           else if n < 0 then []
           else replicate (nat n) dotdot @ xs))"

section \<open>The drive\<close>

record virtual_drive =
  vd_root :: host_path
  vd_letter :: char

definition virtual_drive_init :: "host_path \<Rightarrow> char \<Rightarrow> virtual_drive" where
  "virtual_drive_init root drive = \<lparr>vd_root = root, vd_letter = toupper drive\<rparr>"

datatype path_error =
  NotAbsoluteOnDrive | TraversalNotAllowed | RootUnresolved | PathUnresolved | PathEscapes

definition is_separator :: "char \<Rightarrow> bool" where
  "is_separator c \<longleftrightarrow> c = CHR 0x5C \<or> c = CHR ''/''"

definition on_drive :: "virtual_drive \<Rightarrow> string \<Rightarrow> bool" where
  "on_drive drive dos_path \<longleftrightarrow> 3 \<le> length dos_path \<and> dos_path ! 1 = CHR '':'' \<and>
     toupper (dos_path ! 0) = vd_letter drive \<and> is_separator (dos_path ! 2)"

text \<open>What the loop does with a component when it meets a boundary.\<close>

definition add_component :: "string \<Rightarrow> host_path \<Rightarrow> (path_error, host_path) res" where
  "add_component component result =
     (if component = [] then Inr result
      else if component = dot \<or> component = dotdot then Inl (Fail TraversalNotAllowed)
      else Inr (append_name result component))"

fun split_path :: "string \<Rightarrow> string \<Rightarrow> host_path \<Rightarrow> (path_error, host_path) res" where
  "split_path [] component result = add_component component result"
| "split_path (c # cs) component result =
     (if is_separator c then bindE (add_component component result) (split_path cs [])
      else split_path cs (component @ [c]) result)"

definition inside_root :: "host_path \<Rightarrow> host_path \<Rightarrow> (path_error, host_path) res" where
  "inside_root canonical_root canonical_result =
     (let relative = lexically_relative canonical_result canonical_root
      in if relative = [] \<and> canonical_result \<noteq> canonical_root then Inl (Fail PathEscapes)
         else if dotdot \<in> set relative then Inl (Fail PathEscapes)
         else Inr canonical_result)"

definition resolve ::
  "(host_path \<Rightarrow> host_path option) \<Rightarrow> virtual_drive \<Rightarrow> string \<Rightarrow> (path_error, host_path) res" where
  "resolve canonical drive dos_path =
     (if \<not> on_drive drive dos_path then Inl (Fail NotAbsoluteOnDrive)
      else bindE (split_path (drop 3 dos_path) [] (vd_root drive)) (\<lambda>result.
        case canonical (vd_root drive) of
          None \<Rightarrow> Inl (Fail RootUnresolved)
        | Some canonical_root \<Rightarrow>
            (case canonical result of
               None \<Rightarrow> Inl (Fail PathUnresolved)
             | Some canonical_result \<Rightarrow> inside_root canonical_root canonical_result)))"

section \<open>The sandbox\<close>

text \<open>A path below another one: the names of the second are a prefix of the names of the first.\<close>

definition below :: "host_path \<Rightarrow> host_path \<Rightarrow> bool" where
  "below root p \<longleftrightarrow> hp_absolute p = hp_absolute root \<and>
     (\<exists>rest. hp_names p = hp_names root @ rest \<and> dotdot \<notin> set rest)"

text \<open>What \<open>weakly_canonical\<close> documents: its results are in normal form.\<close>

definition normal :: "host_path \<Rightarrow> bool" where
  "normal p \<longleftrightarrow> set (hp_names p) \<inter> {[], dot, dotdot} = {}"

definition normalizing :: "(host_path \<Rightarrow> host_path option) \<Rightarrow> bool" where
  "normalizing canonical \<longleftrightarrow> (\<forall>p q. canonical p = Some q \<longrightarrow> normal q)"

lemma strip_common_split:
  "strip_common xs ys = (xs', ys') \<Longrightarrow> \<exists>common. xs = common @ xs' \<and> ys = common @ ys'"
  by (induction xs ys rule: strip_common.induct) (auto split: if_split_asm intro: exI [of _ "_ # _"])

lemma climb_normal: "set names \<inter> {[], dot, dotdot} = {} \<Longrightarrow> climb names = int (length names)"
  by (induction names) (auto simp: climb_def)

lemma inside_root_below:
  assumes "inside_root root p = Inr q" and "normal root" and "normal p"
  shows "q = p \<and> below root p"
proof -
  obtain xs ys where s: "strip_common (hp_names p) (hp_names root) = (xs, ys)" by fastforce
  from strip_common_split [OF s] obtain common where
    names: "hp_names p = common @ xs" "hp_names root = common @ ys" by blast
  have climb: "climb ys = int (length ys)"
    using assms(2) names by (intro climb_normal) (auto simp: normal_def)
  have d: "dotdot \<notin> set xs" using assms(3) names by (auto simp: normal_def)
  have in_root: "q = p" "lexically_relative p root \<noteq> [] \<or> p = root" "dotdot \<notin> set (lexically_relative p root)"
    using assms(1) by (auto simp: inside_root_def Let_def split: if_split_asm)
  show ?thesis
  proof (cases "hp_absolute p = hp_absolute root")
    case False
    then show ?thesis using in_root(2) by (auto simp: lexically_relative_def)
  next
    case True
    have "ys = []"
    proof (rule ccontr)
      assume "ys \<noteq> []"
      then have "0 < climb ys" using climb by simp
      with True s \<open>ys \<noteq> []\<close> have "dotdot \<in> set (lexically_relative p root)"
        by (simp add: lexically_relative_def Let_def)
      with in_root(3) show False by simp
    qed
    with True names d in_root(1) show ?thesis by (auto simp: below_def)
  qed
qed

lemma resolve_below:
  assumes "resolve canonical drive dos_path = Inr p" and "normalizing canonical"
    and "canonical (vd_root drive) = Some root"
  shows "below root p"
proof -
  obtain result where "canonical result = Some p" "inside_root root p = Inr p"
    using assms(1,3)
    by (auto simp: resolve_def bindE_eq_Inr inside_root_def Let_def split: if_split_asm option.split_asm)
  with inside_root_below [of root p p] assms(2,3) show ?thesis by (auto simp: normalizing_def)
qed

text \<open>Every name the guest can spell, other than dot and dot-dot, reaches the host below the root.\<close>

lemma split_path_names:
  "split_path cs component result = Inr p \<Longrightarrow>
     hp_absolute p = hp_absolute result \<and>
     (\<exists>rest. hp_names p = hp_names result @ rest \<and> set rest \<inter> {[], dot, dotdot} = {})"
proof (induction cs component result rule: split_path.induct)
  case (1 component result)
  then show ?case by (auto simp: add_component_def append_name_def split: if_split_asm)
next
  case (2 c cs component result)
  show ?case
  proof (cases "is_separator c")
    case True
    with 2(3) obtain r where r: "add_component component result = Inr r" "split_path cs [] r = Inr p"
      by (auto simp: bindE_eq_Inr)
    from 2(1) [OF True r] r(1) show ?thesis
      by (auto simp: add_component_def append_name_def split: if_split_asm)
  next
    case False
    with 2 show ?thesis by simp
  qed
qed

text \<open>On a host without symbolic links, where canonical form is identity, resolution only needs the names.\<close>

lemma resolve_plain:
  assumes "normal (vd_root drive)" and "on_drive drive dos_path"
    and "split_path (drop 3 dos_path) [] (vd_root drive) = Inr p"
  shows "resolve Some drive dos_path = Inr p"
proof -
  from split_path_names [OF assms(3)] obtain rest where
    rest: "hp_names p = hp_names (vd_root drive) @ rest" "set rest \<inter> {[], dot, dotdot} = {}"
    "hp_absolute p = hp_absolute (vd_root drive)" by blast
  have "strip_common (xs @ rest) xs = (rest, [])" for xs
    by (induction xs) (cases rest, simp_all)
  then have "lexically_relative p (vd_root drive) = (if rest = [] then [dot] else rest)"
    using rest by (cases rest) (auto simp: lexically_relative_def climb_def)
  then have "inside_root (vd_root drive) p = Inr p"
    using rest by (auto simp: inside_root_def dot_def dotdot_def)
  then show ?thesis using assms by (simp add: resolve_def)
qed

end
