(* ===== verification/FileSystem.thy ===== *)
theory FileSystem
  imports VirtualDrive
begin

text \<open>
  \<open>runtime/virtual_file_system\<close> and \<open>runtime/int21_file\<close>: DOS file handles over a virtual drive and the
  INT 21h functions 3Ch, 3Dh, 3Eh, 3Fh, 40h and 42h.

  \<open>std::fstream\<close> and the host's files are the record \<open>stream_api\<close> of what the code calls; the
  definitions below work with any such record. \<open>plain_api\<close> is the one of \<open>std::fstream\<close> on regular
  files, with the host's permissions and faults as parameters.
\<close>

datatype seek_origin = so_begin | so_current | so_end

record ('s, 'h) stream_api =
  api_open_in :: "host_path \<Rightarrow> 'h \<Rightarrow> 's option \<times> 'h"
  api_open_out :: "host_path \<Rightarrow> 'h \<Rightarrow> 's option \<times> 'h"
  api_read :: "nat \<Rightarrow> 's \<Rightarrow> 'h \<Rightarrow> byte list \<times> 's \<times> 'h"
  api_write :: "byte list \<Rightarrow> 's \<Rightarrow> 'h \<Rightarrow> unit \<times> 's \<times> 'h"
  api_seekg :: "int \<Rightarrow> seek_origin \<Rightarrow> 's \<Rightarrow> 'h \<Rightarrow> int \<times> 's \<times> 'h"
  api_seekp :: "int \<Rightarrow> seek_origin \<Rightarrow> 's \<Rightarrow> 'h \<Rightarrow> int \<times> 's \<times> 'h"
  api_close :: "'s \<Rightarrow> 'h \<Rightarrow> unit \<times> 's \<times> 'h"
  api_bad :: "'s \<Rightarrow> bool"
  api_failed :: "'s \<Rightarrow> bool"
  api_clear :: "'s \<Rightarrow> 's"

text \<open>\<open>api_seekg\<close> and \<open>api_seekp\<close> are the seek and the \<open>tellg\<close> or \<open>tellp\<close> after it.\<close>

section \<open>The handle table\<close>

record 's file_handle =
  fh_stream :: 's
  fh_readable :: bool
  fh_writable :: bool

record ('s, 'h) virtual_file_system =
  vfs_drive :: virtual_drive
  vfs_files :: "u16 \<rightharpoonup> 's file_handle"
  vfs_host :: 'h

definition virtual_file_system_init :: "virtual_drive \<Rightarrow> 'h \<Rightarrow> ('s, 'h) virtual_file_system" where
  "virtual_file_system_init drive host =
     \<lparr>vfs_drive = drive, vfs_files = Map.empty, vfs_host = host\<rparr>"

datatype file_error =
  FilePath path_error | CannotOpenFile | CannotCreateFile | HandlesExhausted | InvalidHandle
| NotOpenForReading | CannotReadFile | NotOpenForWriting | CannotWriteFile | SeekOutsideRange

type_synonym ('s, 'h, 'a) file_operation =
  "('s, 'h) virtual_file_system \<Rightarrow> (file_error, 'a) res \<times> ('s, 'h) virtual_file_system"

function lowest_free :: "(u16 \<rightharpoonup> 'f) \<Rightarrow> u16 \<Rightarrow> u16 option" where
  "lowest_free files handle =
     (if files handle = None then Some handle
      else if handle = 0xffff then None
      else lowest_free files (handle + 1))"
  by auto

lemma successor_handle:
  assumes "(handle :: u16) \<noteq> 0xffff"
  shows "unat handle < 0xffff" and "unat (handle + 1) = unat handle + 1"
proof -
  have "unat handle \<noteq> 0xffff" using assms by (simp add: unsigned_word_eqI word_eq_iff_unsigned [where ?'a = nat])
  then show *: "unat handle < 0xffff" using unsigned_less [of handle, where ?'a = nat] by simp
  then show "unat (handle + 1) = unat handle + 1" by (simp add: unat_word_ariths)
qed

lemma handles_left: "(handle :: u16) \<noteq> 0xffff \<Longrightarrow> 0xffff - unat (handle + 1) < 0xffff - unat handle"
  using successor_handle [of handle] by linarith

termination lowest_free
  by (relation "measure (\<lambda>(files, handle). 0xffff - unat handle)") (simp, simp only: in_measure case_prod_conv, rule handles_left, assumption)

declare lowest_free.simps [simp del]

text \<open>The stream goes into the table, or, where no handle is left, is closed with its pointer.\<close>

definition add_handle ::
  "('s, 'h) stream_api \<Rightarrow> 's \<Rightarrow> bool \<Rightarrow> bool \<Rightarrow> ('s, 'h, u16) file_operation" where
  "add_handle api stream readable writable v =
     (case lowest_free (vfs_files v) 5 of
        None \<Rightarrow> (Inl (Fail HandlesExhausted), v\<lparr>vfs_host := snd (snd (api_close api stream (vfs_host v)))\<rparr>)
      | Some handle \<Rightarrow>
          (Inr handle,
           v\<lparr>vfs_files := (vfs_files v)(handle \<mapsto>
              \<lparr>fh_stream = stream, fh_readable = readable, fh_writable = writable\<rparr>)\<rparr>))"

definition open_read ::
  "(host_path \<Rightarrow> host_path option) \<Rightarrow> ('s, 'h) stream_api \<Rightarrow> string \<Rightarrow> ('s, 'h, u16) file_operation" where
  "open_read canonical api dos_path v =
     (case wrapE FilePath (resolve canonical (vfs_drive v) dos_path) of
        Inl e \<Rightarrow> (Inl e, v)
      | Inr path \<Rightarrow>
          (case api_open_in api path (vfs_host v) of
             (None, host) \<Rightarrow> (Inl (Fail CannotOpenFile), v\<lparr>vfs_host := host\<rparr>)
           | (Some stream, host) \<Rightarrow> add_handle api stream True False (v\<lparr>vfs_host := host\<rparr>)))"

definition open_write ::
  "(host_path \<Rightarrow> host_path option) \<Rightarrow> ('s, 'h) stream_api \<Rightarrow> string \<Rightarrow> ('s, 'h, u16) file_operation" where
  "open_write canonical api dos_path v =
     (case wrapE FilePath (resolve canonical (vfs_drive v) dos_path) of
        Inl e \<Rightarrow> (Inl e, v)
      | Inr path \<Rightarrow>
          (case api_open_out api path (vfs_host v) of
             (None, host) \<Rightarrow> (Inl (Fail CannotCreateFile), v\<lparr>vfs_host := host\<rparr>)
           | (Some stream, host) \<Rightarrow> add_handle api stream False True (v\<lparr>vfs_host := host\<rparr>)))"

text \<open>The streams are held by pointers: the table sees what an operation does to a stream.\<close>

definition set_stream :: "u16 \<Rightarrow> 's file_handle \<Rightarrow> 's \<Rightarrow> 'h \<Rightarrow> ('s, 'h) virtual_file_system \<Rightarrow> ('s, 'h) virtual_file_system" where
  "set_stream handle file stream host v =
     v\<lparr>vfs_files := (vfs_files v)(handle \<mapsto> file\<lparr>fh_stream := stream\<rparr>), vfs_host := host\<rparr>"

definition file_read :: "('s, 'h) stream_api \<Rightarrow> u16 \<Rightarrow> nat \<Rightarrow> ('s, 'h, byte list) file_operation" where
  "file_read api handle count v =
     (case vfs_files v handle of
        None \<Rightarrow> (Inl (Fail InvalidHandle), v)
      | Some file \<Rightarrow>
          if \<not> fh_readable file then (Inl (Fail NotOpenForReading), v)
          else (let (data, stream, host) = api_read api count (fh_stream file) (vfs_host v)
            in (if api_bad api stream then Inl (Fail CannotReadFile) else Inr data,
                set_stream handle file stream host v)))"

definition file_write :: "('s, 'h) stream_api \<Rightarrow> u16 \<Rightarrow> byte list \<Rightarrow> ('s, 'h, nat) file_operation" where
  "file_write api handle data v =
     (case vfs_files v handle of
        None \<Rightarrow> (Inl (Fail InvalidHandle), v)
      | Some file \<Rightarrow>
          if \<not> fh_writable file then (Inl (Fail NotOpenForWriting), v)
          else (let (_, stream, host) = api_write api data (fh_stream file) (vfs_host v)
            in (if api_failed api stream then Inl (Fail CannotWriteFile) else Inr (length data),
                set_stream handle file stream host v)))"

definition file_seek ::
  "('s, 'h) stream_api \<Rightarrow> u16 \<Rightarrow> 32 word \<Rightarrow> seek_origin \<Rightarrow> ('s, 'h, u32) file_operation" where
  "file_seek api handle offset origin v =
     (case vfs_files v handle of
        None \<Rightarrow> (Inl (Fail InvalidHandle), v)
      | Some file \<Rightarrow>
          (let seek = (if fh_readable file then api_seekg api else api_seekp api);
               (position, stream, host) = seek (sint offset) origin (api_clear api (fh_stream file)) (vfs_host v)
           in if api_failed api stream \<or> position < 0 \<or> position > 0xffffffff
              then (Inl (Fail SeekOutsideRange), set_stream handle file (api_clear api stream) host v)
              else (Inr (word_of_int position), set_stream handle file stream host v)))"

definition file_close :: "('s, 'h) stream_api \<Rightarrow> u16 \<Rightarrow> ('s, 'h, unit) file_operation" where
  "file_close api handle v =
     (case vfs_files v handle of
        None \<Rightarrow> (Inl (Fail InvalidHandle), v)
      | Some file \<Rightarrow>
          (Inr (), v\<lparr>vfs_files := (vfs_files v)(handle := None),
                     vfs_host := snd (snd (api_close api (fh_stream file) (vfs_host v)))\<rparr>))"

section \<open>INT 21h\<close>

record int21_file_request =
  rf_ah :: byte
  rf_path :: string
  rf_handle :: u16
  rf_count :: nat
  rf_data :: "byte list"
  rf_offset :: "32 word"
  rf_origin :: byte

record int21_file_result =
  rs_handle :: "u16 option"
  rs_data :: "byte list"
  rs_bytes_transferred :: nat
  rs_position :: "u32 option"

datatype file_service_error = FileFailed file_error | SeekOriginInvalid | UnsupportedFileFunction

definition no_result :: int21_file_result where
  "no_result = \<lparr>rs_handle = None, rs_data = [], rs_bytes_transferred = 0, rs_position = None\<rparr>"

definition origin_of :: "byte \<Rightarrow> seek_origin" where
  "origin_of origin = (if origin = 0 then so_begin else if origin = 1 then so_current else so_end)"

definition answer ::
  "('a \<Rightarrow> int21_file_result) \<Rightarrow> (file_error, 'a) res \<times> 'v \<Rightarrow> (file_service_error, int21_file_result) res \<times> 'v" where
  "answer f r = (bindE (wrapE FileFailed (fst r)) (\<lambda>x. Inr (f x)), snd r)"

definition int21_file_dispatch ::
  "(host_path \<Rightarrow> host_path option) \<Rightarrow> ('s, 'h) stream_api \<Rightarrow> int21_file_request \<Rightarrow>
     ('s, 'h) virtual_file_system \<Rightarrow>
     (file_service_error, int21_file_result) res \<times> ('s, 'h) virtual_file_system" where
  "int21_file_dispatch canonical api request v =
     (if rf_ah request = 0x3c then
        answer (\<lambda>handle. no_result\<lparr>rs_handle := Some handle\<rparr>) (open_write canonical api (rf_path request) v)
      else if rf_ah request = 0x3d then
        answer (\<lambda>handle. no_result\<lparr>rs_handle := Some handle\<rparr>) (open_read canonical api (rf_path request) v)
      else if rf_ah request = 0x3f then
        answer (\<lambda>data. no_result\<lparr>rs_data := data, rs_bytes_transferred := length data\<rparr>)
          (file_read api (rf_handle request) (rf_count request) v)
      else if rf_ah request = 0x40 then
        answer (\<lambda>written. no_result\<lparr>rs_bytes_transferred := written\<rparr>)
          (file_write api (rf_handle request) (rf_data request) v)
      else if rf_ah request = 0x42 then
        (if rf_origin request > 2 then (Inl (Fail SeekOriginInvalid), v)
         else answer (\<lambda>position. no_result\<lparr>rs_position := Some position\<rparr>)
                (file_seek api (rf_handle request) (rf_offset request) (origin_of (rf_origin request)) v))
      else if rf_ah request = 0x3e then
        answer (\<lambda>_. no_result) (file_close api (rf_handle request) v)
      else (Inl (Fail UnsupportedFileFunction), v))"

text \<open>A guest's run: the answers to a sequence of requests and the file system after them.\<close>

fun run_files ::
  "(host_path \<Rightarrow> host_path option) \<Rightarrow> ('s, 'h) stream_api \<Rightarrow> int21_file_request list \<Rightarrow>
     ('s, 'h) virtual_file_system \<Rightarrow>
     (file_service_error, int21_file_result) res list \<times> ('s, 'h) virtual_file_system" where
  "run_files canonical api [] v = ([], v)"
| "run_files canonical api (request # requests) v =
     (let (reply, v') = int21_file_dispatch canonical api request v;
          (replies, v'') = run_files canonical api requests v'
      in (reply # replies, v''))"

section \<open>Streams on regular files\<close>

text \<open>
  \<open>std::fstream\<close> in binary mode on a regular file. The host is the map from paths to file contents;
  \<open>may_read\<close>, \<open>may_write\<close> say what the host lets the program open, \<open>faulty\<close> where input and output fail.
  A read that meets the end of the file sets the end and fail flags, a stream with a flag set does
  nothing but fail, a seek before the beginning fails, a write behind the end fills the gap with zeros.
  Writes reach the file at once; the C++ stream may hold them back until it is closed.
\<close>

type_synonym files = "host_path \<rightharpoonup> byte list"

record file_stream =
  fs_path :: host_path
  fs_position :: nat
  fs_eof :: bool
  fs_fail :: bool
  fs_bad :: bool

definition fresh_stream :: "host_path \<Rightarrow> file_stream" where
  "fresh_stream p = \<lparr>fs_path = p, fs_position = 0, fs_eof = False, fs_fail = False, fs_bad = False\<rparr>"

definition good_stream :: "file_stream \<Rightarrow> bool" where
  "good_stream s \<longleftrightarrow> \<not> fs_eof s \<and> \<not> fs_fail s \<and> \<not> fs_bad s"

definition bytes_of :: "files \<Rightarrow> host_path \<Rightarrow> byte list" where
  "bytes_of host p = (case host p of None \<Rightarrow> [] | Some bytes \<Rightarrow> bytes)"

definition plain_open_in :: "(host_path \<Rightarrow> bool) \<Rightarrow> host_path \<Rightarrow> files \<Rightarrow> file_stream option \<times> files" where
  "plain_open_in may_read p host =
     (if may_read p \<and> host p \<noteq> None then Some (fresh_stream p) else None, host)"

definition plain_open_out :: "(host_path \<Rightarrow> bool) \<Rightarrow> host_path \<Rightarrow> files \<Rightarrow> file_stream option \<times> files" where
  "plain_open_out may_write p host =
     (if may_write p then (Some (fresh_stream p), host(p \<mapsto> [])) else (None, host))"

definition plain_read ::
  "(host_path \<Rightarrow> bool) \<Rightarrow> nat \<Rightarrow> file_stream \<Rightarrow> files \<Rightarrow> byte list \<times> file_stream \<times> files" where
  "plain_read faulty n s host =
     (if \<not> good_stream s then ([], s\<lparr>fs_fail := True\<rparr>, host)
      else if faulty (fs_path s) then ([], s\<lparr>fs_bad := True\<rparr>, host)
      else (let data = take n (drop (fs_position s) (bytes_of host (fs_path s)));
                short = length data < n
        in (data, s\<lparr>fs_position := fs_position s + length data, fs_eof := short, fs_fail := short\<rparr>, host)))"

definition overwrite :: "nat \<Rightarrow> byte list \<Rightarrow> byte list \<Rightarrow> byte list" where
  "overwrite position data bytes =
     (if data = [] then bytes
      else take position (bytes @ replicate (position - length bytes) 0) @ data @
           drop (position + length data) bytes)"

definition plain_write ::
  "(host_path \<Rightarrow> bool) \<Rightarrow> byte list \<Rightarrow> file_stream \<Rightarrow> files \<Rightarrow> unit \<times> file_stream \<times> files" where
  "plain_write faulty data s host =
     (if \<not> good_stream s then ((), s\<lparr>fs_fail := True\<rparr>, host)
      else if faulty (fs_path s) then ((), s\<lparr>fs_bad := True\<rparr>, host)
      else ((), s\<lparr>fs_position := fs_position s + length data\<rparr>,
            host(fs_path s \<mapsto> overwrite (fs_position s) data (bytes_of host (fs_path s)))))"

definition plain_seek ::
  "int \<Rightarrow> seek_origin \<Rightarrow> file_stream \<Rightarrow> files \<Rightarrow> int \<times> file_stream \<times> files" where
  "plain_seek offset origin s host =
     (if fs_fail s \<or> fs_bad s then (- 1, s, host)
      else (let base = (case origin of so_begin \<Rightarrow> 0 | so_current \<Rightarrow> fs_position s
                          | so_end \<Rightarrow> length (bytes_of host (fs_path s)));
                target = int base + offset
        in if target < 0 then (- 1, s\<lparr>fs_eof := False, fs_fail := True\<rparr>, host)
           else (target, s\<lparr>fs_eof := False, fs_position := nat target\<rparr>, host)))"

definition plain_close :: "file_stream \<Rightarrow> files \<Rightarrow> unit \<times> file_stream \<times> files" where
  "plain_close s host = ((), s, host)"

definition plain_api ::
  "(host_path \<Rightarrow> bool) \<Rightarrow> (host_path \<Rightarrow> bool) \<Rightarrow> (host_path \<Rightarrow> bool) \<Rightarrow> (file_stream, files) stream_api" where
  "plain_api may_read may_write faulty =
     \<lparr>api_open_in = plain_open_in may_read, api_open_out = plain_open_out may_write,
      api_read = plain_read faulty, api_write = plain_write faulty,
      api_seekg = plain_seek, api_seekp = plain_seek, api_close = plain_close,
      api_bad = fs_bad, api_failed = (\<lambda>s. fs_fail s \<or> fs_bad s),
      api_clear = (\<lambda>s. s\<lparr>fs_eof := False, fs_fail := False, fs_bad := False\<rparr>)\<rparr>"

end
