(* ===== verification/FileFacts.thy ===== *)
theory FileFacts
  imports FileSystem
begin

text \<open>
  What the file system promises: handles are the lowest free ones from 5 on, a guest sees and changes
  only files below the root of its drive, and what it writes it can read back.
\<close>

section \<open>Handles\<close>

lemma lowest_free_Some:
  "lowest_free files handle = Some n \<Longrightarrow>
     handle \<le> n \<and> files n = None \<and> (\<forall>k. handle \<le> k \<and> k < n \<longrightarrow> files k \<noteq> None)"
proof (induction files handle rule: lowest_free.induct)
  case (1 files handle)
  show ?case
  proof (cases "files handle = None")
    case True
    with 1(2) show ?thesis by (auto simp: lowest_free.simps)
  next
    case False
    with 1(2) have top: "handle \<noteq> 0xffff" and "lowest_free files (handle + 1) = Some n"
      by (auto simp: lowest_free.simps [of _ handle] split: if_split_asm)
    note ih = 1(1) [OF False this]
    have next_handle: "handle < k \<longleftrightarrow> handle + 1 \<le> k" for k :: u16
      using successor_handle [OF top] by (simp add: word_less_nat_alt word_le_nat_alt Suc_le_eq)
    have "handle \<le> n" using ih next_handle [of n] by simp
    moreover have "files k \<noteq> None" if "handle \<le> k" "k < n" for k
      using ih that next_handle [of k] False by (cases "handle = k") auto
    ultimately show ?thesis using ih by blast
  qed
qed

lemma lowest_free_None: "lowest_free files handle = None \<Longrightarrow> handle \<le> k \<Longrightarrow> files k \<noteq> None"
proof (induction files handle rule: lowest_free.induct)
  case (1 files handle)
  show ?case
  proof (cases "handle = 0xffff")
    case True
    have "k \<le> 0xffff" using unsigned_less [of k, where ?'a = nat] by (simp add: word_le_nat_alt)
    with True 1(3) have "k = handle" by simp
    with 1(2) show ?thesis by (auto simp: lowest_free.simps [of _ handle] split: if_split_asm)
  next
    case False
    have used: "files handle \<noteq> None" and "lowest_free files (handle + 1) = None"
      using 1(2) False by (auto simp: lowest_free.simps [of _ handle] split: if_split_asm)
    note ih = 1(1) [OF used False this(2)]
    have "handle < k \<longleftrightarrow> handle + 1 \<le> k"
      using successor_handle [OF False] by (simp add: word_less_nat_alt word_le_nat_alt Suc_le_eq)
    with ih used 1(3) show ?thesis by (cases "handle = k") auto
  qed
qed

text \<open>The table: handles from 5, each open for one of reading and writing.\<close>

definition handles_wf :: "(u16 \<rightharpoonup> 's file_handle) \<Rightarrow> bool" where
  "handles_wf files \<longleftrightarrow> (\<forall>handle file. files handle = Some file \<longrightarrow>
     5 \<le> handle \<and> fh_readable file \<noteq> fh_writable file)"

lemma snd_answer [simp]: "snd (answer f r) = snd r"
  by (simp add: answer_def)

lemma set_stream_handles_wf:
  "handles_wf (vfs_files v) \<Longrightarrow> vfs_files v handle = Some file \<Longrightarrow>
     handles_wf (vfs_files (set_stream handle file stream host v))"
  by (auto simp: handles_wf_def set_stream_def)

lemma add_handle_handles_wf:
  "handles_wf (vfs_files v) \<Longrightarrow> readable \<noteq> writable \<Longrightarrow>
     handles_wf (vfs_files (snd (add_handle api stream readable writable v)))"
  by (auto simp: add_handle_def handles_wf_def dest: lowest_free_Some split: option.split)

lemma open_handles_wf:
  assumes "handles_wf (vfs_files v)"
  shows "handles_wf (vfs_files (snd (open_read canonical api dos_path v)))"
    and "handles_wf (vfs_files (snd (open_write canonical api dos_path v)))"
  using assms
  by (auto simp: open_read_def open_write_def intro!: add_handle_handles_wf
      split: sum.split prod.split option.split)

lemma stream_handles_wf:
  assumes "handles_wf (vfs_files v)"
  shows "handles_wf (vfs_files (snd (file_read api handle count v)))"
    and "handles_wf (vfs_files (snd (file_write api handle data v)))"
    and "handles_wf (vfs_files (snd (file_seek api handle offset origin v)))"
    and "handles_wf (vfs_files (snd (file_close api handle v)))"
  using assms
  by (auto simp: file_read_def file_write_def file_seek_def Let_def intro: set_stream_handles_wf
      split: prod.split option.split)
    (auto simp: file_close_def handles_wf_def split: option.split)

lemma dispatch_handles_wf:
  "handles_wf (vfs_files v) \<Longrightarrow> handles_wf (vfs_files (snd (int21_file_dispatch canonical api request v)))"
  by (simp add: int21_file_dispatch_def open_handles_wf stream_handles_wf)

lemma run_files_Cons:
  "run_files canonical api (request # requests) v =
     (let v' = snd (int21_file_dispatch canonical api request v)
      in (fst (int21_file_dispatch canonical api request v) # fst (run_files canonical api requests v'),
          snd (run_files canonical api requests v')))"
  by (simp add: Let_def split: prod.split)

lemma run_files_handles_wf:
  "handles_wf (vfs_files v) \<Longrightarrow> handles_wf (vfs_files (snd (run_files canonical api requests v)))"
  by (induction requests arbitrary: v)
    (simp_all add: run_files_Cons Let_def dispatch_handles_wf del: run_files.simps(2))

section \<open>Confinement\<close>

text \<open>
  An operation on a stream is confined when it keeps to the stream's file: no other file changes, and
  its results depend on no other file.
\<close>

definition confined_op ::
  "('s \<Rightarrow> host_path) \<Rightarrow> ('h \<Rightarrow> host_path \<Rightarrow> 'c) \<Rightarrow> ('s \<Rightarrow> 'h \<Rightarrow> 'a \<times> 's \<times> 'h) \<Rightarrow> bool" where
  "confined_op path_of file_at op \<longleftrightarrow> (\<forall>s h a s' h'. op s h = (a, s', h') \<longrightarrow>
     path_of s' = path_of s \<and>
     (\<forall>p. p \<noteq> path_of s \<longrightarrow> file_at h' p = file_at h p) \<and>
     (\<forall>h2. file_at h2 (path_of s) = file_at h (path_of s) \<longrightarrow>
        (\<exists>h2'. op s h2 = (a, s', h2') \<and> file_at h2' (path_of s) = file_at h' (path_of s))))"

definition confined_open ::
  "('s \<Rightarrow> host_path) \<Rightarrow> ('h \<Rightarrow> host_path \<Rightarrow> 'c) \<Rightarrow> (host_path \<Rightarrow> 'h \<Rightarrow> 's option \<times> 'h) \<Rightarrow> bool" where
  "confined_open path_of file_at op \<longleftrightarrow> (\<forall>p h s h'. op p h = (s, h') \<longrightarrow>
     (\<forall>stream. s = Some stream \<longrightarrow> path_of stream = p) \<and>
     (\<forall>q. q \<noteq> p \<longrightarrow> file_at h' q = file_at h q) \<and>
     (\<forall>h2. file_at h2 p = file_at h p \<longrightarrow> (\<exists>h2'. op p h2 = (s, h2') \<and> file_at h2' p = file_at h' p)))"

text \<open>Two file systems that a guest below \<open>root\<close> cannot tell apart.\<close>

definition alike ::
  "('s \<Rightarrow> host_path) \<Rightarrow> ('h \<Rightarrow> host_path \<Rightarrow> 'c) \<Rightarrow>
     host_path \<Rightarrow> virtual_drive \<Rightarrow> ('s, 'h) virtual_file_system \<Rightarrow> ('s, 'h) virtual_file_system \<Rightarrow> bool" where
  "alike path_of file_at root drive v w \<longleftrightarrow> vfs_drive v = drive \<and> vfs_drive w = drive \<and> vfs_files v = vfs_files w \<and>
     (\<forall>handle file. vfs_files v handle = Some file \<longrightarrow> below root (path_of (fh_stream file))) \<and>
     (\<forall>p. below root p \<longrightarrow> file_at (vfs_host v) p = file_at (vfs_host w) p)"

definition outside_kept ::
  "('h \<Rightarrow> host_path \<Rightarrow> 'c) \<Rightarrow> host_path \<Rightarrow> ('s, 'h) virtual_file_system \<Rightarrow> ('s, 'h) virtual_file_system \<Rightarrow> bool" where
  "outside_kept file_at root v v' \<longleftrightarrow> (\<forall>p. \<not> below root p \<longrightarrow> file_at (vfs_host v') p = file_at (vfs_host v) p)"

definition confined ::
  "('s \<Rightarrow> host_path) \<Rightarrow> ('h \<Rightarrow> host_path \<Rightarrow> 'c) \<Rightarrow>
     host_path \<Rightarrow> virtual_drive \<Rightarrow> (('s, 'h) virtual_file_system \<Rightarrow> 'a \<times> ('s, 'h) virtual_file_system) \<Rightarrow> bool" where
  "confined path_of file_at root drive f \<longleftrightarrow> (\<forall>v w. alike path_of file_at root drive v w \<longrightarrow>
     fst (f v) = fst (f w) \<and> alike path_of file_at root drive (snd (f v)) (snd (f w)) \<and> outside_kept file_at root v (snd (f v)))"

locale confined_streams =
  fixes api :: "('s, 'h) stream_api"
    and path_of :: "'s \<Rightarrow> host_path"
    and file_at :: "'h \<Rightarrow> host_path \<Rightarrow> 'c"
  assumes open_in: "confined_open path_of file_at (api_open_in api)"
    and open_out: "confined_open path_of file_at (api_open_out api)"
    and reads: "confined_op path_of file_at (api_read api n)"
    and writes: "confined_op path_of file_at (api_write api data)"
    and seekg: "confined_op path_of file_at (api_seekg api offset origin)"
    and seekp: "confined_op path_of file_at (api_seekp api offset origin)"
    and closes: "confined_op path_of file_at (api_close api)"
    and clears: "path_of (api_clear api s) = path_of s"
begin

lemma confined_answer: "confined path_of file_at root drive f \<Longrightarrow> confined path_of file_at root drive (\<lambda>v. answer g (f v))"
  by (auto simp: confined_def answer_def)

lemma confined_return: "confined path_of file_at root drive (\<lambda>v. (a, v))"
  by (simp add: confined_def outside_kept_def)

lemma confined_if:
  "confined path_of file_at root drive f \<Longrightarrow> confined path_of file_at root drive g \<Longrightarrow>
     confined path_of file_at root drive (\<lambda>v. if b then f v else g v)"
  by (cases b) simp_all

text \<open>One operation on an open stream, with the table updated.\<close>

lemma stream_step:
  assumes op: "confined_op path_of file_at op" and alike: "alike path_of file_at root drive v w"
    and entry: "vfs_files v handle = Some file" and s: "path_of s = path_of (fh_stream file)"
    and run: "op s (vfs_host v) = (a, s', h')"
  obtains h2' where "op s (vfs_host w) = (a, s', h2')"
    and "\<And>t. path_of t = path_of s' \<Longrightarrow> alike path_of file_at root drive (set_stream handle file t h' v) (set_stream handle file t h2' w)"
    and "\<And>t. outside_kept file_at root v (set_stream handle file t h' v)"
    and "\<And>p. below root p \<Longrightarrow> file_at h' p = file_at h2' p"
    and "\<And>p. \<not> below root p \<Longrightarrow> file_at h' p = file_at (vfs_host v) p"
proof -
  have in_root: "below root (path_of s)" using alike entry s by (auto simp: alike_def)
  then have "file_at (vfs_host w) (path_of s) = file_at (vfs_host v) (path_of s)"
    using alike by (simp add: alike_def)
  with op run obtain h2' where 2: "op s (vfs_host w) = (a, s', h2')"
      "file_at h2' (path_of s) = file_at h' (path_of s)" "path_of s' = path_of s"
      "\<And>p. p \<noteq> path_of s \<Longrightarrow> file_at h' p = file_at (vfs_host v) p"
    unfolding confined_op_def by meson
  have other: "\<And>p. p \<noteq> path_of s \<Longrightarrow> file_at h2' p = file_at (vfs_host w) p"
    using op 2(1) unfolding confined_op_def by meson
  have same: "file_at h' p = file_at h2' p" if "below root p" for p
    using 2(2,4) other alike that by (cases "p = path_of s") (simp_all add: alike_def)
  have out: "file_at h' p = file_at (vfs_host v) p" if "\<not> below root p" for p
    using 2(4) in_root that by metis
  show thesis
    by (rule that [OF 2(1)])
      (use alike in_root same out 2(3) s in \<open>auto simp: alike_def set_stream_def outside_kept_def\<close>)
qed

text \<open>The shape of reads, writes and seeks.\<close>

lemma confined_stream_op:
  assumes op: "\<And>e. confined_op path_of file_at (op e)"
    and prep: "\<And>s. path_of (prep s) = path_of s"
    and upd: "\<And>e a s. path_of (upd e a s) = path_of s"
  shows "confined path_of file_at root drive (\<lambda>v. case vfs_files v handle of
      None \<Rightarrow> (none, v)
    | Some e \<Rightarrow> if refuse e then (refused, v)
        else (case op e (prep (fh_stream e)) (vfs_host v) of (a, s, h) \<Rightarrow>
          (res e a s, set_stream handle e (upd e a s) h v)))"
  unfolding confined_def
proof (intro allI impI)
  fix v w assume alike: "alike path_of file_at root drive v w"
  let ?f = "\<lambda>v. case vfs_files v handle of
      None \<Rightarrow> (none, v)
    | Some e \<Rightarrow> if refuse e then (refused, v)
        else (case op e (prep (fh_stream e)) (vfs_host v) of (a, s, h) \<Rightarrow>
          (res e a s, set_stream handle e (upd e a s) h v))"
  have files: "vfs_files w = vfs_files v" using alike by (simp add: alike_def)
  show "fst (?f v) = fst (?f w) \<and> alike path_of file_at root drive (snd (?f v)) (snd (?f w)) \<and>
    outside_kept file_at root v (snd (?f v))"
  proof (cases "vfs_files v handle")
    case None
    with files alike show ?thesis by (simp add: outside_kept_def)
  next
    case (Some e)
    obtain a s h where run: "op e (prep (fh_stream e)) (vfs_host v) = (a, s, h)"
      by (metis prod_cases3)
    from stream_step [OF op alike Some prep run] obtain h2' where
      "op e (prep (fh_stream e)) (vfs_host w) = (a, s, h2')"
      "\<And>t. path_of t = path_of s \<Longrightarrow>
         alike path_of file_at root drive (set_stream handle e t h v) (set_stream handle e t h2' w)"
      "\<And>t. outside_kept file_at root v (set_stream handle e t h v)" by metis
    then show ?thesis
      using Some files alike run upd by (simp add: outside_kept_def)
  qed
qed

lemma confined_read: "confined path_of file_at root drive (file_read api handle count)"
  unfolding file_read_def [abs_def] Let_def
  by (rule confined_stream_op [where op = "\<lambda>_. api_read api count" and prep = "\<lambda>s. s" and
        upd = "\<lambda>_ _ s. s" and refuse = "\<lambda>e. \<not> fh_readable e" and
        res = "\<lambda>_ a s. if api_bad api s then Inl (Fail CannotReadFile) else Inr a"])
    (simp_all add: reads)

lemma confined_write: "confined path_of file_at root drive (file_write api handle data)"
  unfolding file_write_def [abs_def] Let_def
  by (rule confined_stream_op [where op = "\<lambda>_. api_write api data" and prep = "\<lambda>s. s" and
        upd = "\<lambda>_ _ s. s" and refuse = "\<lambda>e. \<not> fh_writable e" and
        res = "\<lambda>_ a s. if api_failed api s then Inl (Fail CannotWriteFile) else Inr (length data)"])
    (simp_all add: writes)

lemma confined_seek: "confined path_of file_at root drive (file_seek api handle offset origin)"
proof -
  let ?out = "\<lambda>a s. api_failed api s \<or> a < 0 \<or> a > 0xffffffff"
  let ?op = "\<lambda>e. (if fh_readable e then api_seekg api else api_seekp api) (sint offset) origin"
  have "file_seek api handle offset origin = (\<lambda>v. case vfs_files v handle of
      None \<Rightarrow> (Inl (Fail InvalidHandle), v)
    | Some e \<Rightarrow> if False then (Inl (Fail InvalidHandle), v)
        else (case ?op e (api_clear api (fh_stream e)) (vfs_host v) of (a, s, h) \<Rightarrow>
          (if ?out a s then Inl (Fail SeekOutsideRange) else Inr (word_of_int a),
           set_stream handle e (if ?out a s then api_clear api s else s) h v)))"
    by (auto simp: fun_eq_iff file_seek_def Let_def split: option.split prod.split)
  moreover have "confined path_of file_at root drive \<dots>"
    by (rule confined_stream_op) (simp_all add: seekg seekp clears)
  ultimately show ?thesis by simp
qed

lemma confined_close: "confined path_of file_at root drive (file_close api handle)"
  unfolding confined_def
proof (intro allI impI)
  fix v w assume alike: "alike path_of file_at root drive v w"
  have files: "vfs_files w = vfs_files v" using alike by (simp add: alike_def)
  show "fst (file_close api handle v) = fst (file_close api handle w) \<and>
    alike path_of file_at root drive (snd (file_close api handle v)) (snd (file_close api handle w)) \<and>
    outside_kept file_at root v (snd (file_close api handle v))"
  proof (cases "vfs_files v handle")
    case None
    with files alike show ?thesis by (simp add: file_close_def outside_kept_def)
  next
    case (Some e)
    obtain s h where run: "api_close api (fh_stream e) (vfs_host v) = ((), s, h)"
      by (metis prod_cases3 unit.exhaust)
    from stream_step [OF closes alike Some refl run] obtain h2' where
      "api_close api (fh_stream e) (vfs_host w) = ((), s, h2')"
      "\<And>p. below root p \<Longrightarrow> file_at h p = file_at h2' p"
      "\<And>p. \<not> below root p \<Longrightarrow> file_at h p = file_at (vfs_host v) p" by metis
    then show ?thesis
      using Some files alike run by (auto simp: file_close_def outside_kept_def alike_def split: if_split_asm)
  qed
qed

text \<open>A stream that was just opened below the root goes into the table, or is closed again.\<close>

lemma add_handle_alike:
  assumes alike: "alike path_of file_at root drive v w" and s: "below root (path_of stream)"
  shows "fst (add_handle api stream r m v) = fst (add_handle api stream r m w) \<and>
    alike path_of file_at root drive (snd (add_handle api stream r m v)) (snd (add_handle api stream r m w)) \<and>
    outside_kept file_at root v (snd (add_handle api stream r m v))"
proof (cases "lowest_free (vfs_files v) 5")
  case (Some handle)
  with alike s show ?thesis
    by (auto simp: add_handle_def alike_def outside_kept_def)
next
  case None
  obtain s' h where run: "api_close api stream (vfs_host v) = ((), s', h)"
    by (metis prod_cases3 unit.exhaust)
  have "file_at (vfs_host w) (path_of stream) = file_at (vfs_host v) (path_of stream)"
    using alike s by (simp add: alike_def)
  with closes run obtain h2' where 2: "api_close api stream (vfs_host w) = ((), s', h2')"
    "file_at h2' (path_of stream) = file_at h (path_of stream)"
    "\<And>p. p \<noteq> path_of stream \<Longrightarrow> file_at h p = file_at (vfs_host v) p"
    unfolding confined_op_def by meson
  have other: "\<And>p. p \<noteq> path_of stream \<Longrightarrow> file_at h2' p = file_at (vfs_host w) p"
    using closes 2(1) unfolding confined_op_def by meson
  have "file_at h p = file_at h2' p" if "below root p" for p
    using that 2(2,3) other alike by (cases "p = path_of stream") (simp_all add: alike_def)
  moreover have "file_at h p = file_at (vfs_host v) p" if "\<not> below root p" for p
    using that 2(3) s by metis
  ultimately show ?thesis
    using None run 2(1) alike by (auto simp: add_handle_def alike_def outside_kept_def)
qed

lemma confined_open_op:
  assumes op: "confined_open path_of file_at op"
    and inside: "\<And>path. resolve canonical drive dos_path = Inr path \<Longrightarrow> below root path"
  shows "confined path_of file_at root drive (\<lambda>v. case wrapE FilePath (resolve canonical (vfs_drive v) dos_path) of
      Inl e \<Rightarrow> (Inl e, v)
    | Inr path \<Rightarrow> (case op path (vfs_host v) of
         (None, host) \<Rightarrow> (Inl (Fail failure), v\<lparr>vfs_host := host\<rparr>)
       | (Some stream, host) \<Rightarrow> add_handle api stream r m (v\<lparr>vfs_host := host\<rparr>)))"
  unfolding confined_def
proof (intro allI impI)
  fix v w assume alike: "alike path_of file_at root drive v w"
  let ?f = "\<lambda>v. case wrapE FilePath (resolve canonical (vfs_drive v) dos_path) of
      Inl e \<Rightarrow> (Inl e, v)
    | Inr path \<Rightarrow> (case op path (vfs_host v) of
         (None, host) \<Rightarrow> (Inl (Fail failure), v\<lparr>vfs_host := host\<rparr>)
       | (Some stream, host) \<Rightarrow> add_handle api stream r m (v\<lparr>vfs_host := host\<rparr>))"
  have drives: "vfs_drive v = drive" "vfs_drive w = drive" using alike by (simp_all add: alike_def)
  show "fst (?f v) = fst (?f w) \<and> alike path_of file_at root drive (snd (?f v)) (snd (?f w)) \<and>
    outside_kept file_at root v (snd (?f v))"
  proof (cases "resolve canonical drive dos_path")
    case (Inl e)
    with drives alike show ?thesis by (simp add: outside_kept_def)
  next
    case (Inr path)
    note in_root = inside [OF Inr]
    obtain s h where run: "op path (vfs_host v) = (s, h)" by fastforce
    have "file_at (vfs_host w) path = file_at (vfs_host v) path" using alike in_root by (simp add: alike_def)
    with op run obtain h2' where 2: "op path (vfs_host w) = (s, h2')" "file_at h2' path = file_at h path"
      "\<And>p. p \<noteq> path \<Longrightarrow> file_at h p = file_at (vfs_host v) p" "\<And>stream. s = Some stream \<Longrightarrow> path_of stream = path"
      unfolding confined_open_def by meson
    have other: "\<And>p. p \<noteq> path \<Longrightarrow> file_at h2' p = file_at (vfs_host w) p"
      using op 2(1) unfolding confined_open_def by meson
    have same: "file_at h p = file_at h2' p" if "below root p" for p
      using that 2(2,3) other alike by (cases "p = path") (simp_all add: alike_def)
    have out: "file_at h p = file_at (vfs_host v) p" if "\<not> below root p" for p
      using that 2(3) in_root by metis
    have opened: "alike path_of file_at root drive (v\<lparr>vfs_host := h\<rparr>) (w\<lparr>vfs_host := h2'\<rparr>)"
      using alike same by (simp add: alike_def)
    show ?thesis
    proof (cases s)
      case None
      with opened out run 2(1) Inr drives show ?thesis by (simp add: outside_kept_def)
    next
      case (Some stream)
      with add_handle_alike [OF opened, of stream r m] 2(1,4) in_root out run Inr drives
      show ?thesis by (auto simp: outside_kept_def)
    qed
  qed
qed

lemma confined_dispatch:
  assumes "\<And>path. resolve canonical drive (rf_path request) = Inr path \<Longrightarrow> below root path"
  shows "confined path_of file_at root drive (int21_file_dispatch canonical api request)"
proof -
  have opens: "confined path_of file_at root drive (open_read canonical api (rf_path request))"
    "confined path_of file_at root drive (open_write canonical api (rf_path request))"
    unfolding open_read_def [abs_def] open_write_def [abs_def]
    by ((rule confined_open_op [OF open_in] confined_open_op [OF open_out], erule assms)+)
  show ?thesis
    unfolding int21_file_dispatch_def [abs_def]
    by (intro confined_if confined_answer confined_return opens confined_read confined_write confined_seek
        confined_close)
qed

text \<open>
  A guest's whole run: with the same files below the root it gets the same answers and leaves the same
  files there, and it changes no file elsewhere.
\<close>

lemma run_files_confined:
  assumes "\<And>dos_path path. resolve canonical drive dos_path = Inr path \<Longrightarrow> below root path"
  shows "confined path_of file_at root drive (run_files canonical api requests)"
proof (induction requests)
  case Nil
  then show ?case by (simp add: confined_return)
next
  case (Cons request requests)
  have step: "confined path_of file_at root drive (int21_file_dispatch canonical api request)"
    by (rule confined_dispatch [OF assms])
  show ?case
    unfolding confined_def
  proof (intro allI impI)
    fix v w assume "alike path_of file_at root drive v w"
    note 1 = step [unfolded confined_def, rule_format, OF this]
    note 2 = Cons.IH [unfolded confined_def, rule_format, OF 1 [THEN conjunct2, THEN conjunct1]]
    show "fst (run_files canonical api (request # requests) v) = fst (run_files canonical api (request # requests) w) \<and>
      alike path_of file_at root drive (snd (run_files canonical api (request # requests) v))
        (snd (run_files canonical api (request # requests) w)) \<and>
      outside_kept file_at root v (snd (run_files canonical api (request # requests) v))"
      using 1 2 by (auto simp: run_files_Cons Let_def outside_kept_def simp del: run_files.simps)
  qed
qed

end

section \<open>Regular files\<close>

interpretation plain: confined_streams "plain_api may_read may_write faulty" fs_path "\<lambda>host p. host p"
  for may_read may_write faulty
  by unfold_locales
    (auto simp: plain_api_def confined_op_def confined_open_def plain_open_in_def plain_open_out_def
      plain_read_def plain_write_def plain_seek_def plain_close_def fresh_stream_def bytes_of_def Let_def
      split: if_split_asm seek_origin.split)

lemma lowest_free_here [simp]: "files handle = None \<Longrightarrow> lowest_free files handle = Some handle"
  by (simp add: lowest_free.simps)

lemma virtual_file_system_init_host [simp]: "vfs_host (virtual_file_system_init drive host) = host"
  by (simp add: virtual_file_system_init_def)

lemma path_error_not_exhausted: "wrapE FilePath r \<noteq> Inl (Fail HandlesExhausted)"
proof (cases r)
  case (Inl e)
  then show ?thesis by (cases e) simp_all
qed simp

lemma overwrite_empty [simp]: "overwrite 0 data [] = data"
  by (simp add: overwrite_def)

lemmas plain_defs =
  plain_api_def plain_open_in_def plain_open_out_def plain_read_def plain_write_def plain_close_def
  fresh_stream_def good_stream_def bytes_of_def

lemmas file_service_defs =
  int21_file_dispatch_def answer_def open_read_def open_write_def add_handle_def file_read_def
  file_write_def file_close_def set_stream_def virtual_file_system_init_def no_result_def

section \<open>A drive to try the services on\<close>

definition example_drive :: virtual_drive where
  "example_drive = virtual_drive_init \<lparr>hp_absolute = True, hp_names = [''d'']\<rparr> CHR ''C''"

definition drop_dots :: "host_path \<Rightarrow> host_path option" where
  "drop_dots p = Some (p\<lparr>hp_names := filter (\<lambda>n. n \<notin> {[], dot, dotdot}) (hp_names p)\<rparr>)"

lemma drop_dots_normalizing: "normalizing drop_dots"
  by (auto simp: normalizing_def drop_dots_def normal_def)

definition example_path :: string where "example_path = [CHR ''C'', CHR '':'', CHR ''/'', CHR ''A'']"

lemma example_resolve:
  "resolve drop_dots example_drive example_path = Inr \<lparr>hp_absolute = True, hp_names = [''d'', ''A'']\<rparr>"
  "drop_dots (vd_root example_drive) = Some \<lparr>hp_absolute = True, hp_names = [''d'']\<rparr>"
  by (simp_all add: resolve_def example_drive_def virtual_drive_init_def example_path_def on_drive_def
      is_separator_def add_component_def append_name_def drop_dots_def dot_def dotdot_def inside_root_def
      lexically_relative_def climb_def)

end
