(* ===== verification/BranchingCompiler.thy ===== *)
theory BranchingCompiler
  imports StraightLine
begin

text \<open>
  \<open>compiler/branching_compiler\<close>: the compiler that prints a C++ program with one function per block and
  leaves the machine code to the host's compiler. The printed text is modelled by its syntax tree: one
  constructor of \<open>c_stmt\<close> for each form of line that the emit functions print, with the numbers and
  registers that are spliced into it. \<open>BranchingRun\<close> says what such a program does. The host's
  compiler, which is not part of the program, is not modelled.
\<close>

section \<open>Registers in the emitted program\<close>

text \<open>\<open>static_cast<std::size_t>(r)\<close>.\<close>

fun register_number :: "register_name \<Rightarrow> nat" where
  "register_number R_al = 0" | "register_number R_cl = 1" | "register_number R_dl = 2"
| "register_number R_bl = 3" | "register_number R_ah = 4" | "register_number R_ch = 5"
| "register_number R_dh = 6" | "register_number R_bh = 7" | "register_number R_ax = 8"
| "register_number R_cx = 9" | "register_number R_dx = 10" | "register_number R_bx = 11"
| "register_number R_sp = 12" | "register_number R_bp = 13" | "register_number R_si = 14"
| "register_number R_di = 15" | "register_number R_es = 16" | "register_number R_cs = 17"
| "register_number R_ss = 18" | "register_number R_ds = 19"

definition word_reg_index :: "register_name \<Rightarrow> nat" where
  "word_reg_index r =
     (if register_number R_ax \<le> register_number r \<and> register_number r \<le> register_number R_di
      then register_number r - register_number R_ax else register_number r)"

fun byte_reg_locus :: "register_name \<Rightarrow> nat \<times> register_name" where
  "byte_reg_locus R_al = (0, R_ax)" | "byte_reg_locus R_ah = (8, R_ax)"
| "byte_reg_locus R_cl = (0, R_cx)" | "byte_reg_locus R_ch = (8, R_cx)"
| "byte_reg_locus R_dl = (0, R_dx)" | "byte_reg_locus R_dh = (8, R_dx)"
| "byte_reg_locus R_bl = (0, R_bx)" | "byte_reg_locus R_bh = (8, R_bx)"
| "byte_reg_locus r = (0, r)"

section \<open>The emitted program\<close>

text \<open>An address expression: segment register, displacement, address registers.\<close>

datatype c_address = ca_not_memory | ca_at nat u16 "nat list"

text \<open>Value expressions: \<open>0x..\<close>, \<open>regs[i]\<close>, \<open>(uint8_t)(regs[i] >> s)\<close>, a byte and a word of memory.\<close>

datatype c_value =
  cv_const u16 | cv_word nat | cv_byte nat nat | cv_mem8 c_address | cv_mem16 c_address

datatype c_stmt =
  cs_set_byte nat nat c_value
| cs_set_word nat c_value
| cs_store bool c_address c_value
| cs_compare c_value c_value bool
| cs_update nat alu_operation u16
| cs_string byte rep_prefix
| cs_comment
| cs_exit_1
| cs_int21
| cs_int10
| cs_int16
| cs_block nat
| cs_branch "branch_condition option" nat nat
| cs_dispatch c_value
| cs_return
| cs_push_return nat
| cs_clear_direction
| cs_set_direction

text \<open>The function of a block; its body is a \<open>do\<close> loop where a condition to repeat it was found.\<close>

record c_block =
  cb_label :: nat
  cb_loop :: "branch_condition option option"
  cb_body :: "c_stmt list"

text \<open>What \<open>main\<close> does before it calls the entry block.\<close>

record c_main =
  cm_image :: "byte list"
  cm_base :: nat
  cm_relocations :: "nat list"
  cm_load_segment :: u16
  cm_registers :: "(nat \<times> u16) list"
  cm_entry :: nat

record c_program =
  cp_blocks :: "c_block list"
  cp_dispatch :: "nat list"
  cp_main :: c_main

datatype branching_error =
  BlockUndecodable nat decode_error | StraightLineFailed straight_line_error
| CannotWriteSource | HostCompilerFailed | CannotReopenExecutable | CannotReadExecutable

section \<open>Instructions\<close>

definition word_reg_access :: "register_name \<Rightarrow> c_value" where
  "word_reg_access r = cv_word (word_reg_index r)"

definition byte_reg_access :: "register_name \<Rightarrow> c_value" where
  "byte_reg_access r = (let (shift, word) = byte_reg_locus r in cv_byte (word_reg_index word) shift)"

definition byte_reg_store :: "register_name \<Rightarrow> c_value \<Rightarrow> c_stmt" where
  "byte_reg_store r v = (let (shift, word) = byte_reg_locus r in cs_set_byte (word_reg_index word) shift v)"

definition used_address_registers :: "operand \<Rightarrow> register_name list" where
  "used_address_registers mem =
     take (op_address_register_count mem)
       [fst (op_address_registers mem), snd (op_address_registers mem)]"

definition emit_mem_addr :: "operand \<Rightarrow> c_address" where
  "emit_mem_addr mem =
     (if op_kind mem \<noteq> o_memory then ca_not_memory
      else (let uses_bp = R_bp \<in> set (used_address_registers mem);
                segment = (if uses_bp then R_ss else R_ds)
        in ca_at (register_number segment - register_number R_ax) (op_displacement mem)
             (map word_reg_index (used_address_registers mem))))"

definition emit_move_immediate :: "instruction \<Rightarrow> c_stmt list" where
  "emit_move_immediate i =
     (let dst = fst (ins_operands i); imm = op_immediate (snd (ins_operands i))
      in if op_width dst = w_byte then [byte_reg_store (op_reg dst) (cv_const (imm AND 0xff))]
         else [cs_set_word (word_reg_index (op_reg dst)) (cv_const imm)])"

definition register_access :: "bool \<Rightarrow> operand \<Rightarrow> c_value" where
  "register_access is_byte op =
     (if is_byte then byte_reg_access (op_reg op) else word_reg_access (op_reg op))"

definition emit_move :: "instruction \<Rightarrow> c_stmt list" where
  "emit_move i =
     (let dst = fst (ins_operands i); src = snd (ins_operands i); is_byte = (op_width dst = w_byte)
      in if op_kind dst = o_memory then
           (if op_kind src = o_reg then [cs_store is_byte (emit_mem_addr dst) (register_access is_byte src)]
            else if op_kind src = o_immediate then
              [cs_store is_byte (emit_mem_addr dst) (cv_const (op_immediate src))]
            else [cs_comment])
         else if op_kind src = o_memory then
           (if is_byte then [byte_reg_store (op_reg dst) (cv_mem8 (emit_mem_addr src))]
            else [cs_set_word (word_reg_index (op_reg dst)) (cv_mem16 (emit_mem_addr src))])
         else if is_byte then [byte_reg_store (op_reg dst) (byte_reg_access (op_reg src))]
         else [cs_set_word (word_reg_index (op_reg dst)) (cv_word (word_reg_index (op_reg src)))])"

definition emit_arithmetic :: "instruction \<Rightarrow> c_stmt list" where
  "emit_arithmetic i =
     (let dst = fst (ins_operands i); src = snd (ins_operands i); is_byte = (op_width dst = w_byte)
      in if ins_alu i = a_compare \<or> ins_alu i = a_test then
           [cs_compare (register_access is_byte dst)
              (if op_kind src = o_immediate then cv_const (op_immediate src)
               else register_access (op_width src = w_byte) src) is_byte]
         else [cs_update (word_reg_index (op_reg dst)) (ins_alu i) (op_immediate src),
               cs_compare (word_reg_access (op_reg dst)) (cv_const 0) False])"

definition emit_string_op :: "byte list \<Rightarrow> instruction \<Rightarrow> (branching_error, c_stmt list) res" where
  "emit_string_op code i =
     bindE (at code (ins_offset i + ins_size i - 1)) (\<lambda>op.
       Inr [if op AND 0xfe \<in> {0xa4, 0xaa, 0xac, 0xa6, 0xae} then cs_string op (ins_rep i) else cs_comment])"

text \<open>
  The conditions that have an expression; for the others \<open>emit_conditional\<close> prints nothing and says so,
  and its callers print \<open>false\<close>.
\<close>

definition emit_conditional :: "branch_condition \<Rightarrow> branch_condition option" where
  "emit_conditional c =
     (if c \<in> {c_parity, c_not_parity, c_loop_not_equal, c_loop_equal, c_loop, c_cx_zero, c_always}
      then None else Some c)"

section \<open>Blocks\<close>

definition continue_at :: "byte list \<Rightarrow> nat list \<Rightarrow> nat \<Rightarrow> c_stmt list" where
  "continue_at code targets next =
     (if next < length code \<and> next \<in> set targets then [cs_block next] else [])"

text \<open>The instructions after which the body of a block ends.\<close>

definition emit_terminator ::
  "byte list \<Rightarrow> nat list \<Rightarrow> nat \<Rightarrow> instruction \<Rightarrow> (branching_error, c_stmt list) res option" where
  "emit_terminator code targets position i =
     (let next = position + ins_size i; target = walk_target position i
      in if ins_kind i = k_interrupt then
           (if ins_interrupt_number i = 0x21 then Some (Inr (cs_int21 # continue_at code targets next))
            else if ins_interrupt_number i = 0x10 then Some (Inr (cs_int10 # continue_at code targets next))
            else if ins_interrupt_number i = 0x16 then Some (Inr (cs_int16 # continue_at code targets next))
            else Some (Inr [cs_exit_1]))
         else if ins_kind i = k_jump then
           (if ins_indirect i then
              (if op_kind (fst (ins_operands i)) = o_reg
               then Some (Inr [cs_dispatch (word_reg_access (op_reg (fst (ins_operands i))))])
               else Some (Inr [cs_comment, cs_exit_1]))
            else Some (Inr [cs_block target]))
         else if ins_kind i = k_conditional_jump then
           Some (Inr [cs_branch (emit_conditional (ins_condition i)) target next])
         else if ins_kind i = k_return then Some (Inr [cs_return])
         else if ins_kind i = k_string then
           Some (bindE (emit_string_op code i) (\<lambda>op. Inr (op @ continue_at code targets next)))
         else if ins_kind i = k_call then
           (if ins_indirect i then Some (Inr [cs_comment, cs_exit_1])
            else Some (Inr [cs_push_return next, cs_block target]))
         else None)"

definition emit_plain :: "byte list \<Rightarrow> nat \<Rightarrow> instruction \<Rightarrow> c_stmt list" where
  "emit_plain code position i =
     (if ins_kind i = k_flags \<and> code ! position = 0xfc then [cs_clear_direction]
      else if ins_kind i = k_flags \<and> code ! position = 0xfd then [cs_set_direction]
      else if ins_kind i = k_move_immediate then emit_move_immediate i
      else if ins_kind i = k_move then emit_move i
      else if ins_kind i = k_arithmetic \<or> ins_kind i = k_compare then emit_arithmetic i
      else [cs_comment, cs_exit_1])"

function emit_block_body ::
  "byte list \<Rightarrow> nat list \<Rightarrow> nat \<Rightarrow> nat \<Rightarrow> (branching_error, c_stmt list) res" where
  "emit_block_body code targets stop_before position =
     (if position \<ge> length code \<or> stop_before \<noteq> 0 \<and> position = stop_before then Inr []
      else bindE (wrapE (BlockUndecodable position) (decode_at code position)) (\<lambda>i.
        case emit_terminator code targets position i of
          Some stmts \<Rightarrow> stmts
        | None \<Rightarrow>
            bindE (emit_block_body code targets stop_before (position + ins_size i)) (\<lambda>rest.
              Inr (emit_plain code position i @ rest))))"
  by pat_completeness auto
termination
  by (relation "measure (\<lambda>(code, targets, stop_before, position). length code - position)")
    (auto dest: dec.dec_progress)

declare emit_block_body.simps [simp del]

definition probe_ends :: "instruction_kind \<Rightarrow> bool" where
  "probe_ends kind \<longleftrightarrow> kind = k_jump \<or> kind = k_conditional_jump \<or> kind = k_return \<or>
     kind = k_interrupt \<or> kind = k_call"

text \<open>The probe for a block that ends in a conditional jump to its own start.\<close>

function find_loop ::
  "byte list \<Rightarrow> nat \<Rightarrow> nat \<Rightarrow> (branching_error, (nat \<times> branch_condition) option) res" where
  "find_loop code start scan =
     (if scan \<ge> length code then Inr None
      else (case decode_at code scan of
          Inl Undefined \<Rightarrow> Inl Undefined
        | Inl (Fail _) \<Rightarrow> Inr None
        | Inr probe \<Rightarrow>
            if probe_ends (ins_kind probe) then
              Inr (if ins_kind probe = k_conditional_jump \<and> scan \<noteq> start \<and> walk_target scan probe = start
                   then Some (scan, ins_condition probe) else None)
            else find_loop code start (scan + ins_size probe)))"
  by pat_completeness auto
termination
  by (relation "measure (\<lambda>(code, start, scan). length code - scan)") (auto dest: dec.dec_progress)

declare find_loop.simps [simp del]

definition emit_block_at :: "byte list \<Rightarrow> nat list \<Rightarrow> nat \<Rightarrow> (branching_error, c_block) res" where
  "emit_block_at code targets start =
     bindE (find_loop code start start) (\<lambda>found.
       case found of
         Some (loop_end, condition) \<Rightarrow>
           bindE (emit_block_body code targets loop_end start) (\<lambda>body.
             Inr \<lparr>cb_label = start, cb_loop = Some (emit_conditional condition), cb_body = body\<rparr>)
       | None \<Rightarrow>
           bindE (emit_block_body code targets 0 start) (\<lambda>body.
             Inr \<lparr>cb_label = start, cb_loop = None, cb_body = body\<rparr>))"

section \<open>Block starts\<close>

definition last_interrupt :: "byte list \<Rightarrow> nat" where
  "last_interrupt code =
     foldl (\<lambda>latest p. if code ! p = 0xcd \<and> code ! (p + 1) = 0x21 then p else latest) 0
       [0..<length code - 1]"

text \<open>One start: the walk to the end of its block, with the set of starts and the flag \<open>changed\<close>.\<close>

definition add_start :: "nat \<Rightarrow> nat list \<times> bool \<Rightarrow> nat list \<times> bool" where
  "add_start p s = (set_insert p (fst s), snd s \<or> p \<notin> set (fst s))"

definition add_targets :: "byte list \<Rightarrow> nat \<Rightarrow> nat \<Rightarrow> instruction \<Rightarrow> nat list \<times> bool \<Rightarrow> nat list \<times> bool" where
  "add_targets code latest position i s =
     (let next = position + ins_size i; kind = ins_kind i;
          is_branch = (kind = k_jump \<or> kind = k_conditional_jump \<or> kind = k_call);
          falls = (kind = k_conditional_jump \<or> kind = k_call \<or> kind = k_interrupt \<and> position \<noteq> latest);
          s1 = (if is_branch then add_start (walk_target position i) s else s)
      in if falls \<and> next < length code then add_start next s1 else s1)"

function scan_start_block ::
  "byte list \<Rightarrow> nat \<Rightarrow> nat \<Rightarrow> nat list \<times> bool \<Rightarrow> (branching_error, nat list \<times> bool) res" where
  "scan_start_block code latest position s =
     (if position \<ge> length code then Inr s
      else bindE (wrapE (BlockUndecodable position) (decode_at code position)) (\<lambda>i.
        let s' = add_targets code latest position i s
        in if probe_ends (ins_kind i) then Inr s'
           else scan_start_block code latest (position + ins_size i) s'))"
  by pat_completeness auto
termination
  by (relation "measure (\<lambda>(code, latest, position, s). length code - position)") (auto dest: dec.dec_progress)

declare scan_start_block.simps [simp del]

text \<open>One round of the outer loop, over a copy of the set.\<close>

fun scan_starts ::
  "byte list \<Rightarrow> nat \<Rightarrow> nat list \<Rightarrow> nat list \<times> bool \<Rightarrow> (branching_error, nat list \<times> bool) res" where
  "scan_starts code latest [] s = Inr s"
| "scan_starts code latest (start # rest) s =
     bindE (scan_start_block code latest start s) (scan_starts code latest rest)"

text \<open>All positions that a round can add.\<close>

definition possible_starts :: "byte list \<Rightarrow> nat set" where
  "possible_starts code =
     {..<length code} \<union>
     (\<lambda>p. case decode_at code p of Inr i \<Rightarrow> walk_target p i | Inl _ \<Rightarrow> 0) ` {..<length code}"

definition extends_starts :: "byte list \<Rightarrow> nat list \<times> bool \<Rightarrow> nat list \<times> bool \<Rightarrow> bool" where
  "extends_starts code s s' \<longleftrightarrow>
     set (fst s) \<subseteq> set (fst s') \<and> set (fst s') \<subseteq> set (fst s) \<union> possible_starts code \<and>
     (snd s' \<longleftrightarrow> snd s \<or> set (fst s') \<noteq> set (fst s)) \<and>
     (set (fst s') = set (fst s) \<longrightarrow> fst s' = fst s)"

lemma extends_starts_refl: "extends_starts code s s"
  by (simp add: extends_starts_def)

lemma extends_starts_trans:
  "extends_starts code s t \<Longrightarrow> extends_starts code t u \<Longrightarrow> extends_starts code s u"
  by (auto simp: extends_starts_def)

lemma extends_add_start: "p \<in> possible_starts code \<Longrightarrow> extends_starts code s (add_start p s)"
  by (auto simp: extends_starts_def add_start_def set_insert_def set_insort_key)

lemma extends_add_targets:
  assumes "decode_at code position = Inr i"
  shows "extends_starts code s (add_targets code latest position i s)"
proof -
  have p: "position < length code" using assms by (rule dec.dec_inside)
  with assms have target: "walk_target position i \<in> possible_starts code"
    by (force simp: possible_starts_def)
  have inside: "n \<in> possible_starts code" if "n < length code" for n
    using that by (simp add: possible_starts_def)
  let ?branch = "ins_kind i = k_jump \<or> ins_kind i = k_conditional_jump \<or> ins_kind i = k_call"
  let ?s1 = "if ?branch then add_start (walk_target position i) s else s"
  have "extends_starts code s ?s1"
    using extends_add_start [OF target] by (simp add: extends_starts_refl)
  moreover have "extends_starts code ?s1 (add_targets code latest position i s)"
    using extends_add_start [OF inside] by (simp add: add_targets_def Let_def extends_starts_refl)
  ultimately show ?thesis by (rule extends_starts_trans)
qed

lemma scan_start_block_extends:
  "scan_start_block code latest position s = Inr s' \<Longrightarrow> extends_starts code s s'"
proof (induction code latest position s rule: scan_start_block.induct)
  case (1 code latest position s)
  show ?case
  proof (cases "position \<ge> length code")
    case True
    with 1(2) show ?thesis by (simp add: scan_start_block.simps extends_starts_refl)
  next
    case False
    with 1(2) obtain i where i: "decode_at code position = Inr i"
      by (auto simp: scan_start_block.simps [of code latest position] bindE_eq_Inr)
    note step = extends_add_targets [OF i, of s latest]
    show ?thesis
    proof (cases "probe_ends (ins_kind i)")
      case True
      with 1(2) False i step show ?thesis by (simp add: scan_start_block.simps [of code latest position])
    next
      case more: False
      with 1(2) False i have "scan_start_block code latest (position + ins_size i)
          (add_targets code latest position i s) = Inr s'"
        by (simp add: scan_start_block.simps [of code latest position])
      from 1(1) [OF False _ refl more this] i step show ?thesis by (auto intro: extends_starts_trans)
    qed
  qed
qed

lemma scan_starts_extends: "scan_starts code latest starts s = Inr s' \<Longrightarrow> extends_starts code s s'"
  by (induction starts arbitrary: s)
    (auto simp: extends_starts_refl bindE_eq_Inr intro: extends_starts_trans dest: scan_start_block_extends)

function fix_starts :: "byte list \<Rightarrow> nat list \<Rightarrow> (branching_error, nat list) res" where
  "fix_starts code starts =
     bindE (scan_starts code (last_interrupt code) starts (starts, False)) (\<lambda>(starts', changed).
       if changed then fix_starts code starts' else Inr starts')"
  by pat_completeness auto
termination
proof (relation "measure (\<lambda>(code, starts). card (possible_starts code - set starts))", goal_cases)
  case 1
  show ?case by simp
next
  case (2 code starts s starts' changed)
  then have "extends_starts code (starts, False) (starts', True)"
    using scan_starts_extends by auto
  then have "possible_starts code - set starts' \<subset> possible_starts code - set starts"
    by (auto simp: extends_starts_def)
  moreover have "finite (possible_starts code)" by (simp add: possible_starts_def)
  ultimately show ?case by (auto intro: psubset_card_mono)
qed

declare fix_starts.simps [simp del]

text \<open>The linear sweep from the beginning of the image to its first interrupt.\<close>

function sweep_starts :: "byte list \<Rightarrow> nat \<Rightarrow> nat list \<Rightarrow> (branching_error, nat list) res" where
  "sweep_starts code pos starts =
     (if pos \<ge> length code \<or> length starts \<ge> 256 then Inr starts
      else (case decode_at code pos of
          Inl Undefined \<Rightarrow> Inl Undefined
        | Inl (Fail _) \<Rightarrow> Inr starts
        | Inr i \<Rightarrow>
            if ins_kind i = k_interrupt then Inr (set_insert pos starts)
            else sweep_starts code (pos + ins_size i) (set_insert pos starts)))"
  by pat_completeness auto
termination
  by (relation "measure (\<lambda>(code, pos, starts). length code - pos)") (auto dest: dec.dec_progress)

declare sweep_starts.simps [simp del]

definition collect_block_starts :: "program_image \<Rightarrow> (branching_error, nat list) res" where
  "collect_block_starts img =
     bindE (fix_starts (img_bytes img) [entry_offset img]) (sweep_starts (img_bytes img) 0)"

section \<open>The program\<close>

definition write_main :: "program_image \<Rightarrow> c_main" where
  "write_main img =
     (if img_format img = mz then
        (let load_seg = 0x1000 + img_header_paragraphs img; base = unat load_seg * 16
         in \<lparr>cm_image = img_bytes img, cm_base = base,
             cm_relocations = map (\<lambda>a. unat (sa_segment a) * 16 + unat (sa_offset a) + base) (img_relocations img),
             cm_load_segment = load_seg,
             cm_registers = [(4, 0xfffe), (16, 0x1000), (19, 0x1000),
               (10, load_seg + sa_segment (img_initial_stack img)),
               (9, load_seg + sa_segment (img_entry_point img)), (4, sa_offset (img_initial_stack img))],
             cm_entry = entry_offset img\<rparr>)
      else \<lparr>cm_image = img_bytes img, cm_base = 0x100, cm_relocations = [], cm_load_segment = 0,
            cm_registers = [(4, 0xfffe)], cm_entry = entry_offset img\<rparr>)"

fun emit_blocks :: "byte list \<Rightarrow> nat list \<Rightarrow> nat list \<Rightarrow> (branching_error, c_block list) res" where
  "emit_blocks code targets [] = Inr []"
| "emit_blocks code targets (start # rest) =
     bindE (emit_block_at code targets start) (\<lambda>block.
       bindE (emit_blocks code targets rest) (\<lambda>blocks. Inr (block # blocks)))"

definition emit_c_runtime :: "program_image \<Rightarrow> (branching_error, c_program) res" where
  "emit_c_runtime img =
     bindE (collect_block_starts img) (\<lambda>starts.
       bindE (emit_blocks (img_bytes img) starts starts) (\<lambda>blocks.
         Inr \<lparr>cp_blocks = blocks, cp_dispatch = starts, cp_main = write_main img\<rparr>))"

definition emit_c_source :: "program_image \<Rightarrow> (branching_error, c_program) res" where
  "emit_c_source img = emit_c_runtime img"

definition branching_exit_code ::
  "(byte list \<Rightarrow> byte list option) \<Rightarrow> program_image \<Rightarrow> (branching_error, byte) partial" where
  "branching_exit_code host img =
     map_option (wrapE StraightLineFailed) (straight_line_exit_code host img)"

text \<open>
  \<open>compile\<close> removes an old executable from the directory for temporary files, writes the source there, runs
  the host's compiler on it and reads the executable that this makes. How far that gets is the parameter
  \<open>build_host\<close>; \<open>branching_compile\<close> is the result and \<open>branching_effects\<close> what is done to the files.
\<close>

datatype host_build = source_unwritable | compiler_failed | executable_missing | executable_unreadable
  | executable "byte list"

definition branching_compile ::
  "(c_program \<Rightarrow> host_build) \<Rightarrow> program_image \<Rightarrow> (branching_error, byte list) res" where
  "branching_compile build_host img =
     bindE (emit_c_runtime img) (\<lambda>source.
       case build_host source of
         source_unwritable \<Rightarrow> Inl (Fail CannotWriteSource)
       | compiler_failed \<Rightarrow> Inl (Fail HostCompilerFailed)
       | executable_missing \<Rightarrow> Inl (Fail CannotReopenExecutable)
       | executable_unreadable \<Rightarrow> Inl (Fail CannotReadExecutable)
       | executable data \<Rightarrow> Inr data)"

datatype build_effect =
  be_remove string
| be_write string c_program bool
| be_host_compiler string string

text \<open>\<open>tmp_dir / name\<close>.\<close>

definition append_path :: "string \<Rightarrow> string \<Rightarrow> string" where
  "append_path dir name = (if dir = [] \<or> last dir = CHR ''/'' then dir @ name else dir @ ''/'' @ name)"

definition temporary_source :: "string \<Rightarrow> string" where
  "temporary_source tmp_dir = append_path tmp_dir ''dosrecomp_branching.cpp''"

definition temporary_executable :: "string \<Rightarrow> string" where
  "temporary_executable tmp_dir = append_path tmp_dir ''dosrecomp_branching.elf''"

definition branching_effects ::
  "string \<Rightarrow> (c_program \<Rightarrow> host_build) \<Rightarrow> program_image \<Rightarrow> build_effect list" where
  "branching_effects tmp_dir build_host img =
     (case emit_c_runtime img of
        Inl _ \<Rightarrow> []
      | Inr source \<Rightarrow>
          be_remove (temporary_executable tmp_dir) #
          (if build_host source = source_unwritable then [be_write (temporary_source tmp_dir) source False]
           else [be_write (temporary_source tmp_dir) source True,
                 be_host_compiler (temporary_source tmp_dir) (temporary_executable tmp_dir)]))"

end
