(* ===== verification/BranchingRun.thy ===== *)
theory BranchingRun
  imports BranchingCompiler
begin

text \<open>
  What a program printed by \<open>branching_compiler\<close> does: the meaning of its statements, the run-time
  functions it contains (\<open>update_flags_cmp\<close>, \<open>df_step\<close>, the services of INT 21h, 10h and 16h), \<open>dispatch\<close>
  and \<open>main\<close>. The system calls are the record \<open>c_host\<close>. An access outside one of the program's arrays
  is \<open>cr_undefined\<close>. Calls between blocks are run with fuel; \<open>cr_out_of_fuel\<close> says that it ran out.
\<close>

section \<open>State\<close>

text \<open>A broken-down time, as \<open>gmtime_r\<close> gives it.\<close>

record c_time =
  tm_year :: int
  tm_mon :: int
  tm_mday :: int
  tm_hour :: int
  tm_min :: int
  tm_sec :: int

text \<open>
  The host: \<open>ch_read fd n\<close> gives the bytes read, empty at the end of input, or \<open>None\<close> for the result -1;
  \<open>ch_chdir\<close> says whether the call succeeded.
\<close>

record 'h c_host =
  ch_read :: "int \<Rightarrow> nat \<Rightarrow> 'h \<Rightarrow> byte list option \<times> 'h"
  ch_write :: "int \<Rightarrow> byte list \<Rightarrow> 'h \<Rightarrow> 'h"
  ch_open :: "byte list \<Rightarrow> nat \<Rightarrow> 'h \<Rightarrow> int \<times> 'h"
  ch_close :: "int \<Rightarrow> 'h \<Rightarrow> 'h"
  ch_time :: "'h \<Rightarrow> c_time"
  ch_chdir :: "byte list \<Rightarrow> 'h \<Rightarrow> bool \<times> 'h"
  ch_getcwd :: "'h \<Rightarrow> byte list option"

text \<open>The static variables of the program.\<close>

record 'h c_state =
  cs_regs :: "nat \<Rightarrow> u16"
  cs_mem :: "nat \<Rightarrow> byte"
  cs_flags :: u32
  cs_next_handle :: nat
  cs_handles :: "nat \<Rightarrow> int"
  cs_call_stack :: "nat \<Rightarrow> u16"
  cs_call_sp :: nat
  cs_next_seg :: u16
  cs_host :: 'h

text \<open>
  \<open>mem\<close> has 100000 elements: the constant \<open>0x100000\<close> is printed in hexadecimal without a prefix.
\<close>

definition mem_size :: nat where "mem_size = 100000"

definition c_init :: "'h \<Rightarrow> 'h c_state" where
  "c_init h = \<lparr>cs_regs = (\<lambda>_. 0), cs_mem = (\<lambda>_. 0), cs_flags = 0, cs_next_handle = 3,
     cs_handles = (\<lambda>_. - 1), cs_call_stack = (\<lambda>_. 0), cs_call_sp = 0, cs_next_seg = 0x2000, cs_host = h\<rparr>"

datatype 'h c_result =
  cr_next "'h c_state" | cr_return "'h c_state" | cr_exit byte "'h c_state" | cr_undefined | cr_out_of_fuel

fun andthen :: "'h c_result \<Rightarrow> ('h c_state \<Rightarrow> 'h c_result) \<Rightarrow> 'h c_result" where
  "andthen (cr_next s) f = f s"
| "andthen r f = r"

definition set_reg :: "nat \<Rightarrow> u16 \<Rightarrow> 'h c_state \<Rightarrow> 'h c_state" where
  "set_reg i v s = s\<lparr>cs_regs := (cs_regs s)(i := v)\<rparr>"

text \<open>\<open>exit(1)\<close> through the system call.\<close>

definition exit_1 :: "'h c_state \<Rightarrow> 'h c_result" where
  "exit_1 s = cr_exit 1 s"

section \<open>Memory\<close>

definition load8 :: "nat \<Rightarrow> 'h c_state \<Rightarrow> byte option" where
  "load8 a s = (if a < mem_size then Some (cs_mem s a) else None)"

definition store8 :: "nat \<Rightarrow> byte \<Rightarrow> 'h c_state \<Rightarrow> 'h c_result" where
  "store8 a v s = (if a < mem_size then cr_next (s\<lparr>cs_mem := (cs_mem s)(a := v)\<rparr>) else cr_undefined)"

definition load16 :: "nat \<Rightarrow> 'h c_state \<Rightarrow> u16 option" where
  "load16 a s = (case (load8 a s, load8 (a + 1) s) of (Some lo, Some hi) \<Rightarrow> Some (le16 lo hi) | _ \<Rightarrow> None)"

definition store16 :: "nat \<Rightarrow> u16 \<Rightarrow> 'h c_state \<Rightarrow> 'h c_result" where
  "store16 a v s = andthen (store8 a (lo8 v) s) (store8 (a + 1) (hi8 v))"

definition bytes_at :: "nat \<Rightarrow> nat \<Rightarrow> 'h c_state \<Rightarrow> byte list option" where
  "bytes_at a n s = (if a + n \<le> mem_size then Some (map (\<lambda>k. cs_mem s (a + k)) [0..<n]) else None)"

definition store_bytes :: "nat \<Rightarrow> byte list \<Rightarrow> 'h c_state \<Rightarrow> 'h c_result" where
  "store_bytes a data s =
     (if a + length data \<le> mem_size
      then cr_next (s\<lparr>cs_mem := (\<lambda>k. if a \<le> k \<and> k < a + length data then data ! (k - a) else cs_mem s k)\<rparr>)
      else cr_undefined)"

text \<open>The bytes from an address up to a terminator: \<open>None\<close> where the search leaves the array.\<close>

definition bytes_until :: "byte \<Rightarrow> nat \<Rightarrow> 'h c_state \<Rightarrow> byte list option" where
  "bytes_until stop a s =
     (let rest = map (cs_mem s) [a..<mem_size]
      in if stop \<in> set rest then Some (takeWhile (\<lambda>b. b \<noteq> stop) rest) else None)"

section \<open>Flags\<close>

definition update_flags_cmp :: "u16 \<Rightarrow> u16 \<Rightarrow> bool \<Rightarrow> 'h c_state \<Rightarrow> 'h c_state" where
  "update_flags_cmp a b is_byte s =
     s\<lparr>cs_flags :=
       (if is_byte then
          (let aa = lo8 a; bb = lo8 b; r = aa - bb
           in (if aa = bb then 0x40 else 0) OR (if r AND 0x80 \<noteq> 0 then 0x80 else 0) OR (if aa < bb then 1 else 0))
        else
          (let r = a - b
           in (if a = b then 0x40 else 0) OR (if r AND 0x8000 \<noteq> 0 then 0x8000 else 0) OR (if a < b then 1 else 0)))\<rparr>"

definition flag :: "u32 \<Rightarrow> 'h c_state \<Rightarrow> bool" where
  "flag bits s \<longleftrightarrow> cs_flags s AND bits \<noteq> 0"

definition df_step :: "'h c_state \<Rightarrow> u16 \<Rightarrow> u16" where
  "df_step s d = (if flag 0x400 s then - d else d)"

text \<open>The expressions that \<open>emit_conditional\<close> prints.\<close>

fun condition_value :: "branch_condition \<Rightarrow> 'h c_state \<Rightarrow> bool" where
  "condition_value c_equal s = flag 0x40 s"
| "condition_value c_not_equal s = (\<not> flag 0x40 s)"
| "condition_value c_below s = flag 0x1 s"
| "condition_value c_above_or_equal s = (\<not> flag 0x1 s)"
| "condition_value c_below_or_equal s = (flag 0x1 s \<or> flag 0x40 s)"
| "condition_value c_above s = (\<not> flag 0x1 s \<and> \<not> flag 0x40 s)"
| "condition_value c_sign s = flag 0x8000 s"
| "condition_value c_not_sign s = (\<not> flag 0x8000 s)"
| "condition_value c_less s = (flag 0x8000 s \<noteq> flag 0x40 s)"
| "condition_value c_greater_or_equal s = (flag 0x8000 s = flag 0x40 s)"
| "condition_value c_less_or_equal s = (flag 0x40 s \<or> flag 0x8000 s \<noteq> flag 0x40 s)"
| "condition_value c_greater s = (\<not> flag 0x40 s \<and> flag 0x8000 s = flag 0x40 s)"
| "condition_value c_overflow s = flag 0x8000 s"
| "condition_value c_not_overflow s = (\<not> flag 0x8000 s)"
| "condition_value _ s = False"

definition branch_taken :: "branch_condition option \<Rightarrow> 'h c_state \<Rightarrow> bool" where
  "branch_taken c s = (case c of None \<Rightarrow> False | Some c \<Rightarrow> condition_value c s)"

section \<open>Values\<close>

text \<open>The address is computed with 32 bits; the sum of displacement and registers is a C++ \<open>int\<close>.\<close>

fun address_value :: "c_address \<Rightarrow> 'h c_state \<Rightarrow> nat option" where
  "address_value ca_not_memory s = None"
| "address_value (ca_at seg disp regs) s =
     Some (nat ((int (unat (cs_regs s seg)) * 16 + sint disp + (\<Sum>r\<leftarrow>regs. int (unat (cs_regs s r)))) mod 2 ^ 32))"

fun value_of :: "c_value \<Rightarrow> 'h c_state \<Rightarrow> u16 option" where
  "value_of (cv_const v) s = Some v"
| "value_of (cv_word i) s = Some (cs_regs s i)"
| "value_of (cv_byte i shift) s = Some (ucast (ucast (drop_bit shift (cs_regs s i)) :: byte))"
| "value_of (cv_mem8 a) s =
     (case address_value a s of None \<Rightarrow> None | Some a \<Rightarrow> map_option ucast (load8 a s))"
| "value_of (cv_mem16 a) s = (case address_value a s of None \<Rightarrow> None | Some a \<Rightarrow> load16 a s)"

definition with_value :: "'a option \<Rightarrow> ('a \<Rightarrow> 'h c_result) \<Rightarrow> 'h c_result" where
  "with_value v f = (case v of None \<Rightarrow> cr_undefined | Some x \<Rightarrow> f x)"

text \<open>The assignment that \<open>byte_reg_store\<close> prints.\<close>

definition set_byte :: "nat \<Rightarrow> u16 \<Rightarrow> u16 \<Rightarrow> u16" where
  "set_byte shift v w = (w AND NOT (push_bit shift 0xff)) OR push_bit shift v"

text \<open>The operators of \<open>emit_arithmetic\<close>; the operations without one print no C++.\<close>

fun update_value :: "alu_operation \<Rightarrow> u16 \<Rightarrow> u16 \<Rightarrow> u16 option" where
  "update_value a_add x y = Some (x + y)" | "update_value a_adc x y = Some (x + y)"
| "update_value a_or x y = Some (x OR y)" | "update_value a_sbb x y = Some (x - y)"
| "update_value a_and x y = Some (x AND y)" | "update_value a_subtract x y = Some (x - y)"
| "update_value a_xor x y = Some (x XOR y)" | "update_value _ x y = None"

section \<open>String operations\<close>

text \<open>One step of \<open>emit_string_op\<close>'s body; SI and DI are \<open>regs[6]\<close> and \<open>regs[7]\<close>.\<close>

definition step_index :: "nat \<Rightarrow> u16 \<Rightarrow> 'h c_state \<Rightarrow> 'h c_state" where
  "step_index i d s = set_reg i (cs_regs s i + df_step s d) s"

definition index_at :: "nat \<Rightarrow> 'h c_state \<Rightarrow> nat" where
  "index_at i s = unat (cs_regs s i)"

definition string_body :: "byte \<Rightarrow> 'h c_state \<Rightarrow> 'h c_result" where
  "string_body op s =
     (let wide = (op AND 1 \<noteq> 0); d = (if wide then 2 else 1); base = op AND 0xfe;
          si = step_index 6 d; di = step_index 7 d
      in if base = 0xa4 then
           (if wide then with_value (load16 (index_at 6 s) s) (\<lambda>v.
              andthen (store16 (index_at 7 s) v s) (\<lambda>s. cr_next (di (si s))))
            else with_value (load8 (index_at 6 s) s) (\<lambda>v.
              andthen (store8 (index_at 7 s) v s) (\<lambda>s. cr_next (di (si s)))))
         else if base = 0xaa then
           (if wide then andthen (store16 (index_at 7 s) (cs_regs s 0) s) (\<lambda>s. cr_next (di s))
            else andthen (store8 (index_at 7 s) (lo8 (cs_regs s 0)) s) (\<lambda>s. cr_next (di s)))
         else if base = 0xac then
           (if wide then with_value (load16 (index_at 6 s) s) (\<lambda>v. cr_next (si (set_reg 0 v s)))
            else with_value (load8 (index_at 6 s) s) (\<lambda>v.
              cr_next (si (set_reg 0 ((cs_regs s 0 AND 0xff00) OR ucast v) s))))
         else if base = 0xa6 then
           (if wide then with_value (load16 (index_at 6 s) s) (\<lambda>a. with_value (load16 (index_at 7 s) s) (\<lambda>b.
              cr_next (di (si (update_flags_cmp a b False s)))))
            else with_value (load8 (index_at 6 s) s) (\<lambda>a. with_value (load8 (index_at 7 s) s) (\<lambda>b.
              cr_next (di (si (update_flags_cmp (ucast a) (ucast b) True s))))))
         else
           (if wide then with_value (load16 (index_at 7 s) s) (\<lambda>b.
              cr_next (di (update_flags_cmp (cs_regs s 0) b False s)))
            else with_value (load8 (index_at 7 s) s) (\<lambda>b.
              cr_next (di (update_flags_cmp (ucast (lo8 (cs_regs s 0))) (ucast b) True s)))))"

text \<open>
  \<open>while (regs[1] > 0) { regs[1]--; ... }\<close>: the body leaves \<open>regs[1]\<close> alone, so the loop runs at most as
  often as the value of \<open>regs[1]\<close> before it.
\<close>

definition string_break :: "rep_prefix \<Rightarrow> 'h c_state \<Rightarrow> bool" where
  "string_break rep s \<longleftrightarrow> rep = rep_repe \<and> \<not> flag 0x40 s \<or> rep = rep_repne \<and> flag 0x40 s"

fun string_loop :: "nat \<Rightarrow> byte \<Rightarrow> rep_prefix \<Rightarrow> 'h c_state \<Rightarrow> 'h c_result" where
  "string_loop 0 op rep s = cr_next s"
| "string_loop (Suc n) op rep s =
     andthen (string_body op (set_reg 1 (cs_regs s 1 - 1) s)) (\<lambda>s'.
       if string_break rep s' then cr_next s' else string_loop n op rep s')"

definition string_op :: "byte \<Rightarrow> rep_prefix \<Rightarrow> 'h c_state \<Rightarrow> 'h c_result" where
  "string_op op rep s =
     (if rep = rep_none then string_body op s else string_loop (unat (cs_regs s 1)) op rep s)"

section \<open>INT 21h\<close>

definition ds_dx :: "'h c_state \<Rightarrow> nat" where
  "ds_dx s = unat (cs_regs s 19) * 16 + unat (cs_regs s 2)"

definition set_host :: "'h \<Rightarrow> 'h c_state \<Rightarrow> 'h c_state" where
  "set_host h s = s\<lparr>cs_host := h\<rparr>"

definition write_fd :: "'h c_host \<Rightarrow> int \<Rightarrow> byte list \<Rightarrow> 'h c_state \<Rightarrow> 'h c_state" where
  "write_fd os fd data s = set_host (ch_write os fd data (cs_host s)) s"

text \<open>Function 0Ah: the loop over input characters; \<open>idx\<close> is a byte.\<close>

fun buffered_input ::
  "'h c_host \<Rightarrow> nat \<Rightarrow> nat \<Rightarrow> byte \<Rightarrow> byte \<Rightarrow> 'h c_state \<Rightarrow> ('h c_state \<Rightarrow> byte \<Rightarrow> 'h c_result) \<Rightarrow> 'h c_result" where
  "buffered_input os 0 base cap idx s finish = cr_out_of_fuel"
| "buffered_input os (Suc n) base cap idx s finish =
     (if idx > cap then finish s idx
      else (case ch_read os 0 1 (cs_host s) of
          (Some [ch], h) \<Rightarrow>
            if ch = 0x0a then finish (set_host h s) idx
            else andthen (store8 (base + unat idx) ch (set_host h s)) (\<lambda>s'.
                   buffered_input os n base cap (idx + 1) s' finish)
        | (_, h) \<Rightarrow> finish (set_host h s) idx))"

definition int21_input_line :: "'h c_host \<Rightarrow> nat \<Rightarrow> 'h c_state \<Rightarrow> 'h c_result" where
  "int21_input_line os n s =
     (let base = ds_dx s in
      with_value (load8 base s) (\<lambda>cap.
        buffered_input os n base cap 1 s (\<lambda>s' idx.
          andthen (store8 (base + 1) (idx - 1) s') (\<lambda>s''. cr_next (set_reg 0 (ucast idx - 1) s'')))))"

definition int21_open :: "'h c_host \<Rightarrow> 'h c_state \<Rightarrow> 'h c_result" where
  "int21_open os s =
     with_value (bytes_until 0 (ds_dx s) s) (\<lambda>name.
       let al = lo8 (cs_regs s 0)
       in if al > 2 then exit_1 s
          else (let (fd, h) = ch_open os name (if al = 0 then 0 else if al = 1 then 0x241 else 0x42) (cs_host s);
                    handle = cs_next_handle s
                in cr_next (set_reg 3 (word_of_nat handle) (set_reg 0 (word_of_nat handle)
                     (s\<lparr>cs_host := h, cs_next_handle := handle + 1,
                        cs_handles := (if handle < 16 then (cs_handles s)(handle := fd) else cs_handles s)\<rparr>)))))"

definition is_handle :: "nat \<Rightarrow> bool" where
  "is_handle h \<longleftrightarrow> 3 \<le> h \<and> h < 16"

definition guest_handle :: "'h c_state \<Rightarrow> nat" where
  "guest_handle s = unat (cs_regs s 3 AND 0xff)"

definition int21_close :: "'h c_host \<Rightarrow> 'h c_state \<Rightarrow> 'h c_result" where
  "int21_close os s =
     (let h = guest_handle s
      in if is_handle h \<and> cs_handles s h \<ge> 0
         then cr_next (s\<lparr>cs_host := ch_close os (cs_handles s h) (cs_host s), cs_handles := (cs_handles s)(h := - 1)\<rparr>)
         else cr_next s)"

definition int21_read :: "'h c_host \<Rightarrow> 'h c_state \<Rightarrow> 'h c_result" where
  "int21_read os s =
     (let h = guest_handle s; cnt = unat (cs_regs s 1); src = (if is_handle h then cs_handles s h else 0)
      in if cnt > 0 \<and> src \<ge> 0 then
           (case ch_read os src cnt (cs_host s) of
              (None, host) \<Rightarrow> cr_next (set_reg 0 0 (set_host host s))
            | (Some data, host) \<Rightarrow>
                andthen (store_bytes (ds_dx s) data (set_host host s)) (\<lambda>s'.
                  cr_next (set_reg 0 (word_of_nat (length data)) s')))
         else cr_next (set_reg 0 0 s))"

definition int21_write :: "'h c_host \<Rightarrow> 'h c_state \<Rightarrow> 'h c_result" where
  "int21_write os s =
     (let h = guest_handle s; cnt = unat (cs_regs s 1);
          dst = (if h = 1 then 1 else if h = 2 then 2 else if is_handle h then cs_handles s h else 1)
      in if cnt > 0 then with_value (bytes_at (ds_dx s) cnt s) (\<lambda>data. cr_next (write_fd os dst data s))
         else cr_next s)"

definition int21_time :: "'h c_host \<Rightarrow> bool \<Rightarrow> 'h c_state \<Rightarrow> 'h c_result" where
  "int21_time os date s =
     (let tm = ch_time os (cs_host s)
      in if date then
           cr_next (set_reg 2 0 (set_reg 0
             (push_bit 9 (word_of_int (tm_year tm + 1900 - 1980)) OR push_bit 5 (word_of_int (tm_mon tm)) OR
              word_of_int (tm_mday tm)) s))
         else
           cr_next (set_reg 2 (word_of_int (tm_sec tm)) (set_reg 0
             (push_bit 8 (word_of_int (tm_hour tm)) OR word_of_int (tm_min tm)) s)))"

definition int21_chdir :: "'h c_host \<Rightarrow> 'h c_state \<Rightarrow> 'h c_result" where
  "int21_chdir os s =
     with_value (bytes_until 0 (ds_dx s) s) (\<lambda>name.
       let (ok, h) = ch_chdir os (take 259 name) (cs_host s)
       in cr_next (set_reg 0 (if ok then 0 else 5) (set_host h s)))"

definition int21_getcwd :: "'h c_host \<Rightarrow> 'h c_state \<Rightarrow> 'h c_result" where
  "int21_getcwd os s =
     (case ch_getcwd os (cs_host s) of
        None \<Rightarrow> cr_next (set_reg 0 5 s)
      | Some path \<Rightarrow>
          if length path < 259 then
            andthen (store_bytes (unat (cs_regs s 2)) path s) (\<lambda>s'. cr_next (set_reg 0 0 s'))
          else cr_next (set_reg 0 5 s))"

definition int21_allocate :: "'h c_state \<Rightarrow> 'h c_result" where
  "int21_allocate s =
     (let want = cs_regs s 3
      in if want = 0 then cr_next (set_reg 3 0xffff (set_reg 0 7 s))
         else cr_next ((set_reg 3 want (set_reg 2 0 (set_reg 0 (cs_next_seg s) s)))
                \<lparr>cs_next_seg := cs_next_seg s + want\<rparr>))"

definition rt_int21 :: "'h c_host \<Rightarrow> nat \<Rightarrow> 'h c_state \<Rightarrow> 'h c_result" where
  "rt_int21 os n s =
     (let ax = cs_regs s 0; ah = hi8 ax
      in if ah = 0x4c then cr_exit (lo8 ax) s
         else if ah = 0x02 then cr_next (write_fd os 1 [lo8 (cs_regs s 2)] s)
         else if ah = 0x09 then with_value (bytes_until 0x24 (ds_dx s) s) (\<lambda>text. cr_next (write_fd os 1 text s))
         else if ah = 0x01 then
           (case ch_read os 0 1 (cs_host s) of
              (Some [ch], h) \<Rightarrow> cr_next (set_reg 0 ((ax AND 0xff00) OR ucast ch) (set_host h s))
            | (_, h) \<Rightarrow> exit_1 (set_host h s))
         else if ah = 0x0a then int21_input_line os n s
         else if ah = 0x3d then int21_open os s
         else if ah = 0x3e then int21_close os s
         else if ah = 0x3f then int21_read os s
         else if ah = 0x40 then int21_write os s
         else if ah = 0x2a then int21_time os True s
         else if ah = 0x2c then int21_time os False s
         else if ah = 0x3b then int21_chdir os s
         else if ah = 0x47 then int21_getcwd os s
         else if ah = 0x48 then int21_allocate s
         else if ah = 0x49 then cr_next (set_reg 3 0 (set_reg 0 0 s))
         else if ah = 0x4a then cr_next (set_reg 0 0 s)
         else if ah = 0x19 then cr_next (set_reg 0 (ax AND 0xff00) s)
         else if ah = 0x0e then cr_next (set_reg 0 ((ax AND 0xff00) OR 3) s)
         else exit_1 s)"

section \<open>INT 10h and INT 16h\<close>

fun write_repeatedly :: "'h c_host \<Rightarrow> nat \<Rightarrow> byte \<Rightarrow> 'h c_state \<Rightarrow> 'h c_state" where
  "write_repeatedly os 0 ch s = s"
| "write_repeatedly os (Suc n) ch s = write_repeatedly os n ch (write_fd os 1 [ch] s)"

definition rt_int10 :: "'h c_host \<Rightarrow> 'h c_state \<Rightarrow> 'h c_result" where
  "rt_int10 os s =
     (let ax = cs_regs s 0; ah = hi8 ax; al = lo8 ax
      in if ah = 0x0e then cr_next (write_fd os 1 [al] s)
         else if ah = 0x09 \<or> ah = 0x0a then cr_next (write_repeatedly os (unat (cs_regs s 1)) al s)
         else if ah = 0x02 \<or> ah = 0x00 then cr_next s
         else if ah = 0x0c \<or> ah = 0x0d then cr_next (set_reg 0 (ax AND 0xff00) s)
         else exit_1 s)"

text \<open>The read is repeated while it reports an error.\<close>

fun read_key :: "'h c_host \<Rightarrow> nat \<Rightarrow> 'h c_state \<Rightarrow> 'h c_result" where
  "read_key os 0 s = cr_out_of_fuel"
| "read_key os (Suc n) s =
     (case ch_read os 0 1 (cs_host s) of
        (None, h) \<Rightarrow> read_key os n (set_host h s)
      | (Some data, h) \<Rightarrow>
          (let ch = (case data of [] \<Rightarrow> 0 | c # _ \<Rightarrow> ucast c)
           in cr_next (set_reg 2 ch (set_reg 0 ch (set_host h s)))))"

definition rt_int16 :: "'h c_host \<Rightarrow> nat \<Rightarrow> 'h c_state \<Rightarrow> 'h c_result" where
  "rt_int16 os n s =
     (let ah = hi8 (cs_regs s 0)
      in if ah = 0x00 \<or> ah = 0x10 \<or> ah = 0x01 \<or> ah = 0x11 then read_key os n s else exit_1 s)"

section \<open>Statements and programs\<close>

text \<open>
  One statement, given how to call a block and how to dispatch to an address; \<open>n\<close> bounds the loops that
  wait for input.
\<close>

definition exec_stmt ::
  "'h c_host \<Rightarrow> nat \<Rightarrow> (nat \<Rightarrow> 'h c_state \<Rightarrow> 'h c_result) \<Rightarrow> (nat \<Rightarrow> 'h c_state \<Rightarrow> 'h c_result) \<Rightarrow>
     c_stmt \<Rightarrow> 'h c_state \<Rightarrow> 'h c_result" where
  "exec_stmt os n call dispatch stmt s =
     (case stmt of
        cs_set_byte i shift v \<Rightarrow> with_value (value_of v s) (\<lambda>v. cr_next (set_reg i (set_byte shift v (cs_regs s i)) s))
      | cs_set_word i v \<Rightarrow> with_value (value_of v s) (\<lambda>v. cr_next (set_reg i v s))
      | cs_store is_byte a v \<Rightarrow>
          with_value (value_of v s) (\<lambda>v. with_value (address_value a s) (\<lambda>a.
            if is_byte then store8 a (lo8 v) s else store16 a v s))
      | cs_compare a b is_byte \<Rightarrow>
          with_value (value_of a s) (\<lambda>a. with_value (value_of b s) (\<lambda>b.
            cr_next (update_flags_cmp a b is_byte s)))
      | cs_update i alu v \<Rightarrow> with_value (update_value alu (cs_regs s i) v) (\<lambda>r. cr_next (set_reg i r s))
      | cs_string op rep \<Rightarrow> string_op op rep s
      | cs_comment \<Rightarrow> cr_next s
      | cs_exit_1 \<Rightarrow> exit_1 s
      | cs_int21 \<Rightarrow> rt_int21 os n s
      | cs_int10 \<Rightarrow> rt_int10 os s
      | cs_int16 \<Rightarrow> rt_int16 os n s
      | cs_block l \<Rightarrow> call l s
      | cs_branch c l r \<Rightarrow> call (if branch_taken c s then l else r) s
      | cs_dispatch v \<Rightarrow> with_value (value_of v s) (\<lambda>v. dispatch (unat v) s)
      | cs_return \<Rightarrow>
          (if cs_call_sp s = 0 then cr_exit (lo8 (cs_regs s 0)) s
           else andthen (dispatch (unat (cs_call_stack s (cs_call_sp s - 1))) (s\<lparr>cs_call_sp := cs_call_sp s - 1\<rparr>))
                  cr_return)
      | cs_push_return a \<Rightarrow>
          (if cs_call_sp s < 256
           then cr_next (s\<lparr>cs_call_stack := (cs_call_stack s)(cs_call_sp s := word_of_nat a),
                           cs_call_sp := cs_call_sp s + 1\<rparr>)
           else cr_undefined)
      | cs_clear_direction \<Rightarrow> cr_next (s\<lparr>cs_flags := cs_flags s AND NOT 0x400\<rparr>)
      | cs_set_direction \<Rightarrow> cr_next (s\<lparr>cs_flags := cs_flags s OR 0x400\<rparr>))"

fun exec_stmts ::
  "(c_stmt \<Rightarrow> 'h c_state \<Rightarrow> 'h c_result) \<Rightarrow> c_stmt list \<Rightarrow> 'h c_state \<Rightarrow> 'h c_result" where
  "exec_stmts exec [] s = cr_next s"
| "exec_stmts exec (stmt # stmts) s = andthen (exec stmt s) (exec_stmts exec stmts)"

text \<open>\<open>do body while (condition)\<close>.\<close>

fun exec_loop ::
  "nat \<Rightarrow> ('h c_state \<Rightarrow> 'h c_result) \<Rightarrow> branch_condition option \<Rightarrow> 'h c_state \<Rightarrow> 'h c_result" where
  "exec_loop 0 body c s = cr_out_of_fuel"
| "exec_loop (Suc n) body c s =
     andthen (body s) (\<lambda>s'. if branch_taken c s' then exec_loop n body c s' else cr_next s')"

text \<open>A block returns to its caller at its end and at a \<open>return\<close>.\<close>

fun returned :: "'h c_result \<Rightarrow> 'h c_result" where
  "returned (cr_return s) = cr_next s"
| "returned r = r"

definition block_at :: "c_program \<Rightarrow> nat \<Rightarrow> c_block option" where
  "block_at prog l = find (\<lambda>b. cb_label b = l) (cp_blocks prog)"

fun run_block :: "'h c_host \<Rightarrow> c_program \<Rightarrow> nat \<Rightarrow> nat \<Rightarrow> 'h c_state \<Rightarrow> 'h c_result" where
  "run_block os prog 0 l s = cr_out_of_fuel"
| "run_block os prog (Suc n) l s =
     (case block_at prog l of
        None \<Rightarrow> cr_undefined
      | Some b \<Rightarrow>
          (let dispatch = (\<lambda>a s. if a \<in> set (cp_dispatch prog) then run_block os prog n a s else exit_1 s);
               body = exec_stmts (exec_stmt os n (run_block os prog n) dispatch) (cb_body b)
           in returned (case cb_loop b of None \<Rightarrow> body s | Some c \<Rightarrow> exec_loop n body c s)))"

definition relocate_mem :: "u16 \<Rightarrow> nat \<Rightarrow> 'h c_state \<Rightarrow> 'h c_result" where
  "relocate_mem segment a s = with_value (load16 a s) (\<lambda>cur. store16 a (cur + segment) s)"

fun relocate_mems :: "u16 \<Rightarrow> nat list \<Rightarrow> 'h c_state \<Rightarrow> 'h c_result" where
  "relocate_mems segment [] s = cr_next s"
| "relocate_mems segment (a # rest) s = andthen (relocate_mem segment a s) (relocate_mems segment rest)"

definition set_regs :: "(nat \<times> u16) list \<Rightarrow> 'h c_state \<Rightarrow> 'h c_state" where
  "set_regs assignments s = foldl (\<lambda>s (i, v). set_reg i v s) s assignments"

definition load_main :: "c_main \<Rightarrow> 'h c_state \<Rightarrow> 'h c_result" where
  "load_main m s =
     andthen (store_bytes (cm_base m) (cm_image m) s) (\<lambda>s1.
     andthen (relocate_mems (cm_load_segment m) (cm_relocations m) s1) (\<lambda>s2.
       cr_next (set_regs (cm_registers m) s2)))"

text \<open>\<open>main\<close> ends the program with 0 when the entry block returns.\<close>

definition run_c_program :: "'h c_host \<Rightarrow> nat \<Rightarrow> c_program \<Rightarrow> 'h \<Rightarrow> 'h c_result" where
  "run_c_program os n prog h =
     andthen (load_main (cp_main prog) (c_init h)) (\<lambda>s.
     andthen (run_block os prog n (cm_entry (cp_main prog)) s) (cr_exit 0))"

end
