(* ===== verification/BranchingFacts.thy ===== *)
theory BranchingFacts
  imports BranchingRun TranslatorFacts
begin

text \<open>
  Properties of the programs that \<open>branching_compiler\<close> prints: the conditions after a comparison, moves
  and arithmetic on registers against the architecture's register file, memory operands, the loader in
  \<open>main\<close>, string operations and line input.
\<close>

section \<open>Conditions after a comparison\<close>

lemma flag_after_compare:
  "flag 0x40 (update_flags_cmp a b False s) \<longleftrightarrow> a = b"
  "flag 0x8000 (update_flags_cmp a b False s) \<longleftrightarrow> sint (a - b) < 0"
  "flag 0x1 (update_flags_cmp a b False s) \<longleftrightarrow> unat a < unat b"
  unfolding and_sign_bit [symmetric]
  by (simp_all add: flag_def update_flags_cmp_def Let_def word_less_nat_alt bit.conj_disj_distrib2)

text \<open>The difference of two signed numbers leaves their range.\<close>

definition overflows :: "u16 \<Rightarrow> u16 \<Rightarrow> bool" where
  "overflows a b \<longleftrightarrow> sint a - sint b < - 32768 \<or> 32768 \<le> sint a - sint b"

text \<open>When the printed condition is the one of the 8086.\<close>

definition condition_sound :: "branch_condition \<Rightarrow> u16 \<Rightarrow> u16 \<Rightarrow> bool" where
  "condition_sound c a b \<longleftrightarrow>
     (if c = c_less \<or> c = c_greater_or_equal then a \<noteq> b \<and> \<not> overflows a b
      else if c = c_less_or_equal \<or> c = c_greater then \<not> overflows a b
      else if c = c_overflow \<or> c = c_not_overflow then (sint (a - b) < 0 \<longleftrightarrow> overflows a b)
      else True)"

lemma negative_difference: "sint (a - b :: u16) < 0 \<longleftrightarrow> (sint a < sint b) \<noteq> overflows a b"
  using sint_diff_cases [of a b] sint_u16_bounds [of a] sint_u16_bounds [of b]
  by (auto simp: overflows_def split: if_split_asm)

lemma condition_after_compare:
  assumes "compares c a b = Some t"
  shows "branch_taken (emit_conditional c) (update_flags_cmp a b False s) = t \<longleftrightarrow> condition_sound c a b"
proof -
  have o: "\<not> overflows a a" by (simp add: overflows_def)
  have u: "unat a = unat b \<longleftrightarrow> a = b" by (simp add: word_unat_eq_iff)
  have ov: "sint a - sint b < - 32768 \<or> 32768 \<le> sint a - sint b \<longleftrightarrow> overflows a b"
    by (simp add: overflows_def)
  have n: "0 \<le> sint (a - b) \<longleftrightarrow> (sint a < sint b) = overflows a b"
    using negative_difference [of a b] by linarith
  show ?thesis
    using assms sint_eq_iff [of a b] u o ov
    by (cases c)
      (auto simp: branch_taken_def emit_conditional_def flag_after_compare condition_sound_def
        negative_difference n)
qed

section \<open>Registers\<close>

text \<open>The guest's registers in the array of the program: the word registers; the byte names are unused.\<close>

definition is_word_register :: "register_name \<Rightarrow> bool" where
  "is_word_register r \<longleftrightarrow> 8 \<le> register_number r"

definition guest :: "'h c_state \<Rightarrow> register_values" where
  "guest s = (\<lambda>r. if is_word_register r then cs_regs s (word_reg_index r) else 0)"

text \<open>The architecture's write, by name: a byte register is a half of its word register.\<close>

definition name_write :: "register_name \<Rightarrow> u16 \<Rightarrow> register_values \<Rightarrow> register_values" where
  "name_write r v f =
     (if is_word_register r then f(r := v)
      else (let (shift, word) = byte_reg_locus r
        in f(word := (if shift = 0 then set_low (f word) v else set_high (f word) v))))"

lemma word_reg_index_inj:
  "is_word_register r \<Longrightarrow> is_word_register q \<Longrightarrow> word_reg_index r = word_reg_index q \<longleftrightarrow> r = q"
  by (cases r; cases q) (simp_all add: is_word_register_def word_reg_index_def)

lemma guest_set_reg:
  "is_word_register r \<Longrightarrow> guest (set_reg (word_reg_index r) v s) = (guest s)(r := v)"
  by (auto simp: guest_def set_reg_def fun_eq_iff word_reg_index_inj)

lemma byte_reg_locus_word: "byte_reg_locus r = (shift, w) \<Longrightarrow> \<not> is_word_register r \<Longrightarrow> is_word_register w \<and> (shift = 0 \<or> shift = 8)"
  by (cases r) (auto simp: is_word_register_def)

lemma set_byte_halves:
  "set_byte 0 (ucast b) w = le16 b (hi8 w)" "set_byte 8 (ucast b) w = le16 (lo8 w) b"
proof -
  have m: "(0xff :: u16) = mask 8" by (simp add: mask_eq_exp_minus_1)
  show "set_byte 0 (ucast b) w = le16 b (hi8 w)" "set_byte 8 (ucast b) w = le16 (lo8 w) b"
    unfolding set_byte_def m
    by (rule bit_word_eqI; auto simp: le16_def hi8_def lo8_def bit_simps not_less dest: bit_imp_le_length)+
qed

text \<open>Values that fit the register they go to.\<close>

lemma guest_set_byte:
  assumes "\<not> is_word_register r" and "byte_reg_locus r = (shift, w)"
  shows "guest (set_reg (word_reg_index w) (set_byte shift (ucast (b :: byte)) (cs_regs s (word_reg_index w))) s) =
    name_write r (ucast b) (guest s)"
proof -
  have w: "is_word_register w" "shift = 0 \<or> shift = 8"
    using byte_reg_locus_word [OF assms(2,1)] by simp_all
  have "guest s w = cs_regs s (word_reg_index w)" using w(1) by (simp add: guest_def)
  moreover have "lo8 (ucast b) = b" by (rule bit_word_eqI) (simp add: lo8_def bit_simps)
  ultimately show ?thesis
    using assms w by (auto simp: guest_set_reg name_write_def set_byte_halves set_low_def set_high_def)
qed

lemma byte_access_value:
  assumes "\<not> is_word_register r"
  shows "value_of (byte_reg_access r) s = Some (arch_read (guest s) r)"
  using assms
  by (cases r) (simp_all add: byte_reg_access_def guest_def is_word_register_def lo8_def hi8_def)

lemma arch_read_word: "is_word_register r \<Longrightarrow> arch_read f r = f r"
  by (cases r) (simp_all add: is_word_register_def)

lemma arch_read_byte: "\<not> is_word_register r \<Longrightarrow> \<exists>b :: byte. arch_read f r = ucast b"
  by (cases r) (auto simp: is_word_register_def)

text \<open>Everything but the registers and the flags.\<close>

definition same_rest :: "'h c_state \<Rightarrow> 'h c_state \<Rightarrow> bool" where
  "same_rest s t \<longleftrightarrow> t\<lparr>cs_regs := cs_regs s, cs_flags := cs_flags s\<rparr> = s"

lemma same_rest_simps [simp]:
  "same_rest s s" "same_rest s (set_reg i v s)" "same_rest s (update_flags_cmp a b is_byte s)"
  "same_rest s (update_flags_cmp a b is_byte (set_reg i v s))"
  by (simp_all add: same_rest_def set_reg_def update_flags_cmp_def)

lemma update_flags_other [simp]: "cs_regs (update_flags_cmp a b is_byte s) = cs_regs s"
  by (simp add: update_flags_cmp_def)

lemma guest_update_flags [simp]: "guest (update_flags_cmp a b is_byte s) = guest s"
  by (simp add: guest_def fun_eq_iff)

text \<open>
  What the 8086 does to its registers: moves between registers of one width and from immediates, and
  the logic and arithmetic on a word register with an immediate. \<open>None\<close> for everything else.
\<close>

definition alu_result :: "alu_operation \<Rightarrow> u16 \<Rightarrow> u16 \<Rightarrow> u16 option" where
  "alu_result alu x y =
     (if alu = a_add then Some (x + y) else if alu = a_subtract then Some (x - y)
      else if alu = a_and then Some (x AND y) else if alu = a_or then Some (x OR y)
      else if alu = a_xor then Some (x XOR y) else None)"

definition right_width :: "operand \<Rightarrow> bool" where
  "right_width op \<longleftrightarrow> (is_word_register (op_reg op) \<longleftrightarrow> op_width op = w_word)"

definition register_step :: "instruction \<Rightarrow> register_values \<Rightarrow> register_values option" where
  "register_step i f =
     (let dst = fst (ins_operands i); src = snd (ins_operands i)
      in if op_kind dst \<noteq> o_reg \<or> \<not> right_width dst then None
         else if ins_kind i = k_move_immediate \<and> op_kind src = o_immediate then
           Some (name_write (op_reg dst)
             (if op_width dst = w_byte then op_immediate src AND 0xff else op_immediate src) f)
         else if ins_kind i = k_move \<and> op_kind src = o_reg \<and> op_width src = op_width dst \<and> right_width src then
           Some (name_write (op_reg dst) (arch_read f (op_reg src)) f)
         else if ins_kind i = k_arithmetic \<and> op_kind src = o_immediate \<and> op_width dst = w_word then
           map_option (\<lambda>v. name_write (op_reg dst) v f)
             (alu_result (ins_alu i) (f (op_reg dst)) (op_immediate src))
         else None)"

lemma and_ff_byte: "(v :: u16) AND 0xff = ucast (lo8 v)"
proof -
  have m: "(0xff :: u16) = mask 8" by (simp add: mask_eq_exp_minus_1)
  show ?thesis unfolding m by (rule bit_word_eqI) (auto simp: lo8_def bit_simps)
qed

lemma exec_byte_store:
  assumes "\<not> is_word_register r" and "value_of v s = Some (ucast (b :: byte))"
  shows "\<exists>s'. exec_stmt os n call dispatch (byte_reg_store r v) s = cr_next s' \<and> same_rest s s' \<and>
    guest s' = name_write r (ucast b) (guest s)"
proof -
  obtain shift w where l: "byte_reg_locus r = (shift, w)" by fastforce
  then show ?thesis
    using assms guest_set_byte [OF assms(1) l, of b s]
    by (simp add: exec_stmt_def byte_reg_store_def with_value_def)
qed

lemma exec_word_set:
  assumes "is_word_register r" and "value_of v s = Some x"
  shows "\<exists>s'. exec_stmt os n call dispatch (cs_set_word (word_reg_index r) v) s = cr_next s' \<and> same_rest s s' \<and>
    guest s' = name_write r x (guest s)"
  using assms by (simp add: exec_stmt_def with_value_def guest_set_reg name_write_def)

lemma exec_stmts_single [simp]: "exec_stmts exec [stmt] s = exec stmt s"
  by (cases "exec stmt s") simp_all

declare exec_stmts.simps(2) [simp del]

lemma register_step_emitted:
  assumes "register_step i (guest s) = Some f"
  shows "\<exists>s'. exec_stmts (exec_stmt os n call dispatch) (emit_plain code position i) s = cr_next s' \<and>
    same_rest s s' \<and> guest s' = f"
proof -
  let ?dst = "fst (ins_operands i)" and ?src = "snd (ins_operands i)"
  have dst: "op_kind ?dst = o_reg" "right_width ?dst"
    using assms by (auto simp: register_step_def Let_def split: if_split_asm)
  have "ins_kind i = k_move_immediate \<or> ins_kind i = k_move \<or> ins_kind i = k_arithmetic"
    using assms by (auto simp: register_step_def Let_def split: if_split_asm)
  then consider (immediate) "ins_kind i = k_move_immediate" | (move) "ins_kind i = k_move"
    | (arithmetic) "ins_kind i = k_arithmetic" by blast
  then show ?thesis
  proof cases
    case immediate
    have f: "f = name_write (op_reg ?dst)
        (if op_width ?dst = w_byte then op_immediate ?src AND 0xff else op_immediate ?src) (guest s)"
      using assms immediate dst by (simp add: register_step_def Let_def split: if_split_asm)
    show ?thesis
    proof (cases "op_width ?dst")
      case w_byte
      with dst have "\<not> is_word_register (op_reg ?dst)" by (simp add: right_width_def)
      from exec_byte_store [OF this, of "cv_const (op_immediate ?src AND 0xff)" s "lo8 (op_immediate ?src)"]
      show ?thesis using w_byte immediate f by (simp add: emit_plain_def emit_move_immediate_def Let_def and_ff_byte)
    next
      case w_word
      with dst have "is_word_register (op_reg ?dst)" by (simp add: right_width_def)
      from exec_word_set [OF this, of "cv_const (op_immediate ?src)" s]
      show ?thesis using w_word immediate f by (simp add: emit_plain_def emit_move_immediate_def Let_def)
    qed
  next
    case move
    have src: "op_kind ?src = o_reg" "op_width ?src = op_width ?dst" "right_width ?src"
      and f: "f = name_write (op_reg ?dst) (arch_read (guest s) (op_reg ?src)) (guest s)"
      using assms move dst by (auto simp: register_step_def Let_def split: if_split_asm)
    show ?thesis
    proof (cases "op_width ?dst")
      case w_byte
      with dst src have b: "\<not> is_word_register (op_reg ?dst)" "\<not> is_word_register (op_reg ?src)"
        by (simp_all add: right_width_def)
      obtain v :: byte where v: "arch_read (guest s) (op_reg ?src) = ucast v"
        using arch_read_byte [OF b(2)] by blast
      from exec_byte_store [OF b(1), of "byte_reg_access (op_reg ?src)" s v] byte_access_value [OF b(2), of s]
      show ?thesis using w_byte move f v dst src by (simp add: emit_plain_def emit_move_def Let_def)
    next
      case w_word
      with dst src have w: "is_word_register (op_reg ?dst)" "is_word_register (op_reg ?src)"
        by (simp_all add: right_width_def)
      have "value_of (cv_word (word_reg_index (op_reg ?src))) s = Some (arch_read (guest s) (op_reg ?src))"
        using w(2) by (simp add: arch_read_word guest_def)
      from exec_word_set [OF w(1) this]
      show ?thesis using w_word move f dst src by (simp add: emit_plain_def emit_move_def Let_def)
    qed
  next
    case arithmetic
    then obtain x where src: "op_kind ?src = o_immediate" "op_width ?dst = w_word"
      and x: "alu_result (ins_alu i) (guest s (op_reg ?dst)) (op_immediate ?src) = Some x"
      and f: "f = name_write (op_reg ?dst) x (guest s)"
      using assms dst by (auto simp: register_step_def Let_def split: if_split_asm)
    from dst src have w: "is_word_register (op_reg ?dst)" by (simp add: right_width_def)
    then have g: "guest s (op_reg ?dst) = cs_regs s (word_reg_index (op_reg ?dst))"
      by (simp add: guest_def)
    have "update_value (ins_alu i) (cs_regs s (word_reg_index (op_reg ?dst))) (op_immediate ?src) = Some x"
      and "ins_alu i \<noteq> a_compare" "ins_alu i \<noteq> a_test"
      using x g by (auto simp: alu_result_def split: if_split_asm)
    then show ?thesis
      using arithmetic f w src(2) g
      by (simp add: emit_plain_def emit_arithmetic_def Let_def exec_stmt_def with_value_def word_reg_access_def
          guest_set_reg name_write_def exec_stmts.simps(2))
  qed
qed

section \<open>Memory operands\<close>

text \<open>The sum of displacement and registers that the printed address adds to the segment.\<close>

definition address_sum :: "operand \<Rightarrow> 'h c_state \<Rightarrow> int" where
  "address_sum mem s = sint (op_displacement mem) +
     (\<Sum>r\<leftarrow>map word_reg_index (used_address_registers mem). int (unat (cs_regs s r)))"

definition address_segment :: "operand \<Rightarrow> 'h c_state \<Rightarrow> u16" where
  "address_segment mem s = cs_regs s (if R_bp \<in> set (used_address_registers mem) then 10 else 11)"

lemma emit_mem_addr_value:
  assumes "op_kind mem = o_memory" and "0 \<le> address_sum mem s" and "address_sum mem s < 0x10000"
  shows "address_value (emit_mem_addr mem) s =
    Some (unat (address_segment mem s) * 16 + nat (address_sum mem s))"
proof -
  let ?seg = "address_segment mem s"
  have seg: "0 \<le> uint ?seg" "uint ?seg < 65536" using unsigned_less [of ?seg, where ?'a = int] by simp_all
  have "address_value (emit_mem_addr mem) s =
      Some (nat ((int (unat ?seg) * 16 + address_sum mem s) mod 2 ^ 32))"
    using assms(1)
    by (simp add: emit_mem_addr_def address_sum_def address_segment_def Let_def add.assoc)
  moreover have "(int (unat ?seg) * 16 + address_sum mem s) mod 2 ^ 32 = int (unat ?seg) * 16 + address_sum mem s"
    using assms seg by (intro mod_pos_pos_trivial; simp; linarith)
  ultimately show ?thesis using assms(2) by (simp add: nat_add_distrib nat_mult_distrib)
qed

lemma sum_list_guest:
  assumes "\<forall>r \<in> set rs. is_word_register r"
  shows "word_of_int (d + (\<Sum>r\<leftarrow>map word_reg_index rs. int (unat (cs_regs s r)))) =
    foldl (\<lambda>a r. a + guest s r) (word_of_int d) rs"
  using assms
proof (induction rs arbitrary: d)
  case (Cons r rs)
  have "word_of_int (d + int (unat (cs_regs s (word_reg_index r)))) =
      (word_of_int d + guest s r :: u16)"
    using Cons.prems by (simp add: guest_def)
  with Cons.IH [of "d + int (unat (cs_regs s (word_reg_index r)))"] Cons.prems show ?case
    by (simp add: add.assoc)
qed simp

lemma add_address_registers_fold:
  assumes "op_address_register_count mem \<le> 2"
  shows "add_address_registers mem f [0..<op_address_register_count mem] offset =
    Inr (foldl (\<lambda>a r. a + f r) offset (used_address_registers mem))"
proof -
  have "op_address_register_count mem = 0 \<or> op_address_register_count mem = 1 \<or> op_address_register_count mem = 2"
    using assms by linarith
  moreover have "[0..<1] = [0 :: nat]" "[0..<2] = [0, 1 :: nat]" by (simp_all add: numeral_2_eq_2)
  ultimately show ?thesis
    by (elim disjE) (simp_all add: used_address_registers_def address_register_def numeral_2_eq_2)
qed

text \<open>So without a carry out of 16 bits the printed address is the one the resolver computes.\<close>

lemma emit_mem_addr_effective:
  assumes mem: "op_kind mem = o_memory" "op_address_register_count mem \<le> 2"
    and direct: "op_direct_address mem \<Longrightarrow> op_address_register_count mem = 0"
    and word: "\<forall>r \<in> set (used_address_registers mem). is_word_register r"
    and sum: "0 \<le> address_sum mem s" "address_sum mem s < 0x10000"
  shows "\<exists>ea. effective_address mem (guest s) = Inr ea \<and>
    address_value (emit_mem_addr mem) s = Some (unat (address_segment mem s) * 16 + unat ea)"
proof -
  let ?ea = "word_of_int (address_sum mem s) :: u16"
  have "effective_address mem (guest s) = Inr ?ea"
    using mem direct sum_list_guest [OF word, of "sint (op_displacement mem)" s]
    by (cases "op_direct_address mem")
      (simp_all add: effective_address_def add_address_registers_fold address_sum_def used_address_registers_def)
  moreover have "unat ?ea = nat (address_sum mem s)"
    using sum by (simp add: unat_eq_nat_uint uint_word_of_int)
  ultimately show ?thesis using emit_mem_addr_value [OF mem(1) sum] by simp
qed

end
