(* ===== verification/BranchingPrograms.thy ===== *)
theory BranchingPrograms
  imports BranchingFacts StraightPrograms
begin

text \<open>
  Whole programs printed by \<open>branching_compiler\<close>: their labels are defined, \<open>main\<close> loads the relocated
  image, the segment that memory operands use is never set, what unsupported instructions and loops
  become, and two families of programs from image to exit.
\<close>

section \<open>Labels\<close>

fun stmt_labels :: "c_stmt \<Rightarrow> nat set" where
  "stmt_labels (cs_block l) = {l}"
| "stmt_labels (cs_branch c l r) = {l, r}"
| "stmt_labels _ = {}"

definition body_labels :: "c_stmt list \<Rightarrow> nat set" where
  "body_labels stmts = (\<Union>stmt \<in> set stmts. stmt_labels stmt)"

lemma body_labels_simps [simp]:
  "body_labels [] = {}" "body_labels (x # xs) = stmt_labels x \<union> body_labels xs"
  "body_labels (xs @ ys) = body_labels xs \<union> body_labels ys"
  by (auto simp: body_labels_def)

lemma continue_at_labels: "body_labels (continue_at code targets next) \<subseteq> set targets"
  by (simp add: continue_at_def)

lemma emit_plain_labels [simp]: "body_labels (emit_plain code position i) = {}"
  by (simp add: emit_plain_def emit_move_immediate_def emit_move_def emit_arithmetic_def byte_reg_store_def
      Let_def split: prod.split)

lemma emit_string_op_labels: "emit_string_op code i = Inr stmts \<Longrightarrow> body_labels stmts = {}"
  by (auto simp: emit_string_op_def bindE_eq_Inr split: if_split_asm)

lemma set_add_start [simp]: "set (fst (add_start n t)) = insert n (set (fst t))"
  by (simp add: add_start_def)

lemma emit_terminator_labels:
  assumes "emit_terminator code targets position i = Some (Inr stmts)"
    and "position + ins_size i \<le> length code"
  shows "body_labels stmts \<subseteq> insert (length code) (set targets) \<union> set (fst (add_targets code latest position i s))"
  using assms subsetD [OF continue_at_labels [of code targets "position + ins_size i"]]
  by (auto simp: emit_terminator_def Let_def bindE_eq_Inr add_targets_def dest: emit_string_op_labels
      split: if_split_asm)

lemma emit_block_body_labels:
  "emit_block_body code targets stop position = Inr stmts \<Longrightarrow>
     scan_start_block code latest position s = Inr s' \<Longrightarrow>
     body_labels stmts \<subseteq> insert (length code) (set targets) \<union> set (fst s')"
proof (induction code targets stop position arbitrary: s stmts rule: emit_block_body.induct)
  case (1 code targets stop position)
  show ?case
  proof (cases "position \<ge> length code \<or> stop \<noteq> 0 \<and> position = stop")
    case True
    with 1(2) show ?thesis by (simp add: emit_block_body.simps [of code targets stop position])
  next
    case False
    with 1(2) obtain i where i: "decode_at code position = Inr i"
      by (auto simp: emit_block_body.simps [of code targets stop position] bindE_eq_Inr)
    have step: "emit_block_body code targets stop position =
        (case emit_terminator code targets position i of
           Some r \<Rightarrow> r
         | None \<Rightarrow> bindE (emit_block_body code targets stop (position + ins_size i)) (\<lambda>rest.
             Inr (emit_plain code position i @ rest)))"
      by (subst emit_block_body.simps) (simp only: if_not_P [OF False] i wrapE.simps bindE.simps)
    have fits: "position + ins_size i \<le> length code" using i by (rule dec.dec_end)
    let ?s1 = "add_targets code latest position i s"
    have ends: "(if probe_ends (ins_kind i) then Inr ?s1
        else scan_start_block code latest (position + ins_size i) ?s1) = Inr s'"
      using 1(3) False i by (simp add: scan_start_block.simps [of code latest position] Let_def)
    then have grows: "set (fst ?s1) \<subseteq> set (fst s')"
      using scan_start_block_extends [of code latest "position + ins_size i" ?s1 s']
      by (auto simp: extends_starts_def split: if_split_asm)
    show ?thesis
    proof (cases "emit_terminator code targets position i")
      case (Some r)
      then have "r = Inr stmts"
        using 1(2) step by simp
      with emit_terminator_labels [of code targets position i stmts latest s] Some fits grows
      show ?thesis by auto
    next
      case None
      then obtain rest where rest: "emit_block_body code targets stop (position + ins_size i) = Inr rest"
        and stmts: "stmts = emit_plain code position i @ rest"
        using 1(2) step by (auto simp: bindE_eq_Inr)
      have "\<not> probe_ends (ins_kind i)"
        using None by (auto simp: emit_terminator_def Let_def probe_ends_def split: if_split_asm)
      with ends have "scan_start_block code latest (position + ins_size i) ?s1 = Inr s'" by simp
      from 1(1) [OF False _ None rest this] i stmts show ?thesis by simp
    qed
  qed
qed

text \<open>The set of starts at the end of the fixpoint loop.\<close>

lemma scan_starts_each:
  "scan_starts code latest starts s = Inr s' \<Longrightarrow> set (fst s') = set (fst s) \<Longrightarrow> start \<in> set starts \<Longrightarrow>
     \<exists>t t'. scan_start_block code latest start t = Inr t' \<and> set (fst t') \<subseteq> set (fst s')"
proof (induction starts arbitrary: s)
  case (Cons x xs)
  then obtain t where t: "scan_start_block code latest x s = Inr t" "scan_starts code latest xs t = Inr s'"
    by (auto simp: bindE_eq_Inr)
  have sub: "set (fst t) \<subseteq> set (fst s')" "set (fst s) \<subseteq> set (fst t)"
    using scan_starts_extends [OF t(2)] scan_start_block_extends [OF t(1)] by (auto simp: extends_starts_def)
  show ?case
  proof (cases "start = x")
    case True
    with t(1) sub(1) show ?thesis by blast
  next
    case False
    with Cons.prems sub Cons.IH [OF t(2)] show ?thesis by auto
  qed
qed simp

lemma fix_starts_fixed:
  "fix_starts code starts = Inr fixed \<Longrightarrow> set starts \<subseteq> set fixed \<and>
     (\<exists>changed. scan_starts code (last_interrupt code) fixed (fixed, False) = Inr (fixed, changed))"
proof (induction code starts rule: fix_starts.induct)
  case (1 code starts)
  then obtain starts' changed where
    s: "scan_starts code (last_interrupt code) starts (starts, False) = Inr (starts', changed)"
    by (auto simp: fix_starts.simps [of code starts] bindE_eq_Inr)
  have e: "extends_starts code (starts, False) (starts', changed)" by (rule scan_starts_extends [OF s])
  show ?case
  proof (cases changed)
    case True
    with 1 s e show ?thesis by (fastforce simp: fix_starts.simps [of code starts] extends_starts_def)
  next
    case False
    with 1(2) s have "fixed = starts'" by (simp add: fix_starts.simps [of code starts])
    moreover have "starts' = starts" using False e by (simp add: extends_starts_def)
    ultimately show ?thesis using s by auto
  qed
qed

lemma sweep_starts_more: "sweep_starts code pos starts = Inr starts' \<Longrightarrow> set starts \<subseteq> set starts'"
proof (induction code pos starts rule: sweep_starts.induct)
  case (1 code pos starts)
  then show ?case
    by (fastforce simp: sweep_starts.simps [of code pos starts] split: if_split_asm sum.split_asm failure.split_asm)
qed

lemma emit_blocks_labels: "emit_blocks code targets starts = Inr blocks \<Longrightarrow> map cb_label blocks = starts"
  by (induction starts arbitrary: blocks)
    (auto simp: bindE_eq_Inr emit_block_at_def split: option.split_asm prod.split_asm)

lemma emit_blocks_each:
  "emit_blocks code targets starts = Inr blocks \<Longrightarrow> b \<in> set blocks \<Longrightarrow>
     emit_block_at code targets (cb_label b) = Inr b"
proof (induction starts arbitrary: blocks)
  case (Cons start starts)
  then obtain block rest where "emit_block_at code targets start = Inr block"
    "emit_blocks code targets starts = Inr rest" "blocks = block # rest"
    by (auto simp: bindE_eq_Inr)
  moreover have "cb_label block = start"
    using calculation(1) by (auto simp: emit_block_at_def bindE_eq_Inr split: option.split_asm prod.split_asm)
  ultimately show ?case using Cons by auto
qed simp

lemma emit_block_at_body:
  "emit_block_at code targets start = Inr b \<Longrightarrow>
     \<exists>stop. emit_block_body code targets stop start = Inr (cb_body b)"
  by (fastforce simp: emit_block_at_def bindE_eq_Inr split: option.split_asm prod.split_asm)

text \<open>Every label that a block found by the fixpoint mentions is a block, or lies behind the last byte.\<close>

lemma emitted_labels_defined:
  assumes "emit_c_runtime img = Inr prog" and "fix_starts (img_bytes img) [entry_offset img] = Inr fixed"
    and "b \<in> set (cp_blocks prog)" and "cb_label b \<in> set fixed"
  shows "body_labels (cb_body b) \<subseteq> insert (length (img_bytes img)) (cb_label ` set (cp_blocks prog))"
proof -
  let ?code = "img_bytes img"
  obtain starts where starts: "sweep_starts ?code 0 fixed = Inr starts"
    and blocks: "emit_blocks ?code starts starts = Inr (cp_blocks prog)"
    using assms(1,2) by (auto simp: emit_c_runtime_def collect_block_starts_def bindE_eq_Inr)
  have labels: "cb_label ` set (cp_blocks prog) = set starts"
    using emit_blocks_labels [OF blocks] by (metis set_map)
  obtain changed where "scan_starts ?code (last_interrupt ?code) fixed (fixed, False) = Inr (fixed, changed)"
    using fix_starts_fixed [OF assms(2)] by blast
  from scan_starts_each [OF this _ assms(4)] obtain t t' where
    scan: "scan_start_block ?code (last_interrupt ?code) (cb_label b) t = Inr t'" "set (fst t') \<subseteq> set fixed"
    by auto
  obtain stop where "emit_block_body ?code starts stop (cb_label b) = Inr (cb_body b)"
    using emit_block_at_body [OF emit_blocks_each [OF blocks assms(3)]] by blast
  from emit_block_body_labels [OF this scan(1)] scan(2) sweep_starts_more [OF starts] labels
  show ?thesis by auto
qed

section \<open>Loading\<close>

text \<open>The image in the program's memory.\<close>

definition holds_bytes :: "nat \<Rightarrow> byte list \<Rightarrow> 'h c_state \<Rightarrow> bool" where
  "holds_bytes base bytes s \<longleftrightarrow> base + length bytes \<le> mem_size \<and> (\<forall>k < length bytes. cs_mem s (base + k) = bytes ! k)"

lemma store_bytes_holds:
  "base + length bytes \<le> mem_size \<Longrightarrow>
     \<exists>s'. store_bytes base bytes s = cr_next s' \<and> holds_bytes base bytes s' \<and> cs_regs s' = cs_regs s \<and>
       cs_host s' = cs_host s \<and> cs_call_sp s' = cs_call_sp s"
  by (simp add: store_bytes_def holds_bytes_def)

lemma relocate_mem_holds:
  assumes "holds_bytes base bytes s" and "Suc p < length bytes"
  shows "\<exists>s'. relocate_mem segment (base + p) s = cr_next s' \<and> holds_bytes base (relocated segment bytes p) s' \<and>
    cs_regs s' = cs_regs s \<and> cs_host s' = cs_host s \<and> cs_call_sp s' = cs_call_sp s"
proof -
  have inside: "base + p < mem_size" "base + p + 1 < mem_size"
    using assms by (auto simp: holds_bytes_def)
  have here: "cs_mem s (base + p) = bytes ! p" "cs_mem s (Suc (base + p)) = bytes ! Suc p"
    using assms unfolding holds_bytes_def by (metis Suc_lessD add_Suc_right)+
  let ?v = "le16 (bytes ! p) (bytes ! Suc p) + segment"
  let ?s' = "s\<lparr>cs_mem := (cs_mem s)(base + p := lo8 ?v, base + p + 1 := hi8 ?v)\<rparr>"
  have "relocate_mem segment (base + p) s = cr_next ?s'"
    using inside here by (simp add: relocate_mem_def load16_def load8_def with_value_def store16_def store8_def)
  moreover have "holds_bytes base (relocated segment bytes p) ?s'"
    using assms by (auto simp: holds_bytes_def relocated_def Let_def nth_list_update)
  ultimately show ?thesis by simp
qed

lemma relocate_mems_hold:
  assumes "holds_bytes base bytes s" and "\<forall>p \<in> set ps. Suc p < length bytes"
  shows "\<exists>s'. relocate_mems segment (map (\<lambda>p. p + base) ps) s = cr_next s' \<and>
    holds_bytes base (relocated_all segment bytes ps) s' \<and> cs_regs s' = cs_regs s \<and> cs_host s' = cs_host s \<and>
    cs_call_sp s' = cs_call_sp s"
  using assms
proof (induction ps arbitrary: bytes s)
  case (Cons p ps)
  then obtain s1 where s1: "relocate_mem segment (base + p) s = cr_next s1"
    "holds_bytes base (relocated segment bytes p) s1" "cs_regs s1 = cs_regs s" "cs_host s1 = cs_host s"
    "cs_call_sp s1 = cs_call_sp s"
    using relocate_mem_holds [of base bytes s p segment] by auto
  from Cons.IH [OF s1(2)] Cons.prems(2) s1 show ?case by (auto simp: add.commute)
qed simp

lemma set_regs_other [simp]:
  "cs_mem (set_regs as s) = cs_mem s" "cs_host (set_regs as s) = cs_host s" "cs_call_sp (set_regs as s) = cs_call_sp s"
  by (induction as arbitrary: s) (auto simp: set_regs_def set_reg_def)

lemma set_regs_regs: "cs_regs (set_regs as s) = foldl (\<lambda>f (i, v). f(i := v)) (cs_regs s) as"
  by (induction as arbitrary: s) (auto simp: set_regs_def set_reg_def)

text \<open>
  Without relocations \<open>relocate_mems\<close> does nothing; the loader of an image leaves the relocated bytes at
  the base, or runs out of the array.
\<close>

lemma load_main_holds:
  assumes "cm_relocations m = map (\<lambda>p. p + cm_base m) ps" and "\<forall>p \<in> set ps. Suc p < length (cm_image m)"
    and "cm_base m + length (cm_image m) \<le> mem_size"
  shows "\<exists>s'. load_main m s = cr_next s' \<and>
    holds_bytes (cm_base m) (relocated_all (cm_load_segment m) (cm_image m) ps) s' \<and>
    cs_regs s' = foldl (\<lambda>f (i, v). f(i := v)) (cs_regs s) (cm_registers m) \<and> cs_host s' = cs_host s \<and>
    cs_call_sp s' = cs_call_sp s"
proof -
  obtain s1 where s1: "store_bytes (cm_base m) (cm_image m) s = cr_next s1"
    "holds_bytes (cm_base m) (cm_image m) s1" "cs_regs s1 = cs_regs s" "cs_host s1 = cs_host s"
    "cs_call_sp s1 = cs_call_sp s"
    using store_bytes_holds [OF assms(3), of s] by blast
  obtain s2 where "relocate_mems (cm_load_segment m) (map (\<lambda>p. p + cm_base m) ps) s1 = cr_next s2"
    "holds_bytes (cm_base m) (relocated_all (cm_load_segment m) (cm_image m) ps) s2" "cs_regs s2 = cs_regs s1"
    "cs_host s2 = cs_host s1" "cs_call_sp s2 = cs_call_sp s1"
    using relocate_mems_hold [OF s1(2) assms(2)] by blast
  with s1 assms(1) show ?thesis
    by (simp add: load_main_def set_regs_regs holds_bytes_def)
qed

lemma load_main_outside:
  "mem_size < cm_base m + length (cm_image m) \<Longrightarrow> load_main m s = cr_undefined"
  by (simp add: load_main_def store_bytes_def)

lemma write_main_relocations:
  "img_format img = mz \<Longrightarrow> cm_relocations (write_main img) =
     map (\<lambda>p. p + cm_base (write_main img)) (map linear_offset (img_relocations img))"
  by (simp add: write_main_def Let_def linear_offset_def)

section \<open>The segment of memory operands\<close>

text \<open>Memory operands without BP use \<open>regs[11]\<close>; DS is kept in \<open>regs[19]\<close>. No statement assigns the former.\<close>

fun assigns :: "c_stmt \<Rightarrow> nat option" where
  "assigns (cs_set_byte i shift v) = Some i"
| "assigns (cs_set_word i v) = Some i"
| "assigns (cs_update i alu v) = Some i"
| "assigns _ = None"

definition spares_11 :: "c_stmt list \<Rightarrow> bool" where
  "spares_11 stmts \<longleftrightarrow> (\<forall>stmt \<in> set stmts. assigns stmt \<noteq> Some 11)"

lemma spares_11_simps [simp]:
  "spares_11 []" "spares_11 (x # xs) \<longleftrightarrow> assigns x \<noteq> Some 11 \<and> spares_11 xs"
  "spares_11 (xs @ ys) \<longleftrightarrow> spares_11 xs \<and> spares_11 ys"
  by (auto simp: spares_11_def)

lemma word_reg_index_not_11 [simp]: "word_reg_index r \<noteq> 11"
  by (cases r) (simp_all add: word_reg_index_def)

lemma emit_plain_spares: "spares_11 (emit_plain code position i)"
  by (auto simp: emit_plain_def emit_move_immediate_def emit_move_def emit_arithmetic_def byte_reg_store_def
      Let_def split: prod.split)

lemma emit_terminator_spares:
  "emit_terminator code targets position i = Some (Inr stmts) \<Longrightarrow> spares_11 stmts"
  by (auto simp: emit_terminator_def Let_def continue_at_def bindE_eq_Inr emit_string_op_def split: if_split_asm)

lemma emit_block_body_spares: "emit_block_body code targets stop position = Inr stmts \<Longrightarrow> spares_11 stmts"
proof (induction code targets stop position arbitrary: stmts rule: emit_block_body.induct)
  case (1 code targets stop position)
  show ?case
  proof (cases "position \<ge> length code \<or> stop \<noteq> 0 \<and> position = stop")
    case True
    with 1(2) show ?thesis by (simp add: emit_block_body.simps [of code targets stop position])
  next
    case False
    with 1(2) obtain i where i: "decode_at code position = Inr i"
      by (auto simp: emit_block_body.simps [of code targets stop position] bindE_eq_Inr)
    have "emit_block_body code targets stop position =
        (case emit_terminator code targets position i of
           Some r \<Rightarrow> r
         | None \<Rightarrow> bindE (emit_block_body code targets stop (position + ins_size i)) (\<lambda>rest.
             Inr (emit_plain code position i @ rest)))"
      by (subst emit_block_body.simps) (simp only: if_not_P [OF False] i wrapE.simps bindE.simps)
    with 1 False i show ?thesis
      by (auto simp: bindE_eq_Inr emit_plain_spares intro: emit_terminator_spares split: option.split_asm)
  qed
qed

text \<open>A result in whose state, if it has one, \<open>regs[11]\<close> is \<open>v\<close>.\<close>

fun keeps_11 :: "u16 \<Rightarrow> 'h c_result \<Rightarrow> bool" where
  "keeps_11 v (cr_next s) = (cs_regs s 11 = v)" | "keeps_11 v (cr_return s) = (cs_regs s 11 = v)"
| "keeps_11 v (cr_exit e s) = (cs_regs s 11 = v)" | "keeps_11 v _ = True"

lemma keeps_11_andthen [intro]:
  "keeps_11 v r \<Longrightarrow> (\<And>s. cs_regs s 11 = v \<Longrightarrow> keeps_11 v (f s)) \<Longrightarrow> keeps_11 v (andthen r f)"
  by (cases r) auto

lemma keeps_11_with_value [intro]: "(\<And>x. o' = Some x \<Longrightarrow> keeps_11 v (f x)) \<Longrightarrow> keeps_11 v (with_value o' f)"
  by (auto simp: with_value_def split: option.split)

lemma keeps_11_returned [simp]: "keeps_11 v (returned r) = keeps_11 v r"
  by (cases r) simp_all

lemma set_reg_regs [simp]: "cs_regs (set_reg i v s) j = (if j = i then v else cs_regs s j)"
  by (simp add: set_reg_def)

lemma small_state_simps [simp]:
  "cs_regs (set_host h s) = cs_regs s" "cs_regs (write_fd os fd data s) = cs_regs s"
  "cs_regs (step_index i d s) j = (if j = i then cs_regs s i + df_step s d else cs_regs s j)"
  by (simp_all add: set_host_def write_fd_def step_index_def)

lemma keeps_11_stores [intro]:
  assumes "cs_regs s 11 = v"
  shows "keeps_11 v (store8 a b s)" and "keeps_11 v (store16 a w s)" and "keeps_11 v (store_bytes a data s)"
  using assms by (auto simp: store16_def store8_def store_bytes_def split: if_split)

lemma string_body_keeps: "cs_regs s 11 = v \<Longrightarrow> keeps_11 v (string_body op s)"
  by (auto simp: string_body_def Let_def intro!: keeps_11_andthen keeps_11_with_value)

lemma string_loop_keeps: "cs_regs s 11 = v \<Longrightarrow> keeps_11 v (string_loop n op rep s)"
  by (induction n arbitrary: s) (auto intro!: keeps_11_andthen string_body_keeps)

lemma string_op_keeps: "cs_regs s 11 = v \<Longrightarrow> keeps_11 v (string_op op rep s)"
  by (simp add: string_op_def string_body_keeps string_loop_keeps)

lemma exit_1_keeps: "cs_regs s 11 = v \<Longrightarrow> keeps_11 v (exit_1 s)"
  by (simp add: exit_1_def)

lemma buffered_input_keeps:
  assumes "\<And>s idx. cs_regs s 11 = v \<Longrightarrow> keeps_11 v (finish s idx)"
  shows "cs_regs s 11 = v \<Longrightarrow> keeps_11 v (buffered_input os n base cap idx s finish)"
proof (induction n arbitrary: idx s)
  case (Suc n)
  then show ?case
    using assms
    by (auto intro!: keeps_11_andthen split: prod.split option.split list.split)
qed simp

lemma int21_keeps:
  assumes "cs_regs s 11 = v"
  shows "keeps_11 v (int21_input_line os n s)" and "keeps_11 v (int21_open os s)"
    and "keeps_11 v (int21_close os s)" and "keeps_11 v (int21_read os s)" and "keeps_11 v (int21_write os s)"
    and "keeps_11 v (int21_time os date s)" and "keeps_11 v (int21_chdir os s)"
    and "keeps_11 v (int21_getcwd os s)" and "keeps_11 v (int21_allocate s)"
proof -
  show "keeps_11 v (int21_input_line os n s)"
    using assms
    by (auto simp: int21_input_line_def Let_def intro!: keeps_11_with_value buffered_input_keeps keeps_11_andthen)
  show "keeps_11 v (int21_open os s)"
    using assms by (auto simp: int21_open_def Let_def exit_1_keeps intro!: keeps_11_with_value split: prod.split)
  show "keeps_11 v (int21_close os s)" and "keeps_11 v (int21_write os s)" and "keeps_11 v (int21_time os date s)"
    and "keeps_11 v (int21_allocate s)"
    using assms
    by (auto simp: int21_close_def int21_write_def int21_time_def int21_allocate_def Let_def
        intro!: keeps_11_with_value)
  show "keeps_11 v (int21_read os s)" and "keeps_11 v (int21_chdir os s)" and "keeps_11 v (int21_getcwd os s)"
    using assms
    by (auto simp: int21_read_def int21_chdir_def int21_getcwd_def Let_def
        intro!: keeps_11_with_value keeps_11_andthen split: prod.split option.split)
qed

lemma rt_int21_keeps: "cs_regs s 11 = v \<Longrightarrow> keeps_11 v (rt_int21 os n s)"
  by (auto simp: rt_int21_def Let_def exit_1_keeps int21_keeps intro!: keeps_11_with_value
      split: prod.split option.split list.split)

lemma write_repeatedly_regs [simp]: "cs_regs (write_repeatedly os n ch s) = cs_regs s"
  by (induction n arbitrary: s) simp_all

lemma rt_int10_keeps: "cs_regs s 11 = v \<Longrightarrow> keeps_11 v (rt_int10 os s)"
  by (simp add: rt_int10_def Let_def exit_1_keeps)

lemma read_key_keeps: "cs_regs s 11 = v \<Longrightarrow> keeps_11 v (read_key os n s)"
  by (induction n arbitrary: s) (auto simp: Let_def split: prod.split option.split)

lemma rt_int16_keeps: "cs_regs s 11 = v \<Longrightarrow> keeps_11 v (rt_int16 os n s)"
  by (simp add: rt_int16_def Let_def exit_1_keeps read_key_keeps)

lemma exec_stmt_keeps:
  assumes "assigns stmt \<noteq> Some 11" and "cs_regs s 11 = v"
    and "\<And>l s. cs_regs s 11 = v \<Longrightarrow> keeps_11 v (call l s)"
    and "\<And>l s. cs_regs s 11 = v \<Longrightarrow> keeps_11 v (dispatch l s)"
  shows "keeps_11 v (exec_stmt os n call dispatch stmt s)"
proof (cases stmt)
  case cs_return
  with assms show ?thesis by (auto simp: exec_stmt_def intro!: keeps_11_andthen)
qed (use assms in \<open>auto simp: exec_stmt_def exit_1_keeps string_op_keeps rt_int21_keeps rt_int10_keeps
      rt_int16_keeps intro!: keeps_11_with_value\<close>)

lemma exec_stmts_keeps:
  assumes "\<And>stmt s. stmt \<in> set stmts \<Longrightarrow> cs_regs s 11 = v \<Longrightarrow> keeps_11 v (exec stmt s)"
  shows "cs_regs s 11 = v \<Longrightarrow> keeps_11 v (exec_stmts exec stmts s)"
  using assms
proof (induction stmts arbitrary: s)
  case (Cons stmt stmts)
  then show ?case by (auto simp: exec_stmts.simps(2) intro!: keeps_11_andthen)
qed simp

lemma exec_loop_keeps:
  assumes "\<And>s. cs_regs s 11 = v \<Longrightarrow> keeps_11 v (body s)"
  shows "cs_regs s 11 = v \<Longrightarrow> keeps_11 v (exec_loop n body c s)"
  using assms by (induction n arbitrary: s) (auto intro!: keeps_11_andthen)

lemma run_block_keeps:
  assumes "\<And>b. b \<in> set (cp_blocks prog) \<Longrightarrow> spares_11 (cb_body b)"
  shows "cs_regs s 11 = v \<Longrightarrow> keeps_11 v (run_block os prog n l s)"
proof (induction n arbitrary: l s)
  case (Suc n)
  show ?case
  proof (cases "block_at prog l")
    case (Some b)
    then have "spares_11 (cb_body b)"
      using assms by (auto simp: block_at_def find_Some_iff)
    then have "keeps_11 v (exec_stmts (exec_stmt os n (run_block os prog n)
        (\<lambda>a s. if a \<in> set (cp_dispatch prog) then run_block os prog n a s else exit_1 s)) (cb_body b) t)"
      if "cs_regs t 11 = v" for t
      using that Suc.IH by (intro exec_stmts_keeps exec_stmt_keeps) (auto simp: spares_11_def exit_1_keeps)
    with Some Suc.prems show ?thesis
      by (auto simp: Let_def intro: exec_loop_keeps split: option.split)
  qed simp
qed simp

lemma relocate_mems_keeps: "cs_regs s 11 = v \<Longrightarrow> keeps_11 v (relocate_mems segment ps s)"
  by (induction ps arbitrary: s)
    (auto simp: relocate_mem_def intro!: keeps_11_andthen keeps_11_with_value)

lemma emitted_bodies_spare:
  assumes "emit_c_runtime img = Inr prog" and "b \<in> set (cp_blocks prog)"
  shows "spares_11 (cb_body b)"
proof -
  obtain starts where "emit_blocks (img_bytes img) starts starts = Inr (cp_blocks prog)"
    using assms(1) by (auto simp: emit_c_runtime_def bindE_eq_Inr)
  from emit_block_at_body [OF emit_blocks_each [OF this assms(2)]] show ?thesis
    using emit_block_body_spares by blast
qed

lemma run_c_program_keeps:
  assumes "emit_c_runtime img = Inr prog"
  shows "keeps_11 0 (run_c_program os n prog h)"
proof -
  have main: "cp_main prog = write_main img" using assms by (auto simp: emit_c_runtime_def bindE_eq_Inr)
  have "cs_regs (set_regs (cm_registers (write_main img)) s) 11 = cs_regs s 11" for s :: "'a c_state"
    by (simp add: set_regs_regs write_main_def Let_def)
  then have "keeps_11 0 (load_main (cp_main prog) (c_init h))"
    unfolding load_main_def main
    by (auto simp: c_init_def intro!: keeps_11_andthen relocate_mems_keeps)
  then show ?thesis
    unfolding run_c_program_def
    by (auto intro!: keeps_11_andthen run_block_keeps emitted_bodies_spare [OF assms])
qed

section \<open>Unsupported instructions\<close>

text \<open>A block that begins with an instruction of these kinds ends the program with 1.\<close>

definition unsupported_kind :: "instruction_kind \<Rightarrow> bool" where
  "unsupported_kind kind \<longleftrightarrow> kind \<in> {k_nop, k_stack, k_io, k_coprocessor, k_loop}"

lemma emit_plain_unsupported:
  "unsupported_kind (ins_kind i) \<Longrightarrow> emit_plain code position i = [cs_comment, cs_exit_1]"
  by (auto simp: unsupported_kind_def emit_plain_def)

lemma emit_block_body_unsupported:
  assumes "emit_block_body code targets stop position = Inr stmts" and "decode_at code position = Inr i"
    and "unsupported_kind (ins_kind i)" and "stop = 0 \<or> stop \<noteq> position"
  shows "\<exists>rest. stmts = cs_comment # cs_exit_1 # rest"
proof -
  have "emit_terminator code targets position i = None"
    using assms(3) by (auto simp: unsupported_kind_def emit_terminator_def Let_def)
  then show ?thesis
    using assms dec.dec_inside [OF assms(2)]
    by (auto simp: emit_block_body.simps [of code targets stop position] bindE_eq_Inr emit_plain_unsupported
        split: if_split_asm)
qed

lemma find_loop_after: "find_loop code start scan = Inr (Some (e, c)) \<Longrightarrow> e \<noteq> start"
proof (induction code start scan rule: find_loop.induct)
  case (1 code start scan)
  then show ?case
    by (auto simp: find_loop.simps [of code start scan] split: if_split_asm sum.split_asm failure.split_asm)
qed

lemma find_unique_label:
  "distinct (map f xs) \<Longrightarrow> b \<in> set xs \<Longrightarrow> find (\<lambda>x. f x = f b) xs = Some b"
  by (induction xs) auto

lemma unsupported_block_exits:
  assumes "emit_c_runtime img = Inr prog" and "block_at prog l = Some b"
    and "decode_at (img_bytes img) l = Inr i" and "unsupported_kind (ins_kind i)"
  shows "run_block os prog (Suc (Suc n)) l s = cr_exit 1 s"
proof -
  obtain starts where blocks: "emit_blocks (img_bytes img) starts starts = Inr (cp_blocks prog)"
    using assms(1) by (auto simp: emit_c_runtime_def bindE_eq_Inr)
  have b: "b \<in> set (cp_blocks prog)" "cb_label b = l"
    using assms(2) by (auto simp: block_at_def find_Some_iff)
  have "emit_block_at (img_bytes img) starts l = Inr b"
    using emit_blocks_each [OF blocks b(1)] b(2) by simp
  then obtain stop where "emit_block_body (img_bytes img) starts stop l = Inr (cb_body b)" "stop \<noteq> l \<or> stop = 0"
    by (fastforce simp: emit_block_at_def bindE_eq_Inr dest: find_loop_after split: option.split_asm prod.split_asm)
  then obtain rest where body: "cb_body b = cs_comment # cs_exit_1 # rest"
    using emit_block_body_unsupported [OF _ assms(3,4)] by blast
  show ?thesis
    using assms(2) body
    by (simp add: Let_def exec_stmts.simps(2) exec_stmt_def exit_1_def split: option.split)
qed

section \<open>Moves and interrupts\<close>

text \<open>How the passes go over the two kinds of instruction that the programs below consist of.\<close>

lemma over_move:
  assumes "decode_at code p = Inr i" and "ins_kind i = k_move_immediate"
  shows "scan_start_block code latest p s = scan_start_block code latest (p + ins_size i) s"
    and "find_loop code start p = find_loop code start (p + ins_size i)"
    and "length starts < 256 \<Longrightarrow> sweep_starts code p starts = sweep_starts code (p + ins_size i) (set_insert p starts)"
    and "emit_block_body code targets 0 p =
      bindE (emit_block_body code targets 0 (p + ins_size i)) (\<lambda>rest. Inr (emit_move_immediate i @ rest))"
  using assms dec.dec_inside [OF assms(1)]
  by (simp_all add: scan_start_block.simps [of code latest p] find_loop.simps [of code start p]
      sweep_starts.simps [of code p] emit_block_body.simps [of code targets 0 p] add_targets_def Let_def
      probe_ends_def emit_terminator_def emit_plain_def)

lemma over_int:
  assumes "decode_at code p = Inr (basic k_interrupt p 2 0 0x21)"
  shows "scan_start_block code latest p s =
      Inr (if p \<noteq> latest \<and> p + 2 < length code then add_start (p + 2) s else s)"
    and "find_loop code start p = Inr None"
    and "length starts < 256 \<Longrightarrow> sweep_starts code p starts = Inr (set_insert p starts)"
    and "emit_block_body code targets 0 p = Inr (cs_int21 # continue_at code targets (p + 2))"
  using dec.dec_inside [OF assms]
  by (simp_all add: assms basic_def scan_start_block.simps [of code latest p] find_loop.simps [of code start p]
      sweep_starts.simps [of code p] emit_block_body.simps [of code targets 0 p] add_targets_def Let_def
      probe_ends_def emit_terminator_def)

lemma last_interrupt_here:
  assumes "p + 1 < length code" and "code ! p = 0xcd" and "code ! (p + 1) = 0x21"
    and "\<forall>q. p < q \<and> q + 1 < length code \<longrightarrow> \<not> (code ! q = 0xcd \<and> code ! (q + 1) = 0x21)"
  shows "last_interrupt code = p"
proof -
  let ?f = "\<lambda>latest p. if code ! p = 0xcd \<and> code ! (p + 1) = 0x21 then p else latest"
  have split: "[0..<length code - 1] = [0..<p] @ p # [p + 1..<length code - 1]"
    using assms(1) by (metis Suc_eq_plus1 less_diff_conv upt_conv_Cons upt_add_eq_append le_add1 le_add_diff_inverse less_imp_le zero_le)
  have later: "foldl ?f p qs = p" if "\<forall>q \<in> set qs. p < q \<and> q + 1 < length code" for qs
    using that assms(4) by (induction qs) auto
  have "foldl ?f p [p + 1..<length code - 1] = p" by (rule later) auto
  then show ?thesis
    unfolding last_interrupt_def split using assms(2,3) by simp
qed

section \<open>MOV AX, 4Cxxh; INT 21h\<close>

lemma emit_move_ax: "emit_move_immediate (mov_ax_instruction off v) = [cs_set_word 0 (cv_const v)]"
  by (simp add: emit_move_immediate_def mov_ax_instruction_def immediate_operand_def default_operand_def
      word_reg_index_def)

lemma emit_move_dx: "emit_move_immediate (mov_dx_instruction off v) = [cs_set_word 2 (cv_const v)]"
  by (simp add: emit_move_immediate_def mov_dx_instruction_def immediate_operand_def default_operand_def
      word_reg_index_def)

lemma emit_move_ah:
  "emit_move_immediate (mov_ah_instruction off b) = [cs_set_byte 0 8 (cv_const (ucast b AND 0xff))]"
  by (simp add: emit_move_immediate_def mov_ah_instruction_def immediate_operand_def default_operand_def
      word_reg_index_def byte_reg_store_def)

lemma exit_program_emitted:
  "\<exists>prog. emit_c_runtime (com_image (exit_program v)) = Inr prog \<and>
     block_at prog 0 = Some \<lparr>cb_label = 0, cb_loop = None, cb_body = [cs_set_word 0 (cv_const (le16 v 0x4c)), cs_int21]\<rparr> \<and>
     cp_main prog = write_main (com_image (exit_program v))"
proof -
  let ?code = "exit_program v"
  have d0: "decode_at ?code 0 = Inr (mov_ax_instruction 0 (le16 v 0x4c))"
    using decode_mov_ax [of 0 ?code] by (simp add: exit_program_def)
  have d3: "decode_at ?code 3 = Inr (basic k_interrupt 3 2 0 0x21)"
    using decode_int [of 3 ?code] by (simp add: exit_program_def)
  have len: "length ?code = 5" by (simp add: exit_program_def)
  have latest: "last_interrupt ?code = 3"
    by (rule last_interrupt_here) (auto simp: exit_program_def)
  have "fix_starts ?code [0] = Inr [0]"
    using over_move(1) [OF d0] over_int(1) [OF d3] latest len by (simp add: fix_starts.simps)
  moreover have "sweep_starts ?code 0 [0] = Inr [0, 3]"
    using over_move(3) [OF d0] over_int(3) [OF d3] by (simp add: set_insert_def)
  ultimately have "collect_block_starts (com_image ?code) = Inr [0, 3]"
    by (simp add: collect_block_starts_def)
  then show ?thesis
    using over_move(2,4) [OF d0] over_int(2,4) [OF d3] len
    by (simp add: emit_c_runtime_def emit_block_at_def emit_move_ax continue_at_def block_at_def)
qed

text \<open>A COM image in memory, with the registers that \<open>main\<close> sets.\<close>

lemma com_image_loaded:
  assumes "0x100 + length code \<le> mem_size"
  shows "\<exists>s. load_main (write_main (com_image code)) (c_init h) = cr_next s \<and> holds_bytes 0x100 code s \<and>
    cs_regs s = (\<lambda>_. 0)(4 := 0xfffe) \<and> cs_host s = h"
  using load_main_holds [of "write_main (com_image code)" "[]" "c_init h"] assms
  by (fastforce simp: write_main_def c_init_def)

lemma exit_block_runs:
  assumes "block_at prog l = Some \<lparr>cb_label = l, cb_loop = None, cb_body = [cs_set_word 0 (cv_const (le16 v 0x4c)), cs_int21]\<rparr>"
  shows "\<exists>s'. run_block os prog (Suc n) l s = cr_exit v s' \<and> cs_host s' = cs_host s"
  using assms
  by (simp add: exec_stmts.simps(2) exec_stmt_def with_value_def rt_int21_def set_reg_def)

lemma exit_program_runs:
  "\<exists>prog s. emit_c_source (com_image (exit_program v)) = Inr prog \<and>
     run_c_program os (Suc n) prog h = cr_exit v s \<and> cs_host s = h"
proof -
  let ?img = "com_image (exit_program v)"
  obtain prog where prog: "emit_c_runtime ?img = Inr prog"
    "block_at prog 0 = Some \<lparr>cb_label = 0, cb_loop = None, cb_body = [cs_set_word 0 (cv_const (le16 v 0x4c)), cs_int21]\<rparr>"
    "cp_main prog = write_main ?img"
    using exit_program_emitted [of v] by blast
  obtain s where "load_main (write_main ?img) (c_init h) = cr_next s" "cs_host s = h"
    using com_image_loaded [of "exit_program v" h] by (auto simp: exit_program_def mem_size_def)
  moreover have "cm_entry (write_main ?img) = 0" by (simp add: write_main_def)
  moreover obtain s' where "run_block os prog (Suc n) 0 s = cr_exit v s'" "cs_host s' = cs_host s"
    using exit_block_runs [OF prog(2), of os n s] by blast
  ultimately show ?thesis
    using prog(1,3) by (simp add: emit_c_source_def run_c_program_def del: run_block.simps)
qed

end
