(* ===== verification/BranchingConsole.thy ===== *)
theory BranchingConsole
  imports BranchingPrograms
begin

text \<open>
  The console program (a '$'-terminated string printed by function 09h, then an exit code) through
  \<open>branching_compiler\<close>: the printed blocks and what they do when they run.
\<close>

section \<open>The blocks\<close>

text \<open>No byte pair CD 21 after the program's second interrupt.\<close>

definition no_interrupt_in :: "byte list \<Rightarrow> bool" where
  "no_interrupt_in bytes \<longleftrightarrow> (\<forall>k. Suc k < length bytes \<longrightarrow> \<not> (bytes ! k = 0xcd \<and> bytes ! Suc k = 0x21))"

definition console_block :: c_block where
  "console_block = \<lparr>cb_label = 0, cb_loop = None,
     cb_body = [cs_set_word 2 (cv_const (le16 0x0c 0x01)), cs_set_byte 0 8 (cv_const (ucast (0x09 :: byte) AND 0xff)),
       cs_int21, cs_block 7]\<rparr>"

definition exit_block_at :: "nat \<Rightarrow> byte \<Rightarrow> c_block" where
  "exit_block_at l e = \<lparr>cb_label = l, cb_loop = None, cb_body = [cs_set_word 0 (cv_const (le16 e 0x4c)), cs_int21]\<rparr>"

lemma console_decodes:
  "decode_at (console_program message e rest) 0 = Inr (mov_dx_instruction 0 (le16 0x0c 0x01))"
  "decode_at (console_program message e rest) 3 = Inr (mov_ah_instruction 3 0x09)"
  "decode_at (console_program message e rest) 5 = Inr (basic k_interrupt 5 2 0 0x21)"
  "decode_at (console_program message e rest) 7 = Inr (mov_ax_instruction 7 (le16 e 0x4c))"
  "decode_at (console_program message e rest) 10 = Inr (basic k_interrupt 10 2 0 0x21)"
  using decode_mov_dx [of 0 "console_program message e rest"] decode_mov_ah [of 3 "console_program message e rest"]
    decode_int [of 5 "console_program message e rest"] decode_mov_ax [of 7 "console_program message e rest"]
    decode_int [of 10 "console_program message e rest"]
  by (simp_all add: console_program_def)

lemma console_last_interrupt:
  assumes "no_interrupt_in (message @ 0x24 # rest)"
  shows "last_interrupt (console_program message e rest) = 10"
proof (rule last_interrupt_here)
  let ?tail = "message @ 0x24 # rest" and ?code = "console_program message e rest"
  have "\<not> (?code ! q = 0xcd \<and> ?code ! (q + 1) = 0x21)" if "10 < q" "q + 1 < length ?code" for q
  proof (cases "q = 11")
    case True
    then show ?thesis by (simp add: console_program_def)
  next
    case False
    define k where "k = q - 12"
    with False that(1) have k: "q = 12 + k" by simp
    have "?code ! q = ?tail ! k" "?code ! (q + 1) = ?tail ! Suc k"
      using k by (simp_all add: console_program_def)
    moreover have "Suc k < length ?tail" using k that(2) by (simp add: console_program_def)
    ultimately show ?thesis using assms by (simp add: no_interrupt_in_def)
  qed
  then show "\<forall>q. 10 < q \<and> q + 1 < length ?code \<longrightarrow> \<not> (?code ! q = 0xcd \<and> ?code ! (q + 1) = 0x21)" by blast
qed (simp_all add: console_program_def)

lemma console_starts:
  assumes "no_interrupt_in (message @ 0x24 # rest)"
  shows "collect_block_starts (com_image (console_program message e rest)) = Inr [0, 3, 5, 7]"
proof -
  let ?code = "console_program message e rest"
  note d = console_decodes [of message e rest]
  note latest = console_last_interrupt [OF assms, of e]
  have len: "13 \<le> length ?code" by (simp add: console_program_def)
  have from_0: "scan_start_block ?code 10 0 s = Inr (add_start 7 s)" for s
    using over_move(1) [OF d(1)] over_move(1) [OF d(2)] over_int(1) [OF d(3)] len by simp
  have from_7: "scan_start_block ?code 10 7 s = Inr s" for s
    using over_move(1) [OF d(4)] over_int(1) [OF d(5)] by simp
  have "fix_starts ?code [0] = fix_starts ?code [0, 7]"
    using from_0 latest by (simp add: fix_starts.simps [of ?code "[0]"] add_start_def set_insert_def)
  also have "\<dots> = Inr [0, 7]"
    using from_0 from_7 latest by (simp add: fix_starts.simps [of ?code "[0, 7]"] add_start_def set_insert_def)
  finally have fixed: "fix_starts ?code [0] = Inr [0, 7]" .
  have "sweep_starts ?code 0 [0, 7] = Inr [0, 3, 5, 7]"
    using over_move(3) [OF d(1)] over_move(3) [OF d(2)] over_int(3) [OF d(3)] by (simp add: set_insert_def)
  with fixed show ?thesis by (simp add: collect_block_starts_def)
qed

lemma console_emitted:
  assumes "no_interrupt_in (message @ 0x24 # rest)"
  shows "\<exists>prog. emit_c_runtime (com_image (console_program message e rest)) = Inr prog \<and>
    block_at prog 0 = Some console_block \<and> block_at prog 7 = Some (exit_block_at 7 e) \<and>
    cp_main prog = write_main (com_image (console_program message e rest))"
proof -
  let ?code = "console_program message e rest"
  note d = console_decodes [of message e rest]
  have len: "13 \<le> length ?code" by (simp add: console_program_def)
  note go = over_move(2,4) [OF d(1)] over_move(2,4) [OF d(2)] over_int(2,4) [OF d(3)] over_move(2,4) [OF d(4)]
    over_int(2,4) [OF d(5)]
  have "emit_block_at ?code [0, 3, 5, 7] 0 = Inr console_block"
    using go len by (simp add: emit_block_at_def emit_move_dx emit_move_ah continue_at_def console_block_def)
  moreover have "emit_block_at ?code [0, 3, 5, 7] 7 = Inr (exit_block_at 7 e)"
    using go len by (simp add: emit_block_at_def emit_move_ax continue_at_def exit_block_at_def)
  moreover obtain b3 b5 where "emit_block_at ?code [0, 3, 5, 7] 3 = Inr b3" "emit_block_at ?code [0, 3, 5, 7] 5 = Inr b5"
    "cb_label b3 = 3" "cb_label b5 = 5"
    using go len by (simp add: emit_block_at_def emit_move_ah continue_at_def)
  ultimately show ?thesis
    using console_starts [OF assms, of e]
    by (simp add: emit_c_runtime_def block_at_def console_block_def exit_block_at_def)
qed

section \<open>The run\<close>

text \<open>Function 09h finds the string behind the twelve bytes of code.\<close>

lemma console_text:
  assumes "holds_bytes 0x100 (console_program message e rest) s" and "0x24 \<notin> set message"
  shows "bytes_until 0x24 0x10c s = Some message"
proof -
  let ?code = "console_program message e rest"
  have fits: "0x100 + length ?code \<le> mem_size" and bytes: "\<forall>k < length ?code. cs_mem s (0x100 + k) = ?code ! k"
    using assms(1) by (simp_all add: holds_bytes_def)
  let ?n = "0x10c + length message"
  have "[0x10c..<mem_size] = [0x10c..<?n] @ ?n # [Suc ?n..<mem_size]"
    using fits upt_add_eq_append [of "0x10c" ?n "mem_size - ?n"] by (simp add: console_program_def upt_conv_Cons)
  moreover have "map (cs_mem s) [0x10c..<?n] = message"
  proof (rule nth_equalityI)
    fix k assume "k < length (map (cs_mem s) [0x10c..<?n])"
    then show "map (cs_mem s) [0x10c..<?n] ! k = message ! k"
      using spec [OF bytes, of "12 + k"] by (simp add: console_program_def nth_append)
  qed simp
  moreover have "cs_mem s ?n = 0x24"
    using spec [OF bytes, of "12 + length message"] by (simp add: console_program_def add.commute)
  ultimately have "map (cs_mem s) [0x10c..<mem_size] = message @ 0x24 # map (cs_mem s) [Suc ?n..<mem_size]"
    by simp
  moreover have "takeWhile (\<lambda>b. b \<noteq> 0x24) (message @ 0x24 # bytes) = message" for bytes
    using assms(2) by (induction message) auto
  ultimately show ?thesis by (simp add: bytes_until_def)
qed

lemma console_program_runs:
  assumes "0x24 \<notin> set message" and "no_interrupt_in (message @ 0x24 # rest)"
    and "269 + length message + length rest \<le> mem_size"
  shows "\<exists>prog s. emit_c_source (com_image (console_program message e rest)) = Inr prog \<and>
    run_c_program os (Suc (Suc n)) prog h = cr_exit e s \<and> cs_host s = ch_write os 1 message h"
proof -
  let ?img = "com_image (console_program message e rest)"
  obtain prog where prog: "emit_c_runtime ?img = Inr prog" "block_at prog 0 = Some console_block"
    "block_at prog 7 = Some (exit_block_at 7 e)" "cp_main prog = write_main ?img"
    using console_emitted [OF assms(2)] by blast
  obtain s where s: "load_main (write_main ?img) (c_init h) = cr_next s"
    "holds_bytes 0x100 (console_program message e rest) s" "cs_regs s = (\<lambda>_. 0)(4 := 0xfffe)" "cs_host s = h"
    using com_image_loaded [of "console_program message e rest" h] assms(3) console_program_bytes(1) [of message e rest]
    by auto
  let ?s1 = "set_reg 0 (set_byte 8 (ucast (0x09 :: byte) AND 0xff) 0) (set_reg 2 (le16 0x0c 0x01) s)"
  have host: "cs_host ?s1 = h" using s(4) by (simp add: set_reg_def)
  have printed: "bytes_until 0x24 (ds_dx ?s1) ?s1 = Some message"
    using console_text [OF s(2) assms(1)] s(3) by (simp add: ds_dx_def le16_10c bytes_until_def set_reg_def)
  have "hi8 (cs_regs ?s1 0) = 0x09" using set_byte_halves(2) [of "0x09" 0] by simp
  then have int: "rt_int21 os (Suc n) ?s1 = cr_next (write_fd os 1 message ?s1)"
    using printed by (simp add: rt_int21_def with_value_def Let_def)
  obtain s' where s': "run_block os prog (Suc n) 7 (write_fd os 1 message ?s1) = cr_exit e s'"
    "cs_host s' = ch_write os 1 message h"
    using exit_block_runs [of prog 7 e os n "write_fd os 1 message ?s1"] prog(3) host
    by (auto simp: exit_block_at_def write_fd_def set_host_def)
  have "run_block os prog (Suc (Suc n)) 0 s = cr_exit e s'"
    using int s' s(3)
    by (subst run_block.simps) (simp add: prog(2) console_block_def exec_stmts.simps(2) exec_stmt_def
        with_value_def del: run_block.simps)
  moreover have "cm_entry (write_main ?img) = 0" by (simp add: write_main_def)
  ultimately show ?thesis
    using prog(1,4) s s'(2) by (simp add: emit_c_source_def run_c_program_def del: run_block.simps)
qed

end
