(* ===== verification/BranchingLoops.thy ===== *)
theory BranchingLoops
  imports BranchingPrograms
begin

text \<open>
  Loops through \<open>branching_compiler\<close>: the counted loop MOV CX, n; DEC CX; JNZ, followed by an exit. The
  blocks it is printed as, what the \<open>do\<close> loop does, and that nothing after the loop runs.
\<close>

section \<open>Decoding\<close>

definition countdown_program :: "byte \<Rightarrow> byte \<Rightarrow> byte \<Rightarrow> byte list" where
  "countdown_program lo hi v = [0xb9, lo, hi, 0x49, 0x75, 0xfd, 0xb8, v, 0x4c, 0xcd, 0x21]"

definition mov_cx_instruction :: "nat \<Rightarrow> u16 \<Rightarrow> instruction" where
  "mov_cx_instruction off v =
     with_operands (basic k_move_immediate off 3 0 0)
       (default_operand\<lparr>op_kind := o_reg, op_width := w_word, op_reg := R_cx\<rparr>)
       (immediate_operand w_word v) 2 a_none"

definition dec_cx_instruction :: "nat \<Rightarrow> instruction" where
  "dec_cx_instruction off =
     with_operands (basic k_arithmetic off 1 0 0)
       (default_operand\<lparr>op_kind := o_reg, op_width := w_word, op_reg := R_cx\<rparr>)
       (immediate_operand w_word 1) 2 a_subtract"

definition jnz_instruction :: "nat \<Rightarrow> instruction" where
  "jnz_instruction off = (basic k_conditional_jump off 2 (- 3) 0)\<lparr>ins_condition := c_not_equal\<rparr>"

lemma loop_instruction_sel [simp]:
  "ins_kind (mov_cx_instruction off v) = k_move_immediate" "ins_size (mov_cx_instruction off v) = 3"
  "ins_kind (dec_cx_instruction off) = k_arithmetic" "ins_size (dec_cx_instruction off) = 1"
  "ins_kind (jnz_instruction off) = k_conditional_jump" "ins_size (jnz_instruction off) = 2"
  "ins_condition (jnz_instruction off) = c_not_equal"
  by (simp_all add: mov_cx_instruction_def dec_cx_instruction_def jnz_instruction_def with_operands_def basic_def)

lemma decode_mov_cx:
  assumes "off + 2 < length code" and "code ! off = 0xb9"
  shows "decode_at code off = Inr (mov_cx_instruction off (le16 (code ! (off + 1)) (code ! (off + 2))))"
proof -
  have "decode_fixed code off 0xb9 = None" "decode_string code off 0xb9 = None" "decode_io code off 0xb9 = None"
    by (simp_all add: decode_fixed_def decode_string_def is_string_opcode_def decode_io_def)
  moreover have "decode_immediate_move code off 0xb9 =
      Some (Inr (mov_cx_instruction off (le16 (code ! (off + 1)) (code ! (off + 2)))))"
    using assms(1)
    by (simp add: decode_immediate_move_def need_here immediate_move_def register_operand_def
        decoder_register_for_def word_registers_def mov_cx_instruction_def)
  ultimately show ?thesis
    using assms by (simp add: decode_at_plain is_prefix_def decode_opcode_def opcode_groups_def)
qed

lemma decode_dec_cx:
  assumes "off < length code" and "code ! off = 0x49"
  shows "decode_at code off = Inr (dec_cx_instruction off)"
proof -
  have "decode_fixed code off 0x49 = None" "decode_string code off 0x49 = None" "decode_io code off 0x49 = None"
    "decode_immediate_move code off 0x49 = None" "decode_accumulator code off 0x49 = None"
    "decode_stack code off 0x49 = None"
    by (simp_all add: decode_fixed_def decode_string_def is_string_opcode_def decode_io_def
        decode_immediate_move_def decode_accumulator_def accumulator_opcodes_def decode_stack_def)
  moreover have "decode_inc_dec code off 0x49 = Some (Inr (dec_cx_instruction off))"
    by (simp add: decode_inc_dec_def step_instruction_def register_operand_def decoder_register_for_def
        word_registers_def dec_cx_instruction_def)
  ultimately show ?thesis
    using assms by (simp add: decode_at_plain is_prefix_def decode_opcode_def opcode_groups_def)
qed

lemma decode_jnz:
  assumes "off + 1 < length code" and "code ! off = 0x75" and "code ! (off + 1) = 0xfd"
  shows "decode_at code off = Inr (jnz_instruction off)"
proof -
  have "decode_fixed code off 0x75 = None" "decode_string code off 0x75 = None" "decode_io code off 0x75 = None"
    "decode_immediate_move code off 0x75 = None" "decode_accumulator code off 0x75 = None"
    "decode_stack code off 0x75 = None" "decode_inc_dec code off 0x75 = None"
    "decode_modrm_arithmetic code off 0x75 = None" "decode_move_modrm code off 0x75 = None"
    "decode_group_immediate code off 0x75 = None" "decode_ff code off 0x75 = None"
    "decode_groups code off 0x75 = None"
    by (simp_all add: decode_fixed_def decode_string_def is_string_opcode_def decode_io_def
        decode_immediate_move_def decode_accumulator_def accumulator_opcodes_def decode_stack_def
        decode_inc_dec_def decode_modrm_arithmetic_def is_modrm_arithmetic_def decode_move_modrm_def
        decode_group_immediate_def group_immediate_opcodes_def decode_ff_def decode_groups_def)
  moreover have "decode_control code off 0x75 = Some (Inr (jnz_instruction off))"
    using assms(1,3)
    by (simp add: decode_control_def relative8_def need_here byte_at_def jnz_instruction_def jcc_conditions_def)
  ultimately show ?thesis
    using assms by (simp add: decode_at_plain is_prefix_def decode_opcode_def opcode_groups_def)
qed

lemma countdown_decodes:
  "decode_at (countdown_program lo hi v) 0 = Inr (mov_cx_instruction 0 (le16 lo hi))"
  "decode_at (countdown_program lo hi v) 3 = Inr (dec_cx_instruction 3)"
  "decode_at (countdown_program lo hi v) 4 = Inr (jnz_instruction 4)"
  "decode_at (countdown_program lo hi v) 6 = Inr (mov_ax_instruction 6 (le16 v 0x4c))"
  "decode_at (countdown_program lo hi v) 9 = Inr (basic k_interrupt 9 2 0 0x21)"
  using decode_mov_cx [of 0 "countdown_program lo hi v"] decode_dec_cx [of 3 "countdown_program lo hi v"]
    decode_jnz [of 4 "countdown_program lo hi v"] decode_mov_ax [of 6 "countdown_program lo hi v"]
    decode_int [of 9 "countdown_program lo hi v"]
  by (simp_all add: countdown_program_def)

section \<open>The blocks\<close>

definition count_body :: "c_stmt list" where
  "count_body = [cs_update 1 a_subtract 1, cs_compare (cv_word 1) (cv_const 0) False]"

lemma over_dec:
  assumes "decode_at code p = Inr (dec_cx_instruction p)"
  shows "scan_start_block code latest p s = scan_start_block code latest (p + 1) s"
    and "find_loop code start p = find_loop code start (p + 1)"
    and "length starts < 256 \<Longrightarrow> sweep_starts code p starts = sweep_starts code (p + 1) (set_insert p starts)"
    and "stop = 0 \<or> stop \<noteq> p \<Longrightarrow> emit_block_body code targets stop p =
      bindE (emit_block_body code targets stop (p + 1)) (\<lambda>rest. Inr (count_body @ rest))"
proof -
  have "emit_arithmetic (dec_cx_instruction p) = count_body"
    by (simp add: emit_arithmetic_def dec_cx_instruction_def with_operands_def immediate_operand_def
        default_operand_def word_reg_index_def word_reg_access_def count_body_def)
  then show "stop = 0 \<or> stop \<noteq> p \<Longrightarrow> emit_block_body code targets stop p =
      bindE (emit_block_body code targets stop (p + 1)) (\<lambda>rest. Inr (count_body @ rest))"
    using assms dec.dec_inside [OF assms]
    by (auto simp: emit_block_body.simps [of code targets stop p] emit_terminator_def emit_plain_def Let_def)
qed (use assms dec.dec_inside [OF assms] in \<open>simp_all add: scan_start_block.simps [of code latest p]
      find_loop.simps [of code start p] sweep_starts.simps [of code p] add_targets_def Let_def probe_ends_def\<close>)

lemma over_jnz:
  assumes "decode_at code p = Inr (jnz_instruction p)" and "1 \<le> p" and "p < 2 ^ 32"
  shows "scan_start_block code latest p s =
      Inr (if p + 2 < length code then add_start (p + 2) (add_start (p - 1) s) else add_start (p - 1) s)"
    and "find_loop code start p = Inr (if p - 1 = start then Some (p, c_not_equal) else None)"
    and "length starts < 256 \<Longrightarrow> sweep_starts code p starts = sweep_starts code (p + 2) (set_insert p starts)"
    and "stop = 0 \<or> stop \<noteq> p \<Longrightarrow>
      emit_block_body code targets stop p = Inr [cs_branch (Some c_not_equal) (p - 1) (p + 2)]"
proof -
  have t: "walk_target p (jnz_instruction p) = p - 1"
    using assms(2,3) by (simp add: walk_target_def jnz_instruction_def basic_def nat_diff_distrib' of_nat_diff)
  show "scan_start_block code latest p s =
      Inr (if p + 2 < length code then add_start (p + 2) (add_start (p - 1) s) else add_start (p - 1) s)"
    and "find_loop code start p = Inr (if p - 1 = start then Some (p, c_not_equal) else None)"
    and "length starts < 256 \<Longrightarrow> sweep_starts code p starts = sweep_starts code (p + 2) (set_insert p starts)"
    and "stop = 0 \<or> stop \<noteq> p \<Longrightarrow>
      emit_block_body code targets stop p = Inr [cs_branch (Some c_not_equal) (p - 1) (p + 2)]"
    using assms t dec.dec_inside [OF assms(1)]
    by (auto simp: scan_start_block.simps [of code latest p] find_loop.simps [of code start p]
        sweep_starts.simps [of code p] emit_block_body.simps [of code targets stop p] add_targets_def Let_def
        probe_ends_def emit_terminator_def emit_conditional_def)
qed

lemma countdown_fixed: "fix_starts (countdown_program lo hi v) [0] = Inr [0, 3, 6]"
proof -
  let ?code = "countdown_program lo hi v"
  note d = countdown_decodes [of lo hi v]
  have len: "length ?code = 11" by (simp add: countdown_program_def)
  have latest: "last_interrupt ?code = 9"
    by (rule last_interrupt_here) (auto simp: countdown_program_def)
  note go = over_move(1) [OF d(1)] over_dec(1) [OF d(2)] over_jnz(1) [OF d(3)] over_move(1) [OF d(4)]
    over_int(1) [OF d(5)]
  have "fix_starts ?code [0] = fix_starts ?code [0, 3, 6]"
    using go latest len by (simp add: fix_starts.simps [of ?code "[0]"] add_start_def set_insert_def)
  also have "\<dots> = Inr [0, 3, 6]"
    using go latest len by (simp add: fix_starts.simps [of ?code "[0, 3, 6]"] add_start_def set_insert_def)
  finally show ?thesis .
qed

lemma countdown_starts:
  "collect_block_starts (com_image (countdown_program lo hi v)) = Inr [0, 3, 4, 6, 9]"
proof -
  let ?code = "countdown_program lo hi v"
  note d = countdown_decodes [of lo hi v]
  have "sweep_starts ?code 0 [0, 3, 6] = Inr [0, 3, 4, 6, 9]"
    using over_move(3) [OF d(1)] over_dec(3) [OF d(2)] over_jnz(3) [OF d(3)] over_move(3) [OF d(4)]
      over_int(3) [OF d(5)]
    by (simp add: set_insert_def)
  with countdown_fixed [of lo hi v] show ?thesis by (simp add: collect_block_starts_def)
qed

definition count_block :: "u16 \<Rightarrow> c_block" where
  "count_block n = \<lparr>cb_label = 0, cb_loop = None,
     cb_body = cs_set_word 1 (cv_const n) # count_body @ [cs_branch (Some c_not_equal) 3 6]\<rparr>"

definition loop_block :: c_block where
  "loop_block = \<lparr>cb_label = 3, cb_loop = Some (Some c_not_equal), cb_body = count_body\<rparr>"

lemma emit_move_cx: "emit_move_immediate (mov_cx_instruction off v) = [cs_set_word 1 (cv_const v)]"
  by (simp add: emit_move_immediate_def mov_cx_instruction_def immediate_operand_def default_operand_def
      word_reg_index_def)

lemma countdown_emitted:
  "\<exists>prog. emit_c_runtime (com_image (countdown_program lo hi v)) = Inr prog \<and>
    block_at prog 0 = Some (count_block (le16 lo hi)) \<and> block_at prog 3 = Some loop_block \<and>
    block_at prog 6 = Some \<lparr>cb_label = 6, cb_loop = None, cb_body = [cs_set_word 0 (cv_const (le16 v 0x4c)), cs_int21]\<rparr> \<and>
    cp_main prog = write_main (com_image (countdown_program lo hi v))"
proof -
  let ?code = "countdown_program lo hi v" and ?targets = "[0, 3, 4, 6, 9] :: nat list"
  note d = countdown_decodes [of lo hi v]
  have len: "length ?code = 11" by (simp add: countdown_program_def)
  have stop: "emit_block_body ?code ?targets 4 4 = Inr []"
    by (simp add: emit_block_body.simps [of ?code ?targets 4 4])
  note go = over_move(2,4) [OF d(1)] over_dec(2,4) [OF d(2)] over_jnz(2,4) [OF d(3)] over_move(2,4) [OF d(4)]
    over_int(2,4) [OF d(5)]
  have "emit_block_at ?code ?targets 0 = Inr (count_block (le16 lo hi))"
    using go by (simp add: emit_block_at_def emit_move_cx count_block_def)
  moreover have "emit_block_at ?code ?targets 3 = Inr loop_block"
    using go stop by (simp add: emit_block_at_def emit_conditional_def loop_block_def)
  moreover have "emit_block_at ?code ?targets 6 =
      Inr \<lparr>cb_label = 6, cb_loop = None, cb_body = [cs_set_word 0 (cv_const (le16 v 0x4c)), cs_int21]\<rparr>"
    using go len by (simp add: emit_block_at_def emit_move_ax continue_at_def)
  moreover obtain b4 where "emit_block_at ?code ?targets 4 = Inr b4" "cb_label b4 = 4"
    using go by (simp add: emit_block_at_def)
  moreover obtain b9 where "emit_block_at ?code ?targets 9 = Inr b9" "cb_label b9 = 9"
    using go len by (simp add: emit_block_at_def continue_at_def)
  ultimately show ?thesis
    using countdown_starts [of lo hi v]
    by (simp add: emit_c_runtime_def block_at_def count_block_def loop_block_def)
qed

section \<open>The run\<close>

definition count_step :: "'h c_state \<Rightarrow> 'h c_state" where
  "count_step s = update_flags_cmp (cs_regs s 1 - 1) 0 False (set_reg 1 (cs_regs s 1 - 1) s)"

lemma exec_count_body: "exec_stmts (exec_stmt os n call dispatch) count_body = (\<lambda>s. cr_next (count_step s))"
  by (simp add: fun_eq_iff count_body_def exec_stmts.simps(2) exec_stmt_def with_value_def count_step_def)

lemma count_step_sel [simp]:
  "cs_regs (count_step s) 1 = cs_regs s 1 - 1" "cs_host (count_step s) = cs_host s"
  "flag 0x40 (count_step s) \<longleftrightarrow> cs_regs s 1 = 1"
  by (simp_all add: count_step_def flag_after_compare) (simp_all add: update_flags_cmp_def set_reg_def)

lemmas count_step_one [simp] = count_step_sel [unfolded One_nat_def]

lemma exec_stmts_nothing [simp]: "exec_stmts exec [] = cr_next" "andthen r cr_next = r"
  by (simp_all add: fun_eq_iff, cases r) simp_all

lemma less_predecessor: "x \<noteq> 0 \<Longrightarrow> unat (x - 1 :: u16) < unat x"
  by (simp add: unat_minus_one unat_gt_0)

lemma exec_stmts_append:
  "exec_stmts exec (xs @ ys) s = andthen (exec_stmts exec xs s) (exec_stmts exec ys)"
proof (induction xs arbitrary: s)
  case (Cons x xs)
  then show ?case by (cases "exec x s") (simp_all add: exec_stmts.simps(2))
qed simp

lemma count_loop:
  "unat (cs_regs s 1 - 1) < m \<Longrightarrow>
     \<exists>s'. exec_loop m (\<lambda>s. cr_next (count_step s)) (Some c_not_equal) s = cr_next s' \<and> cs_host s' = cs_host s"
proof (induction m arbitrary: s)
  case (Suc m)
  show ?case
  proof (cases "cs_regs s 1 = 1")
    case True
    then show ?thesis by (simp add: branch_taken_def)
  next
    case False
    then have "unat (cs_regs s 1 - 1 - 1) < unat (cs_regs s 1 - 1)"
      by (intro less_predecessor) simp
    with Suc.prems have "unat (cs_regs (count_step s) 1 - 1) < m" by simp
    from Suc.IH [OF this] False show ?thesis by (simp add: branch_taken_def)
  qed
qed simp

lemma countdown_runs:
  assumes "2 ^ 16 + 2 \<le> n"
  shows "\<exists>prog s. emit_c_source (com_image (countdown_program lo hi v)) = Inr prog \<and>
    run_c_program os n prog h = cr_exit (if le16 lo hi = 1 then v else 0) s \<and> cs_host s = h"
proof -
  let ?img = "com_image (countdown_program lo hi v)"
  obtain prog where prog: "emit_c_runtime ?img = Inr prog"
    "block_at prog 0 = Some (count_block (le16 lo hi))" "block_at prog 3 = Some loop_block"
    "block_at prog 6 = Some \<lparr>cb_label = 6, cb_loop = None, cb_body = [cs_set_word 0 (cv_const (le16 v 0x4c)), cs_int21]\<rparr>"
    "cp_main prog = write_main ?img"
    using countdown_emitted [of lo hi v] by blast
  obtain s where s: "load_main (write_main ?img) (c_init h) = cr_next s" "cs_host s = h"
    using com_image_loaded [of "countdown_program lo hi v" h] by (auto simp: countdown_program_def mem_size_def)
  define m where "m = n - 2"
  with assms have m: "n = Suc (Suc m)" "2 ^ 16 \<le> m" by simp_all
  let ?s1 = "count_step (set_reg 1 (le16 lo hi) s)"
  have host: "cs_host ?s1 = h" using s(2) by (simp add: set_reg_def)
  have enter: "run_block os prog n 0 s = returned (run_block os prog (Suc m) (if le16 lo hi = 1 then 6 else 3) ?s1)"
    using prog(2) m(1)
    by (subst m(1), subst run_block.simps)
      (simp add: count_block_def exec_stmts.simps(2) exec_stmts_append exec_count_body exec_stmt_def with_value_def
        branch_taken_def del: run_block.simps)
  have "\<exists>s'. cs_host s' = h \<and>
      run_block os prog n 0 s = (if le16 lo hi = 1 then cr_exit v s' else cr_next s')"
  proof (cases "le16 lo hi = 1")
    case True
    with enter exit_block_runs [OF prog(4), of os m ?s1] host show ?thesis by auto
  next
    case False
    have "unat (cs_regs ?s1 1 - 1) < m"
      using unsigned_less [of "cs_regs ?s1 1 - 1", where ?'a = nat] m(2) by simp
    from count_loop [OF this] obtain s' where
      "exec_loop m (\<lambda>s. cr_next (count_step s)) (Some c_not_equal) ?s1 = cr_next s'" "cs_host s' = h"
      using host by auto
    with False enter prog(3) show ?thesis
      by (simp add: loop_block_def exec_count_body)
  qed
  then obtain s' where "cs_host s' = h" "run_block os prog n 0 s = (if le16 lo hi = 1 then cr_exit v s' else cr_next s')"
    by blast
  moreover have "cm_entry (write_main ?img) = 0" by (simp add: write_main_def)
  ultimately show ?thesis
    using prog(1,5) s(1) by (auto simp: emit_c_source_def run_c_program_def simp del: run_block.simps)
qed

end
