(* ===== verification/CppBackend.thy ===== *)
theory CppBackend
  imports CfgFacts BinaryLoader
begin

text \<open>
  \<open>compiler/cpp_backend\<close>: the printer of readable C++. It decodes linearly from the first block of the
  graph to the first interrupt or return and prints one line for each instruction. The printed text is
  modelled by the line forms of \<open>emit_instruction\<close>; the fixed text around them by the names it declares.
\<close>

section \<open>Lines\<close>

datatype cpp_line =
  cl_move operand_width register_name u16
| cl_interrupt
| cl_return
| cl_arithmetic operand_width register_name alu_operation u16
| cl_compare operand_width register_name u16
| cl_unsupported byte

datatype cpp_error = CppCannotBuildCfg cfg_error | CppNoBlocks | CppCannotDecode nat decode_error

text \<open>\<open>emit_instruction\<close>; the state \<open>es\<close> that it gets is only printed to.\<close>

definition emit_instruction :: "byte list \<Rightarrow> nat \<Rightarrow> instruction \<Rightarrow> cpp_line" where
  "emit_instruction bytes offset i =
     (let dst = fst (ins_operands i); src = snd (ins_operands i)
      in if ins_kind i = k_move_immediate \<and> ins_operand_count i = 2 \<and> op_kind dst = o_reg then
           cl_move (op_width dst) (op_reg dst)
             (if op_width dst = w_byte then op_immediate src AND 0xff else op_immediate src)
         else if ins_kind i = k_interrupt then cl_interrupt
         else if ins_kind i = k_return then cl_return
         else if ins_kind i = k_arithmetic \<and> ins_operand_count i = 2 \<and> op_kind dst = o_reg \<and>
                 op_kind src = o_immediate then
           cl_arithmetic (op_width dst) (op_reg dst) (ins_alu i) (op_immediate src)
         else if ins_kind i = k_compare \<and> ins_operand_count i = 2 \<and> op_kind dst = o_reg \<and>
                 op_kind src = o_immediate then
           cl_compare (op_width dst) (op_reg dst) (op_immediate src)
         else cl_unsupported (bytes ! offset))"

definition cpp_ends :: "instruction_kind \<Rightarrow> bool" where
  "cpp_ends kind \<longleftrightarrow> kind = k_interrupt \<or> kind = k_return"

function cpp_lines :: "byte list \<Rightarrow> nat \<Rightarrow> (cpp_error, cpp_line list) res" where
  "cpp_lines bytes position =
     (if position \<ge> length bytes then Inr []
      else bindE (wrapE (CppCannotDecode position) (decode_at bytes position)) (\<lambda>i.
        if cpp_ends (ins_kind i) then Inr [emit_instruction bytes position i]
        else bindE (cpp_lines bytes (position + ins_size i)) (\<lambda>rest.
               Inr (emit_instruction bytes position i # rest))))"
  by pat_completeness auto
termination
  by (relation "measure (\<lambda>(bytes, position). length bytes - position)") (auto dest: dec.dec_progress)

declare cpp_lines.simps [simp del]

definition cpp_emit :: "program_image \<Rightarrow> (cpp_error, cpp_line list) res" where
  "cpp_emit img =
     bindE (wrapE CppCannotBuildCfg (build (img_bytes img) (entry_offset img))) (\<lambda>graph.
       case graph of
         [] \<Rightarrow> Inl (Fail CppNoBlocks)
       | b # _ \<Rightarrow> cpp_lines (img_bytes img) (bb_start b))"

section \<open>Names\<close>

text \<open>What a name of the printed program is used as.\<close>

datatype name_use = variable | callee

fun register_text :: "register_name \<Rightarrow> string" where
  "register_text R_al = ''al''" | "register_text R_cl = ''cl''" | "register_text R_dl = ''dl''"
| "register_text R_bl = ''bl''" | "register_text R_ah = ''ah''" | "register_text R_ch = ''ch''"
| "register_text R_dh = ''dh''" | "register_text R_bh = ''bh''" | "register_text R_ax = ''ax''"
| "register_text R_cx = ''cx''" | "register_text R_dx = ''dx''" | "register_text R_bx = ''bx''"
| "register_text R_sp = ''sp''" | "register_text R_bp = ''bp''" | "register_text R_si = ''si''"
| "register_text R_di = ''di''" | "register_text R_es = ''es''" | "register_text R_cs = ''cs''"
| "register_text R_ss = ''ss''" | "register_text R_ds = ''ds''"

definition reg_name :: "register_name \<Rightarrow> operand_width \<Rightarrow> string" where
  "reg_name reg width = (if width = w_byte then ''u8_'' else ''u16_'') @ register_text reg"

text \<open>The operator with what follows it up to the immediate: \<open>adc\<close> and \<open>sbb\<close> name a carry.\<close>

fun alu_op :: "alu_operation \<Rightarrow> string" where
  "alu_op a_add = ''+''" | "alu_op a_subtract = ''-''" | "alu_op a_and = ''&''"
| "alu_op a_or = ''|''" | "alu_op a_xor = ''^''" | "alu_op a_adc = ''+carry''"
| "alu_op a_sbb = ''-borrow''" | "alu_op _ = ''?''"

text \<open>The declarations that \<open>emit\<close> prints before \<open>main\<close>.\<close>

definition cpp_declared :: "(string \<times> name_use) list" where
  "cpp_declared =
     [(''ax'', variable), (''bx'', variable), (''cx'', variable), (''dx'', variable), (''si'', variable),
      (''di'', variable), (''sp'', variable), (''bp'', variable), (''flags'', variable),
      (''al'', callee), (''ah'', callee), (''set_al'', callee), (''set_ah'', callee),
      (''cmp_byte'', callee), (''cmp_word'', callee), (''dos_int21'', callee)]"

fun line_uses :: "cpp_line \<Rightarrow> (string \<times> name_use) list" where
  "line_uses (cl_move width reg v) = [(reg_name reg width, variable)]"
| "line_uses cl_interrupt = [(''dos_int21'', callee), (''ax'', callee), (''dx'', callee)]"
| "line_uses cl_return = [(''al'', callee)]"
| "line_uses (cl_arithmetic width reg alu v) = (reg_name reg width, variable) #
     (if alu = a_adc then [(''carry'', variable)] else if alu = a_sbb then [(''borrow'', variable)] else [])"
| "line_uses (cl_compare width reg v) =
     [(''flags'', variable), (if width = w_byte then ''cmp_byte'' else ''cmp_word'', callee),
      (reg_name reg width, variable)]"
| "line_uses (cl_unsupported b) = []"

text \<open>Every name is declared as what it is used as.\<close>

definition line_declared :: "cpp_line \<Rightarrow> bool" where
  "line_declared line \<longleftrightarrow> set (line_uses line) \<subseteq> set cpp_declared"

section \<open>Facts\<close>

lemma reg_name_undeclared: "(reg_name reg width, use) \<notin> set cpp_declared"
  by (cases reg; cases width) (simp_all add: reg_name_def cpp_declared_def)

lemma line_declared_iff: "line_declared line \<longleftrightarrow> line = cl_return \<or> (\<exists>b. line = cl_unsupported b)"
  by (cases line) (auto simp: line_declared_def reg_name_undeclared, auto simp: cpp_declared_def)

text \<open>The instructions that are not printed as a comment or as a return.\<close>

definition prints_code :: "instruction \<Rightarrow> bool" where
  "prints_code i \<longleftrightarrow>
     ins_kind i = k_interrupt \<or>
     ins_operand_count i = 2 \<and> op_kind (fst (ins_operands i)) = o_reg \<and>
       (ins_kind i = k_move_immediate \<or>
        (ins_kind i = k_arithmetic \<or> ins_kind i = k_compare) \<and> op_kind (snd (ins_operands i)) = o_immediate)"

lemma declared_emitted: "line_declared (emit_instruction bytes p i) \<longleftrightarrow> \<not> prints_code i"
  by (auto simp: line_declared_iff emit_instruction_def prints_code_def Let_def)

text \<open>The instructions that the printer visits: linearly from a position to the first that ends it.\<close>

function linear_run :: "byte list \<Rightarrow> nat \<Rightarrow> (nat \<times> instruction) list" where
  "linear_run bytes position =
     (if position \<ge> length bytes then []
      else (case decode_at bytes position of
          Inl _ \<Rightarrow> []
        | Inr i \<Rightarrow> (position, i) # (if cpp_ends (ins_kind i) then [] else linear_run bytes (position + ins_size i))))"
  by pat_completeness auto
termination
  by (relation "measure (\<lambda>(bytes, position). length bytes - position)") (auto dest: dec.dec_progress)

declare linear_run.simps [simp del]

lemma cpp_lines_linear:
  "cpp_lines bytes position = Inr lines \<Longrightarrow>
     lines = map (\<lambda>(p, i). emit_instruction bytes p i) (linear_run bytes position)"
proof (induction bytes position arbitrary: lines rule: cpp_lines.induct)
  case (1 bytes position)
  show ?case
  proof (cases "position \<ge> length bytes")
    case True
    with 1(2) show ?thesis by (simp add: cpp_lines.simps [of bytes position] linear_run.simps [of bytes position])
  next
    case False
    with 1(2) obtain i where i: "decode_at bytes position = Inr i"
      by (auto simp: cpp_lines.simps [of bytes position] bindE_eq_Inr)
    show ?thesis
    proof (cases "cpp_ends (ins_kind i)")
      case True
      with 1(2) False i show ?thesis
        by (simp add: cpp_lines.simps [of bytes position] linear_run.simps [of bytes position])
    next
      case more: False
      with 1(2) False i obtain rest where rest: "cpp_lines bytes (position + ins_size i) = Inr rest"
        "lines = emit_instruction bytes position i # rest"
        by (auto simp: cpp_lines.simps [of bytes position] bindE_eq_Inr)
      have "rest = map (\<lambda>(p, i). emit_instruction bytes p i) (linear_run bytes (position + ins_size i))"
        using 1(1) [OF False _ more rest(1)] i by simp
      with rest(2) False i more show ?thesis by (simp add: linear_run.simps [of bytes position])
    qed
  qed
qed

text \<open>The printer fails only where the run reaches an instruction that does not decode.\<close>

lemma cpp_lines_safe: "cpp_lines bytes position = Inl Undefined \<Longrightarrow> \<exists>p. decode_at bytes p = Inl Undefined"
proof (induction bytes position rule: cpp_lines.induct)
  case (1 bytes position)
  then show ?case
    by (auto simp: cpp_lines.simps [of bytes position] bindE_eq_Inl wrapE_eq_Undefined split: if_split_asm)
qed

lemma emit_interrupt: "ins_kind i = k_interrupt \<Longrightarrow> emit_instruction bytes p i = cl_interrupt"
  by (simp add: emit_instruction_def)

lemma cpp_emit_lines:
  assumes "cpp_emit img = Inr lines"
  shows "\<exists>graph start. build (img_bytes img) (entry_offset img) = Inr graph \<and> start = bb_start (hd graph) \<and>
    start \<le> entry_offset img \<and>
    lines = map (\<lambda>(p, i). emit_instruction (img_bytes img) p i) (linear_run (img_bytes img) start)"
proof -
  obtain b bs where graph: "build (img_bytes img) (entry_offset img) = Inr (b # bs)"
    and lines: "cpp_lines (img_bytes img) (bb_start b) = Inr lines"
  proof -
    from assms obtain graph where g: "build (img_bytes img) (entry_offset img) = Inr graph"
      and "(case graph of [] \<Rightarrow> Inl (Fail CppNoBlocks) | b # bs \<Rightarrow> cpp_lines (img_bytes img) (bb_start b)) = Inr lines"
      by (auto simp: cpp_emit_def bindE_eq_Inr)
    with that show ?thesis by (cases graph) simp_all
  qed
  have "good_graph (img_bytes img) (entry_offset img) (b # bs)" by (rule build_good [OF graph])
  then have "bb_start b \<le> entry_offset img"
    by (auto simp: good_graph_def sound_starts_def block_starts_def)
  with graph cpp_lines_linear [OF lines] show ?thesis by auto
qed

end
