(* ===== verification/LlvmText.thy ===== *)
theory LlvmText
  imports StraightFacts TranslatorFacts StraightPrograms
begin

text \<open>
  \<open>straight_line_compiler::emit_llvm\<close> and \<open>exit_program_compiler::emit_llvm\<close>: the textual LLVM IR. A
  linear walk from the first block translates each instruction into the SSA table and prints the value
  of its effect, until an interrupt gives the exit code. The text is modelled by its instruction lines
  and the returned code; \<open>llvm_trace\<close> keeps with each printed line the instruction that it is for.
\<close>

section \<open>Printing\<close>

text \<open>A value name \<open>%reg_id\<close> is a register and an id.\<close>

datatype llvm_line =
  ll_constant "register_id \<times> nat" u16
| ll_operation "register_id \<times> nat" operation_kind "register_id \<times> nat" "register_id \<times> nat"

datatype llvm_error = LlvmFailed straight_line_error | NonExitInterrupt | MustTerminate

definition value_name :: "ssa_value \<Rightarrow> register_id \<times> nat" where
  "value_name v = (sv_reg v, sv_id v)"

text \<open>\<open>compare\<close> is printed as \<open>sub\<close>, \<open>test\<close> as \<open>and\<close>.\<close>

fun llvm_operator :: "operation_kind \<Rightarrow> string" where
  "llvm_operator op_add = ''add''" | "llvm_operator op_subtract = ''sub''" | "llvm_operator op_and = ''and''"
| "llvm_operator op_or = ''or''" | "llvm_operator op_xor = ''xor''" | "llvm_operator op_compare = ''sub''"
| "llvm_operator op_test = ''and''"

definition print_value :: "ssa_table \<Rightarrow> nat \<Rightarrow> ('e, llvm_line list) res" where
  "print_value vs n =
     bindE (at vs n) (\<lambda>v.
       case sv_constant v of
         Some c \<Rightarrow> Inr [ll_constant (value_name v) c]
       | None \<Rightarrow>
           (case (sv_operation v, sv_inputs v) of
              (Some operation, [l, r]) \<Rightarrow>
                bindE (at vs l) (\<lambda>left. bindE (at vs r) (\<lambda>right.
                  Inr [ll_operation (value_name v) operation (value_name left) (value_name right)]))
            | _ \<Rightarrow> Inr []))"

section \<open>The exit code\<close>

text \<open>The loop over first inputs; 0 where it ends without a constant.\<close>

partial_function (option) first_constant :: "ssa_table \<Rightarrow> nat \<Rightarrow> u16 option" where
  "first_constant vs cursor =
     (if cursor < length vs then
        (case sv_constant (vs ! cursor) of
           Some c \<Rightarrow> Some c
         | None \<Rightarrow> (case sv_inputs (vs ! cursor) of [] \<Rightarrow> Some 0 | x # _ \<Rightarrow> first_constant vs x))
      else Some 0)"

definition constant_of :: "machine \<Rightarrow> register_id \<Rightarrow> (llvm_error, u16) partial" where
  "constant_of m r = map_option Inr (first_constant (mc_table m) (mc_state m r))"

definition llvm_exit :: "machine \<Rightarrow> (llvm_error, byte) partial" where
  "llvm_exit m =
     bindP (constant_of m V_ah) (\<lambda>ah_const.
     bindP (constant_of m V_ax) (\<lambda>ax_const.
       if (if ah_const \<noteq> 0 \<or> mc_state m V_ah = mc_state m V_ax then lo8 ah_const else hi8 ax_const) \<noteq> 0x4c
       then failP NonExitInterrupt
       else bindP (constant_of m V_al) (\<lambda>al_const.
         Some (Inr (if al_const \<noteq> 0 \<or> mc_state m V_al = mc_state m V_ax then lo8 al_const
                    else lo8 (case mc_registers m of Some r \<Rightarrow> r R_ax | None \<Rightarrow> 0))))))"

section \<open>The walk\<close>

definition llvm_step :: "byte list \<Rightarrow> nat \<Rightarrow> instruction \<Rightarrow> machine \<Rightarrow> (llvm_error, llvm_line list \<times> machine) res" where
  "llvm_step bytes position i m =
     bindE (wrapE (\<lambda>e. LlvmFailed (CannotTranslate position e)) (translate bytes i m 0)) (\<lambda>(e, m').
       bindE (print_value (mc_table m') (ef_ssa_value e)) (\<lambda>lines. Inr (lines, m')))"

function llvm_trace ::
  "byte list \<Rightarrow> nat \<Rightarrow> machine \<Rightarrow> (llvm_error, (instruction \<times> llvm_line list) list \<times> byte) partial" where
  "llvm_trace bytes position m =
     (if position \<ge> length bytes then failP MustTerminate
      else (case decode_at bytes position of
          Inl e \<Rightarrow> Some (wrapE (\<lambda>e. LlvmFailed (CannotDecode position e)) (Inl e))
        | Inr i \<Rightarrow>
            if ins_kind i = k_interrupt then bindP (llvm_exit m) (\<lambda>v. Some (Inr ([], v)))
            else (case llvm_step bytes position i m of
                Inl e \<Rightarrow> Some (Inl e)
              | Inr (lines, m') \<Rightarrow>
                  bindP (llvm_trace bytes (position + ins_size i) m') (\<lambda>(rest, v).
                    Some (Inr ((i, lines) # rest, v))))))"
  by pat_completeness auto
termination
  by (relation "measure (\<lambda>(bytes, position, m). length bytes - position)") (auto dest: dec.dec_progress)

declare llvm_trace.simps [simp del]

definition llvm_machine :: "real_mode_memory \<Rightarrow> machine" where
  "llvm_machine memory = \<lparr>mc_table = builder_init, mc_state = entry_state,
     mc_registers = Some ((\<lambda>_. 0)(R_sp := 0xfffe)), mc_memory = Some memory\<rparr>"

definition straight_line_llvm ::
  "program_image \<Rightarrow> (llvm_error, (instruction \<times> llvm_line list) list \<times> byte) partial" where
  "straight_line_llvm img =
     bindP (Some (wrapE (\<lambda>e. LlvmFailed (CannotBuildCfg e)) (build (img_bytes img) (entry_offset img)))) (\<lambda>graph.
     bindP (Some (wrapE (\<lambda>e. LlvmFailed (CannotLowerIr e)) (lower graph))) (\<lambda>_.
       case graph of
         [] \<Rightarrow> failP (LlvmFailed NoReachableBlocks)
       | b # _ \<Rightarrow>
           bindP (Some (wrapE LlvmFailed (load_memory img))) (\<lambda>memory.
             llvm_trace (img_bytes img) (bb_start b) (llvm_machine memory))))"

text \<open>The exit compiler prints a module that only returns the code.\<close>

definition exit_llvm :: "program_image \<Rightarrow> (exit_error, llvm_line list \<times> byte) res" where
  "exit_llvm img = bindE (exit_extract_code img) (\<lambda>code. Inr ([], code))"

definition branching_llvm ::
  "program_image \<Rightarrow> (llvm_error, (instruction \<times> llvm_line list) list \<times> byte) partial" where
  "branching_llvm img = straight_line_llvm img"

section \<open>Termination\<close>

lemma first_constant_total: "ssa_wf vs \<Longrightarrow> first_constant vs n \<noteq> None"
proof (induction n rule: less_induct)
  case (less n)
  show ?case
  proof (cases "n < length vs")
    case True
    show ?thesis
    proof (cases "sv_constant (vs ! n) = None \<and> sv_inputs (vs ! n) \<noteq> []")
      case True
      then obtain x xs where x: "sv_inputs (vs ! n) = x # xs" by (cases "sv_inputs (vs ! n)") auto
      with ssa_wf_input [OF less.prems \<open>n < length vs\<close>, of x] have "x < n" by simp
      from less.IH [OF this less.prems] True x show ?thesis
        by (subst first_constant.simps) simp
    qed (subst first_constant.simps, auto split: option.split list.split)
  qed (subst first_constant.simps, simp)
qed

lemma constant_of_total: "machine_wf m \<Longrightarrow> \<exists>c. constant_of m r = Some (Inr c)"
  using first_constant_total by (fastforce simp: constant_of_def machine_wf_def)

lemma llvm_exit_total: "machine_wf m \<Longrightarrow> llvm_exit m \<noteq> None"
  using constant_of_total [of m V_ah] constant_of_total [of m V_ax] constant_of_total [of m V_al]
  by (auto simp: llvm_exit_def failP_def)

lemma llvm_step_wf:
  "llvm_step bytes position i m = Inr (lines, m') \<Longrightarrow> machine_wf m \<Longrightarrow>
     machine_wf m' \<and> length (mc_table m) \<le> length (mc_table m')"
  using translate_translated by (fastforce simp: llvm_step_def bindE_eq_Inr translated_def dest: extends_length)

lemma llvm_trace_total: "machine_wf m \<Longrightarrow> llvm_trace bytes position m \<noteq> None"
proof (induction bytes position m rule: llvm_trace.induct)
  case (1 bytes position m)
  have rest: "bindP r (\<lambda>(rest, v). Some (Inr ((i, lines) # rest, v))) \<noteq> None"
    if "r \<noteq> None" for r :: "(llvm_error, (instruction \<times> llvm_line list) list \<times> byte) partial" and i lines
    using that by (auto simp: bindP_def split: sum.split)
  have exit: "bindP (llvm_exit m) (\<lambda>v. Some (Inr ([], v))) \<noteq> (None :: (llvm_error, (instruction \<times> llvm_line list) list \<times> byte) partial)"
    using llvm_exit_total [OF 1(2)] by (auto simp: bindP_def split: sum.split)
  show ?case
    using 1 exit rest llvm_step_wf
    by (fastforce simp: llvm_trace.simps [of bytes position] failP_def split: sum.split prod.split)
qed

lemma start_machine_llvm_wf: "machine_wf (llvm_machine memory)"
  using builder_init_wf
  by (simp add: machine_wf_def llvm_machine_def operations_wf_def builder_init_def entry_value_def)

lemma straight_line_llvm_total: "straight_line_llvm img \<noteq> None"
  using llvm_trace_total [OF start_machine_llvm_wf]
  by (auto simp: straight_line_llvm_def bindP_def failP_def split: sum.split list.split)

section \<open>Names\<close>

definition line_name :: "llvm_line \<Rightarrow> register_id \<times> nat" where
  "line_name line = (case line of ll_constant x c \<Rightarrow> x | ll_operation x operation l r \<Rightarrow> x)"

definition line_ids :: "llvm_line list \<Rightarrow> nat list" where
  "line_ids lines = map (snd \<circ> line_name) lines"

text \<open>The value of an effect is the last one of the table, and new.\<close>

lemma define_effect_new:
  "define_effect m r v access regs mem = Inr (e, m') \<Longrightarrow>
     ef_ssa_value e = length (mc_table m) \<and> length (mc_table m') = Suc (length (mc_table m))"
  by (auto simp: define_effect_Inr define_constant_def dest: push_value_table)

lemma copy_register_new:
  "copy_register d b m = Inr (e, m') \<Longrightarrow>
     ef_ssa_value e = length (mc_table m) \<and> length (mc_table m') = Suc (length (mc_table m))"
  by (auto simp: copy_register_def failed_def bindE_eq_Inr ssa_define_def dest!: push_value_table
      split: option.split_asm)

lemma translate_arithmetic_new:
  assumes "translate_arithmetic i m = Inr (e, m')"
  shows "length (mc_table m) \<le> ef_ssa_value e \<and> length (mc_table m') = Suc (ef_ssa_value e)"
proof -
  obtain a b where ab: "ins_operands i = (a, b)" by fastforce
  obtain d oper vs s ws st n regs where src: "arithmetic_source m d b = Inr (vs, s)"
    and op': "define_operation vs (mc_state m) (result_register oper d) oper [mc_state m d, s] =
      (Inr (ws, st, n) :: translation_error ssa_result)"
    and x: "(e, m') = (\<lparr>ef_destination = result_register oper d, ef_ssa_value = n, ef_immediate = None,
        ef_memory = None\<rparr>, m\<lparr>mc_table := ws, mc_state := st, mc_registers := regs\<rparr>)"
    using translate_arithmetic_Inr [OF assms ab] by metis
  have "length (mc_table m) \<le> length vs"
    using src by (auto simp: arithmetic_source_def ssa_constant_def failed_def split: if_split_asm option.split_asm)
  moreover have "ws = vs @ [ws ! length vs] \<and> n = length vs"
    using op' push_value_table by (fastforce simp: define_operation_def)
  moreover have "ef_ssa_value e = n" "mc_table m' = ws" using x by simp_all
  ultimately show ?thesis by (metis length_append_singleton)
qed

lemma translate_new:
  assumes "translate code i m segment = Inr (e, m')"
  shows "length (mc_table m) \<le> ef_ssa_value e \<and> length (mc_table m') = Suc (ef_ssa_value e)"
proof -
  obtain a b where ab: "ins_operands i = (a, b)" by fastforce
  have load: "?thesis" if "translate_load d w b m segment = Inr (e, m')" for d w
    using that define_effect_new by (fastforce simp: translate_load_def with_concrete_Inr bindE_eq_Inr)
  have move: ?thesis if "translate_move i m segment = Inr (e, m')"
    using that load define_effect_new copy_register_new
    by (fastforce simp: translate_move_def ab failed_def translate_store_fails split: if_split_asm option.split_asm)
  have stack: ?thesis if "translate_call i m segment = Inr (e, m') \<or> translate_return code i m segment = Inr (e, m') \<or>
      translate_stack i m segment = Inr (e, m')"
    using that define_effect_new
    by (fastforce simp: translate_call_def translate_return_def translate_stack_def translate_pop_def
        translate_push_def with_concrete_Inr bindE_eq_Inr Let_def failed_def split: if_split_asm option.split_asm)
  from assms move stack translate_arithmetic_new show ?thesis
    by (auto simp: translate_def failed_def split: if_split_asm)
qed

lemma print_value_id:
  assumes "print_value vs n = Inr lines" and "ssa_wf vs" and "n < length vs"
  shows "line_ids lines = [] \<or> line_ids lines = [n]"
  using assms
  by (auto simp: print_value_def bindE_eq_Inr line_ids_def line_name_def value_name_def ssa_wf_id
      split: option.split_asm list.split_asm)

lemma llvm_step_ids:
  assumes "llvm_step bytes position i m = Inr (lines, m')" and "machine_wf m"
  shows "\<exists>n. length (mc_table m) \<le> n \<and> length (mc_table m') = Suc n \<and> (line_ids lines = [] \<or> line_ids lines = [n])"
proof -
  obtain e where e: "translate bytes i m 0 = Inr (e, m')"
    "print_value (mc_table m') (ef_ssa_value e) = (Inr lines :: (llvm_error, llvm_line list) res)"
    using assms(1) by (auto simp: llvm_step_def bindE_eq_Inr)
  note n = translate_new [OF e(1)]
  have "ssa_wf (mc_table m')"
    using llvm_step_wf [OF assms] by (simp add: machine_wf_def)
  from print_value_id [OF e(2) this] n show ?thesis by auto
qed

definition text_of :: "(instruction \<times> llvm_line list) list \<Rightarrow> llvm_line list" where
  "text_of trace = concat (map snd trace)"

lemma text_of_simps [simp]: "text_of [] = []" "text_of ((i, lines) # rest) = lines @ text_of rest"
  by (simp_all add: text_of_def)

lemma line_ids_append [simp]: "line_ids [] = []" "line_ids (xs @ ys) = line_ids xs @ line_ids ys"
  by (simp_all add: line_ids_def)

text \<open>A successful round of the walk, taken apart.\<close>

lemma llvm_trace_cases:
  assumes "llvm_trace bytes position m = Some (Inr (trace, v))"
  obtains (exit) "trace = []" and "llvm_exit m = Some (Inr v)"
  | (step) i lines m' rest where "decode_at bytes position = Inr i" and "llvm_step bytes position i m = Inr (lines, m')"
      and "llvm_trace bytes (position + ins_size i) m' = Some (Inr (rest, v))" and "trace = (i, lines) # rest"
  using assms that
  by (auto simp: llvm_trace.simps [of bytes position] failP_def bindP_eq_Inr split: if_split_asm sum.split_asm)

lemma llvm_trace_ids:
  "llvm_trace bytes position m = Some (Inr (trace, v)) \<Longrightarrow> machine_wf m \<Longrightarrow>
     sorted_wrt (<) (line_ids (text_of trace)) \<and> (\<forall>n \<in> set (line_ids (text_of trace)). length (mc_table m) \<le> n)"
proof (induction trace arbitrary: position m)
  case (Cons p rest)
  from Cons.prems(1) obtain i lines m' where step: "llvm_step bytes position i m = Inr (lines, m')"
    and rest: "llvm_trace bytes (position + ins_size i) m' = Some (Inr (rest, v))" and p: "p = (i, lines)"
    by (rule llvm_trace_cases) auto
  obtain n where n: "length (mc_table m) \<le> n" "length (mc_table m') = Suc n"
    "line_ids lines = [] \<or> line_ids lines = [n]"
    using llvm_step_ids [OF step Cons.prems(2)] by blast
  from Cons.IH [OF rest] llvm_step_wf [OF step Cons.prems(2)] n p show ?case
    by (fastforce simp: sorted_wrt_append)
qed simp

text \<open>The right operand of an instruction with an immediate is a constant that no line defines.\<close>

lemma define_effect_plain:
  "define_effect m r v access regs mem = Inr (e, m') \<Longrightarrow> sv_operation (mc_table m' ! ef_ssa_value e) = None"
  by (auto simp: define_effect_Inr define_constant_def constant_value_def dest!: push_value_table)

lemma copy_register_plain:
  "copy_register d b m = Inr (e, m') \<Longrightarrow> sv_operation (mc_table m' ! ef_ssa_value e) = None"
  by (auto simp: copy_register_def failed_def bindE_eq_Inr ssa_define_def dest!: push_value_table
      split: option.split_asm)

lemma translate_plain:
  assumes "translate code i m segment = Inr (e, m')" and "\<not> is_register_arithmetic i"
  shows "sv_operation (mc_table m' ! ef_ssa_value e) = None"
proof -
  obtain a b where ab: "ins_operands i = (a, b)" by fastforce
  have load: "?thesis" if "translate_load d w b m segment = Inr (e, m')" for d w
    using that define_effect_plain by (fastforce simp: translate_load_def with_concrete_Inr bindE_eq_Inr)
  have move: ?thesis if "translate_move i m segment = Inr (e, m')"
    using that load define_effect_plain copy_register_plain
    by (fastforce simp: translate_move_def ab failed_def translate_store_fails split: if_split_asm option.split_asm)
  have stack: ?thesis if "translate_call i m segment = Inr (e, m') \<or> translate_return code i m segment = Inr (e, m') \<or>
      translate_stack i m segment = Inr (e, m')"
    using that define_effect_plain
    by (fastforce simp: translate_call_def translate_return_def translate_stack_def translate_pop_def
        translate_push_def with_concrete_Inr bindE_eq_Inr Let_def failed_def split: if_split_asm option.split_asm)
  from assms move stack show ?thesis by (auto simp: translate_def failed_def split: if_split_asm)
qed

lemma print_value_operation:
  "print_value vs n = Inr [ll_operation x operation l r] \<Longrightarrow>
     n < length vs \<and> sv_operation (vs ! n) = Some operation \<and>
     (\<exists>a b. sv_inputs (vs ! n) = [a, b] \<and> b < length vs \<and> r = value_name (vs ! b))"
  by (auto simp: print_value_def bindE_eq_Inr at_eq_Inr split: option.split_asm list.split_asm)

lemma translate_immediate:
  assumes "translate_arithmetic i m = Inr (e, m')" and "op_kind (snd (ins_operands i)) = o_immediate"
  shows "\<exists>a. sv_inputs (mc_table m' ! ef_ssa_value e) = [a, length (mc_table m)] \<and>
    sv_id (mc_table m' ! length (mc_table m)) = length (mc_table m) \<and>
    length (mc_table m') = Suc (Suc (length (mc_table m)))"
proof -
  obtain a b where ab: "ins_operands i = (a, b)" by fastforce
  obtain d oper vs s ws st n regs where src: "arithmetic_source m d b = Inr (vs, s)"
    and op': "define_operation vs (mc_state m) (result_register oper d) oper [mc_state m d, s] =
      (Inr (ws, st, n) :: translation_error ssa_result)"
    and x: "(e, m') = (\<lparr>ef_destination = result_register oper d, ef_ssa_value = n, ef_immediate = None,
        ef_memory = None\<rparr>, m\<lparr>mc_table := ws, mc_state := st, mc_registers := regs\<rparr>)"
    using translate_arithmetic_Inr [OF assms(1) ab] by metis
  have "vs = mc_table m @ [constant_value (length (mc_table m)) d (op_immediate b)]" "s = length (mc_table m)"
    using src assms(2) ab by (auto simp: arithmetic_source_def ssa_constant_def)
  then show ?thesis
    using x op' by (auto simp: define_operation_def constant_value_def nth_append dest!: push_value_table)
qed

lemma llvm_step_immediate:
  assumes "llvm_step bytes position i m = Inr ([ll_operation x operation l r], m')" and "machine_wf m"
    and "op_kind (snd (ins_operands i)) = o_immediate"
  shows "snd r = length (mc_table m) \<and> length (mc_table m') = Suc (Suc (length (mc_table m)))"
proof -
  obtain e where e: "translate bytes i m 0 = Inr (e, m')"
    "print_value (mc_table m') (ef_ssa_value e) = (Inr [ll_operation x operation l r] :: (llvm_error, llvm_line list) res)"
    using assms(1) by (auto simp: llvm_step_def bindE_eq_Inr)
  note printed = print_value_operation [OF e(2)]
  then have "is_register_arithmetic i" using translate_plain [OF e(1)] by auto
  then have "translate_arithmetic i m = Inr (e, m')"
    using e(1) by (simp add: translate_def failed_def split: if_split_asm)
  from translate_immediate [OF this assms(3)] printed show ?thesis by (auto simp: value_name_def)
qed

lemma llvm_trace_immediate:
  "llvm_trace bytes position m = Some (Inr (trace, v)) \<Longrightarrow> machine_wf m \<Longrightarrow>
     (i, [ll_operation x operation l r]) \<in> set trace \<Longrightarrow> op_kind (snd (ins_operands i)) = o_immediate \<Longrightarrow>
     length (mc_table m) \<le> snd r \<and> snd r \<notin> set (line_ids (text_of trace))"
proof (induction trace arbitrary: position m)
  case (Cons p rest)
  from Cons.prems(1) obtain j lines m' where step: "llvm_step bytes position j m = Inr (lines, m')"
    and rest: "llvm_trace bytes (position + ins_size j) m' = Some (Inr (rest, v))" and p: "p = (j, lines)"
    by (rule llvm_trace_cases) auto
  have wf: "machine_wf m'" using llvm_step_wf [OF step Cons.prems(2)] by simp
  obtain n where n: "length (mc_table m) \<le> n" "length (mc_table m') = Suc n"
    "line_ids lines = [] \<or> line_ids lines = [n]"
    using llvm_step_ids [OF step Cons.prems(2)] by blast
  show ?case
  proof (cases "(i, [ll_operation x operation l r]) \<in> set rest")
    case True
    from Cons.IH [OF rest wf this Cons.prems(4)] n p show ?thesis by auto
  next
    case False
    with Cons.prems(3) p have "j = i" "lines = [ll_operation x operation l r]" by auto
    with llvm_step_immediate [of bytes position i m] step Cons.prems(2,4)
    have r: "snd r = length (mc_table m)" "n = Suc (length (mc_table m))" using n(2) by auto
    with llvm_trace_ids [OF rest wf] n p show ?thesis by fastforce
  qed
qed simp

lemma straight_line_llvm_trace:
  assumes "straight_line_llvm img = Some (Inr r)"
  shows "\<exists>start memory. llvm_trace (img_bytes img) start (llvm_machine memory) = Some (Inr r)"
proof -
  obtain graph :: control_flow_graph where "(case graph of [] \<Rightarrow> failP (LlvmFailed NoReachableBlocks)
      | b # _ \<Rightarrow> bindP (Some (wrapE LlvmFailed (load_memory img))) (\<lambda>memory.
          llvm_trace (img_bytes img) (bb_start b) (llvm_machine memory))) = Some (Inr r)"
    using assms by (auto simp: straight_line_llvm_def bindP_eq_Inr)
  then show ?thesis by (cases graph) (auto simp: failP_def bindP_eq_Inr)
qed

lemma llvm_text_facts:
  assumes "straight_line_llvm img = Some (Inr (trace, v))"
  shows "sorted_wrt (<) (line_ids (text_of trace))"
    and "(i, [ll_operation x operation l r]) \<in> set trace \<Longrightarrow> op_kind (snd (ins_operands i)) = o_immediate \<Longrightarrow>
      snd r \<notin> set (line_ids (text_of trace))"
proof -
  obtain start memory where t: "llvm_trace (img_bytes img) start (llvm_machine memory) = Some (Inr (trace, v))"
    using straight_line_llvm_trace [OF assms] by blast
  show "sorted_wrt (<) (line_ids (text_of trace))"
    using llvm_trace_ids [OF t start_machine_llvm_wf] by blast
  show "(i, [ll_operation x operation l r]) \<in> set trace \<Longrightarrow> op_kind (snd (ins_operands i)) = o_immediate \<Longrightarrow>
      snd r \<notin> set (line_ids (text_of trace))"
    using llvm_trace_immediate [OF t start_machine_llvm_wf] by blast
qed

end
