(* ===== verification/CommandLine.thy ===== *)
theory CommandLine
  imports BranchingCompiler CppBackend LlvmText
begin

text \<open>
  \<open>cli/main.cpp\<close>: the command line driver, which reads one file and prints or compiles it. A run gives
  the exit code and the list of its effects: what it prints, as the value printed, and the files it
  writes, those of the branching compiler in the directory for temporary files included. The host is a
  record: the file read, the host compiler and that directory, the files that the straight-line
  compiler reads, and which outputs can be written and made executable. \<open>None\<close> is a run that does not
  return, \<open>Undefined\<close> one with undefined behaviour.
\<close>

section \<open>Paths\<close>

text \<open>The name behind the last slash, and the name without its extension.\<close>

definition directory_part :: "string \<Rightarrow> string" where
  "directory_part path = rev (dropWhile (\<lambda>c. c \<noteq> CHR ''/'') (rev path))"

definition file_part :: "string \<Rightarrow> string" where
  "file_part path = rev (takeWhile (\<lambda>c. c \<noteq> CHR ''/'') (rev path))"

text \<open>What follows the dot is the extension, unless the dot is the first character or the name is \<open>..\<close>.\<close>

definition stem :: "string \<Rightarrow> string" where
  "stem name =
     (let before = dropWhile (\<lambda>c. c \<noteq> CHR ''.'') (rev name)
      in if name = ''..'' \<or> length before < 2 then name else rev (tl before))"

definition replace_extension :: "string \<Rightarrow> string \<Rightarrow> string" where
  "replace_extension path extension = directory_part path @ stem (file_part path) @ extension"

section \<open>Effects\<close>

datatype file_data = fd_bytes "byte list" | fd_c c_program | fd_cpp "cpp_line list"

datatype cli_event =
  ce_usage | ce_load_error load_error | ce_image program_image | ce_blocks nat
| ce_cpp "cpp_line list" | ce_cpp_error cpp_error | ce_llvm "llvm_line list" byte | ce_llvm_error llvm_error
| ce_cfg_error cfg_error | ce_ir "ir_block list" | ce_ir_error ir_error | ce_dot control_flow_graph
| ce_compiling | ce_no_output_path | ce_compile_error branching_error
| ce_file string file_data bool
| ce_build build_effect
| ce_cannot_write string | ce_cannot_make_executable string | ce_compiled nat | ce_wrote string

record cli_host =
  cli_file :: "string \<Rightarrow> file_contents"
  cli_build :: "c_program \<Rightarrow> host_build"
  cli_temporary :: string
  cli_host_file :: "byte list \<Rightarrow> byte list option"
  cli_writable :: "string \<Rightarrow> bool"
  cli_executable_bit :: "string \<Rightarrow> bool"

type_synonym cli_run = "(unit, cli_event list \<times> nat) partial"

definition ends :: "cli_event list \<Rightarrow> nat \<Rightarrow> cli_run" where
  "ends events code = Some (Inr (events, code))"

text \<open>Events before the rest of a run.\<close>

definition then_run :: "cli_event list \<Rightarrow> cli_run \<Rightarrow> cli_run" where
  "then_run events rest = bindP rest (\<lambda>(later, code). ends (events @ later) code)"

text \<open>The two branches of an \<open>std::expected\<close>.\<close>

definition on_result :: "('e, 'a) partial \<Rightarrow> ('e \<Rightarrow> cli_run) \<Rightarrow> ('a \<Rightarrow> cli_run) \<Rightarrow> cli_run" where
  "on_result r on_error on_value =
     (case r of
        None \<Rightarrow> None
      | Some (Inl Undefined) \<Rightarrow> Some (Inl Undefined)
      | Some (Inl (Fail e)) \<Rightarrow> on_error e
      | Some (Inr x) \<Rightarrow> on_value x)"

section \<open>The options\<close>

definition inspection_options :: "string list" where
  "inspection_options = [''--emit-cpp'', ''--emit-llvm'', ''--emit-cfg'', ''--emit-dot'', ''--emit-ir'']"

definition known_options :: "string list" where
  "known_options = [''--verbose'', ''--keep-cpp''] @ inspection_options"

definition option_of :: "string list \<Rightarrow> string" where
  "option_of args = (if length args = 3 then args ! 2 else if length args = 5 then args ! 4 else '''')"

definition explicit_output :: "string list \<Rightarrow> bool" where
  "explicit_output args \<longleftrightarrow> (length args = 4 \<or> length args = 5) \<and> args ! 2 = ''-o''"

definition wrong_usage :: "string list \<Rightarrow> bool" where
  "wrong_usage args \<longleftrightarrow> length args < 2 \<or> length args > 5 \<or>
     length args = 3 \<and> option_of args \<notin> set known_options \<or>
     (length args = 4 \<or> length args = 5) \<and> \<not> explicit_output args"

definition output_path :: "string list \<Rightarrow> string" where
  "output_path args = (if explicit_output args then args ! 3 else replace_extension (args ! 1) '''')"

section \<open>Compiling\<close>

text \<open>The executable and whether the branching compiler made it.\<close>

definition cli_executable :: "cli_host \<Rightarrow> program_image \<Rightarrow> (branching_error, byte list \<times> bool) partial" where
  "cli_executable host img =
     (case branching_compile (cli_build host) img of
        Inr data \<Rightarrow> Some (Inr (data, True))
      | Inl Undefined \<Rightarrow> Some (Inl Undefined)
      | Inl (Fail e) \<Rightarrow>
          (case straight_line_compile (cli_host_file host) img of
             None \<Rightarrow> None
           | Some (Inl Undefined) \<Rightarrow> Some (Inl Undefined)
           | Some (Inl (Fail _)) \<Rightarrow> failP e
           | Some (Inr data) \<Rightarrow> Some (Inr (data, False))))"

text \<open>The source that \<open>--keep-cpp\<close> writes; nothing where there is none.\<close>

definition write_source :: "cli_host \<Rightarrow> string \<Rightarrow> file_data \<Rightarrow> cli_event list" where
  "write_source host path data =
     (let ok = cli_writable host path in ce_file path data ok # (if ok then [ce_wrote path] else []))"

definition keep_source :: "cli_host \<Rightarrow> program_image \<Rightarrow> string \<Rightarrow> bool \<Rightarrow> cli_run" where
  "keep_source host img path from_branching =
     (if from_branching then
        on_result (Some (emit_c_source img)) (\<lambda>_. ends [] 0)
          (\<lambda>prog. ends (write_source host (replace_extension path ''.cpp'') (fd_c prog)) 0)
      else
        on_result (Some (cpp_emit img)) (\<lambda>_. ends [] 0)
          (\<lambda>lines. ends (write_source host (replace_extension path ''.cpp'') (fd_cpp lines)) 0))"

definition write_executable ::
  "cli_host \<Rightarrow> program_image \<Rightarrow> string \<Rightarrow> string \<Rightarrow> byte list \<Rightarrow> bool \<Rightarrow> cli_run" where
  "write_executable host img option path data from_branching =
     (if \<not> cli_writable host path then ends [ce_file path (fd_bytes data) False, ce_cannot_write path] 1
      else if \<not> cli_executable_bit host path then
        ends [ce_file path (fd_bytes data) True, ce_cannot_make_executable path] 1
      else then_run
        (ce_file path (fd_bytes data) True # (if option = ''--verbose'' then [ce_compiled (length data)] else []) @
           [ce_wrote path])
        (if option = ''--keep-cpp'' then keep_source host img path from_branching else ends [] 0))"

definition cli_compile :: "cli_host \<Rightarrow> string list \<Rightarrow> program_image \<Rightarrow> cli_run" where
  "cli_compile host args img =
     then_run (if option_of args = ''--verbose'' then [ce_compiling] else [])
       (if output_path args = '''' then ends [ce_no_output_path] 1
        else then_run (map ce_build (branching_effects (cli_temporary host) (cli_build host) img))
          (on_result (cli_executable host img) (\<lambda>e. ends [ce_compile_error e] 1)
             (\<lambda>(data, from_branching). write_executable host img (option_of args) (output_path args) data from_branching)))"

section \<open>Inspecting\<close>

definition print_graph :: "string \<Rightarrow> program_image \<Rightarrow> cli_run" where
  "print_graph option img =
     on_result (Some (build (img_bytes img) (entry_offset img))) (\<lambda>e. ends [ce_cfg_error e] 1) (\<lambda>graph.
       if option = ''--emit-ir'' then
         on_result (Some (lower graph)) (\<lambda>e. ends [ce_ir_error e] 1) (\<lambda>ir. ends [ce_ir ir] 0)
       else ends [ce_dot graph] 0)"

definition report :: "program_image \<Rightarrow> cli_run \<Rightarrow> cli_run" where
  "report img rest =
     on_result (Some (build (img_bytes img) (entry_offset img))) (\<lambda>_. then_run [ce_image img] rest)
       (\<lambda>graph. then_run [ce_image img, ce_blocks (length graph)] rest)"

definition cli_image :: "cli_host \<Rightarrow> string list \<Rightarrow> program_image \<Rightarrow> cli_run" where
  "cli_image host args img =
     (let option = option_of args
      in if option = ''--emit-cpp'' then
           on_result (Some (cpp_emit img)) (\<lambda>e. ends [ce_cpp_error e] 1) (\<lambda>lines. ends [ce_cpp lines] 0)
         else if option = ''--emit-llvm'' then
           on_result (straight_line_llvm img) (\<lambda>e. ends [ce_llvm_error e] 1)
             (\<lambda>(trace, code). ends [ce_llvm (text_of trace) code] 0)
         else if option \<in> {''--emit-cfg'', ''--emit-dot'', ''--emit-ir''} then print_graph option img
         else if option = ''--verbose'' then report img (cli_compile host args img)
         else cli_compile host args img)"

definition cli_main :: "cli_host \<Rightarrow> string list \<Rightarrow> cli_run" where
  "cli_main host args =
     (if wrong_usage args then ends [ce_usage] 2
      else on_result (Some (load_file (cli_file host (args ! 1)))) (\<lambda>e. ends [ce_load_error e] 1)
             (cli_image host args))"

section \<open>Facts\<close>

lemma ends_simps [simp]:
  "ends events code = Some (Inr (events', code')) \<longleftrightarrow> events = events' \<and> code = code'"
  "then_run events (ends events' code) = ends (events @ events') code"
  by (auto simp: ends_def then_run_def)

lemma then_run_eq_Inr:
  "then_run events rest = Some (Inr (events', code)) \<longleftrightarrow>
     (\<exists>later. rest = Some (Inr (later, code)) \<and> events' = events @ later)"
  by (auto simp: then_run_def bindP_eq_Inr)

lemma on_result_eq_Inr:
  "on_result r f g = Some (Inr x) \<longleftrightarrow>
     (\<exists>e. r = Some (Inl (Fail e)) \<and> f e = Some (Inr x)) \<or> (\<exists>y. r = Some (Inr y) \<and> g y = Some (Inr x))"
  by (auto simp: on_result_def split: option.split sum.split failure.split)

lemmas cli_eq_Inr = then_run_eq_Inr on_result_eq_Inr

lemma cli_main_code:
  assumes "cli_main host args = Some (Inr (events, code))"
  shows "code \<le> 2 \<and> (code = 2 \<longleftrightarrow> wrong_usage args)"
proof -
  have keep: "c = 0" if "keep_source host img path b = Some (Inr (es, c))" for img path b es c
    using that by (auto simp: keep_source_def cli_eq_Inr split: if_split_asm)
  have writes: "c \<le> 1" if "write_executable host img option path data b = Some (Inr (es, c))" for img option path data b es c
    using that keep by (fastforce simp: write_executable_def cli_eq_Inr split: if_split_asm)
  have comp: "c \<le> 1" if "cli_compile host args img = Some (Inr (es, c))" for img es c
    using that writes by (fastforce simp: cli_compile_def cli_eq_Inr split: if_split_asm)
  have "c \<le> 1" if "cli_image host args img = Some (Inr (es, c))" for img es c
    using that comp by (fastforce simp: cli_image_def Let_def print_graph_def report_def cli_eq_Inr split: if_split_asm)
  then show ?thesis
    using assms by (fastforce simp: cli_main_def cli_eq_Inr split: if_split_asm)
qed

text \<open>
  The files that a run itself opens for writing, in order. What the host's compiler writes, and the removal of an old
  executable, are the events \<open>ce_build\<close>.
\<close>

definition files_written :: "cli_event list \<Rightarrow> (string \<times> file_data) list" where
  "files_written events = concat (map (\<lambda>e. case e of
      ce_file path data ok \<Rightarrow> [(path, data)]
    | ce_build (be_write path source ok) \<Rightarrow> [(path, fd_c source)]
    | _ \<Rightarrow> []) events)"

definition host_compilations :: "cli_event list \<Rightarrow> (string \<times> string) list" where
  "host_compilations events =
     concat (map (\<lambda>e. case e of ce_build (be_host_compiler source exe) \<Rightarrow> [(source, exe)] | _ \<Rightarrow> []) events)"

lemma files_written_simps [simp]:
  "files_written [] = []" "files_written (xs @ ys) = files_written xs @ files_written ys"
  "files_written (e # es) = (case e of ce_file path data ok \<Rightarrow> [(path, data)]
     | ce_build (be_write path source ok) \<Rightarrow> [(path, fd_c source)] | _ \<Rightarrow> []) @ files_written es"
  by (simp_all add: files_written_def)

lemma host_compilations_simps [simp]:
  "host_compilations [] = []" "host_compilations (xs @ ys) = host_compilations xs @ host_compilations ys"
  "host_compilations (e # es) =
     (case e of ce_build (be_host_compiler source exe) \<Rightarrow> [(source, exe)] | _ \<Rightarrow> []) @ host_compilations es"
  by (simp_all add: host_compilations_def)

text \<open>What the branching compiler leaves in the directory for temporary files, whether it succeeds or not.\<close>

definition temporary_files :: "string \<Rightarrow> program_image \<Rightarrow> (string \<times> file_data) list" where
  "temporary_files tmp_dir img =
     (case emit_c_source img of Inl _ \<Rightarrow> [] | Inr source \<Rightarrow> [(temporary_source tmp_dir, fd_c source)])"

lemma files_of_build:
  "files_written (map ce_build (branching_effects tmp_dir build_host img)) = temporary_files tmp_dir img"
  by (simp add: branching_effects_def temporary_files_def emit_c_source_def split: sum.split)

lemma compilation_of_build:
  "branching_compile build_host img = Inr data \<Longrightarrow>
     host_compilations (map ce_build (branching_effects tmp_dir build_host img)) =
       [(temporary_source tmp_dir, temporary_executable tmp_dir)]"
  by (auto simp: branching_effects_def branching_compile_def bindE_eq_Inr)

lemma keep_source_compilations:
  "keep_source host img path b = Some (Inr (events, code)) \<Longrightarrow> host_compilations events = []"
  by (auto simp: keep_source_def cli_eq_Inr write_source_def Let_def split: if_split_asm)

lemma write_executable_compilations:
  "write_executable host img option path data b = Some (Inr (events, code)) \<Longrightarrow> host_compilations events = []"
  by (auto simp: write_executable_def cli_eq_Inr keep_source_compilations split: if_split_asm)

lemma cli_inspection_pure:
  assumes "cli_main host args = Some (Inr (events, code))" and "option_of args \<in> set inspection_options"
  shows "files_written events = []"
  using assms
  by (auto simp: cli_main_def cli_image_def Let_def print_graph_def cli_eq_Inr inspection_options_def
      split: if_split_asm)

lemma no_extension_stem: "CHR ''.'' \<notin> set name \<Longrightarrow> stem name = name"
proof -
  assume "CHR ''.'' \<notin> set name"
  then have "dropWhile (\<lambda>c. c \<noteq> CHR ''.'') (rev name) = []" by auto
  then show "stem name = name" unfolding stem_def Let_def by (simp only:) simp
qed

lemma path_parts: "directory_part path @ file_part path = path"
proof -
  have "rev (takeWhile P (rev path) @ dropWhile P (rev path)) = path" for P :: "char \<Rightarrow> bool" by simp
  then show ?thesis by (simp add: directory_part_def file_part_def flip: rev_append)
qed

lemma replace_nothing: "CHR ''.'' \<notin> set (file_part path) \<Longrightarrow> replace_extension path '''' = path"
  by (simp add: replace_extension_def no_extension_stem path_parts)

text \<open>A run that compiles and ends with 0 wrote the executable first, and then at most the source.\<close>

lemma keep_source_files:
  assumes "keep_source host img path b = Some (Inr (events, code))"
  shows "\<exists>extra. files_written events = extra \<and> (\<forall>f \<in> set extra. fst f = replace_extension path ''.cpp'')"
  using assms by (auto simp: keep_source_def cli_eq_Inr write_source_def Let_def split: if_split_asm)

lemma write_executable_files:
  assumes "write_executable host img option path data b = Some (Inr (events, code))"
  shows "\<exists>extra. files_written events = (path, fd_bytes data) # extra \<and>
    (\<forall>f \<in> set extra. fst f = replace_extension path ''.cpp'' \<and> option = ''--keep-cpp'')"
  using assms keep_source_files
  by (fastforce simp: write_executable_def cli_eq_Inr split: if_split_asm)

lemma from_branching_compiled:
  "cli_executable host img = Some (Inr (data, True)) \<Longrightarrow> branching_compile (cli_build host) img = Inr data"
  by (auto simp: cli_executable_def failP_def split: sum.split_asm failure.split_asm option.split_asm)

lemma cli_compile_files:
  assumes "cli_compile host args img = Some (Inr (events, 0))"
  shows "\<exists>data b extra. cli_executable host img = Some (Inr (data, b)) \<and>
    files_written events = temporary_files (cli_temporary host) img @ (output_path args, fd_bytes data) # extra \<and>
    (\<forall>f \<in> set extra. fst f = replace_extension (output_path args) ''.cpp'' \<and> option_of args = ''--keep-cpp'') \<and>
    (b \<longrightarrow> host_compilations events =
       [(temporary_source (cli_temporary host), temporary_executable (cli_temporary host))])"
proof -
  let ?build = "map ce_build (branching_effects (cli_temporary host) (cli_build host) img)"
  obtain data b later where d: "cli_executable host img = Some (Inr (data, b))"
    and w: "write_executable host img (option_of args) (output_path args) data b = Some (Inr (later, 0))"
    and e: "files_written events = files_written ?build @ files_written later"
      "host_compilations events = host_compilations ?build @ host_compilations later"
    using assms by (auto simp: cli_compile_def cli_eq_Inr split: if_split_asm)
  have "host_compilations ?build =
      [(temporary_source (cli_temporary host), temporary_executable (cli_temporary host))]" if b
    using d that compilation_of_build [OF from_branching_compiled, of host img data] by simp
  with write_executable_files [OF w] write_executable_compilations [OF w] d e show ?thesis
    by (auto simp: files_of_build)
qed

lemma cli_main_files:
  assumes "cli_main host args = Some (Inr (events, 0))" and "option_of args \<notin> set inspection_options"
  shows "\<exists>img data b extra. load_file (cli_file host (args ! 1)) = Inr img \<and>
    cli_executable host img = Some (Inr (data, b)) \<and>
    files_written events = temporary_files (cli_temporary host) img @ (output_path args, fd_bytes data) # extra \<and>
    (\<forall>f \<in> set extra. fst f = replace_extension (output_path args) ''.cpp'' \<and> option_of args = ''--keep-cpp'') \<and>
    (b \<longrightarrow> host_compilations events =
       [(temporary_source (cli_temporary host), temporary_executable (cli_temporary host))])"
proof -
  obtain img where img: "load_file (cli_file host (args ! 1)) = Inr img"
    and run: "cli_image host args img = Some (Inr (events, 0))"
    using assms(1) by (auto simp: cli_main_def cli_eq_Inr split: if_split_asm)
  obtain later where "cli_compile host args img = Some (Inr (later, 0))" "files_written events = files_written later"
    "host_compilations events = host_compilations later"
    using run assms(2)
    by (auto simp: cli_image_def Let_def report_def cli_eq_Inr inspection_options_def split: if_split_asm)
  with cli_compile_files [of host args img later] img show ?thesis by auto
qed

end
