(* ===== verification/LlvmPrograms.thy ===== *)
theory LlvmPrograms
  imports LlvmText
begin

text \<open>
  The exit code that \<open>emit_llvm\<close> finds, against the one of \<open>extract_exit_code\<close>: equal on MOV AX, 4Cxxh;
  INT 21h, and different when AL was set before, because the code of the former looks at the byte
  register's value first and a write to AX leaves that untouched.
\<close>

section \<open>Moves\<close>

definition mov_al_instruction :: "nat \<Rightarrow> byte \<Rightarrow> instruction" where
  "mov_al_instruction off v =
     with_operands (basic k_move_immediate off 2 0 0)
       (default_operand\<lparr>op_kind := o_reg, op_width := w_byte, op_reg := R_al\<rparr>)
       (immediate_operand w_byte (ucast v)) 2 a_none"

lemma decode_mov_al:
  assumes "off + 1 < length code" and "code ! off = 0xb0"
  shows "decode_at code off = Inr (mov_al_instruction off (code ! (off + 1)))"
proof -
  have "decode_fixed code off 0xb0 = None" "decode_string code off 0xb0 = None" "decode_io code off 0xb0 = None"
    by (simp_all add: decode_fixed_def decode_string_def is_string_opcode_def decode_io_def)
  moreover have "decode_immediate_move code off 0xb0 = Some (Inr (mov_al_instruction off (code ! (off + 1))))"
    using assms(1)
    by (simp add: decode_immediate_move_def need_here immediate_move_def register_operand_def byte_at_def
        decoder_register_for_def byte_registers_def mov_al_instruction_def)
  ultimately show ?thesis
    using assms by (simp add: decode_at_plain is_prefix_def decode_opcode_def opcode_groups_def)
qed

text \<open>A constant moved into a register is printed as that constant.\<close>

definition moved :: "register_id \<Rightarrow> u16 \<Rightarrow> machine \<Rightarrow> machine" where
  "moved r v m = m\<lparr>mc_table := mc_table m @ [constant_value (length (mc_table m)) r v],
     mc_state := (mc_state m)(r := length (mc_table m)),
     mc_registers := map_option (store_concrete r v) (mc_registers m)\<rparr>"

lemma llvm_trace_move:
  assumes "decode_at code position = Inr i"
    and "i = with_operands (basic k_move_immediate position n 0 0)
       (default_operand\<lparr>op_kind := o_reg, op_width := w, op_reg := reg\<rparr>) (immediate_operand w v) 2 a_none"
    and "register_for reg = Some r"
  shows "llvm_trace code position m = bindP (llvm_trace code (position + n) (moved r v m)) (\<lambda>(rest, e).
    Some (Inr ((i, [ll_constant (r, length (mc_table m)) v]) # rest, e)))"
proof -
  have "position < length code" using dec.dec_inside [OF assms(1)] .
  moreover have "\<not> length code < position" "\<not> length code - position < n"
    using calculation dec.dec_end [OF assms(1)] assms(2) by (simp_all add: with_operands_def basic_def)
  ultimately have "llvm_step code position i m = Inr ([ll_constant (r, length (mc_table m)) v], moved r v m)"
    using assms(2,3) register_for_not_count [OF assms(3)]
    by (simp add: llvm_step_def translate_def is_register_arithmetic_def is_stack_register_def translate_move_def
        with_operands_def basic_def immediate_operand_def default_operand_def define_effect_def define_constant_def
        push_value_def set_register_def print_value_def value_name_def constant_value_def moved_def)
  moreover have "ins_kind i = k_move_immediate" "ins_size i = n"
    using assms(2) by (simp_all add: with_operands_def basic_def)
  ultimately show ?thesis
    using assms(1) \<open>position < length code\<close> by (simp add: llvm_trace.simps [of code position])
qed

lemma llvm_trace_int:
  "decode_at code position = Inr (basic k_interrupt position 2 0 n) \<Longrightarrow>
     llvm_trace code position m = bindP (llvm_exit m) (\<lambda>v. Some (Inr ([], v)))"
  using dec.dec_inside [of code position] by (simp add: llvm_trace.simps [of code position] basic_def)

section \<open>One block\<close>

lemma build_moves_int:
  assumes "decode_at code 0 = Inr i" and "\<not> ends_block (ins_kind i)" and "0 < ins_size i"
    and "decode_at code (ins_size i) = Inr j" and "\<not> ends_block (ins_kind j)" and "0 < ins_size j"
    and "decode_at code (ins_size i + ins_size j) = Inr (basic k_interrupt (ins_size i + ins_size j) 2 0 n)"
  shows "build code 0 = Inr [\<lparr>bb_start = 0, bb_end = ins_size i + ins_size j + 2, bb_successors = [],
    bb_condition = c_always\<rparr>]"
proof (rule build_single)
  let ?b = "\<lparr>bb_start = 0, bb_end = ins_size i + ins_size j + 2, bb_successors = [], bb_condition = c_always\<rparr>"
  have inside: "ins_size i + ins_size j < length code" using dec.dec_inside [OF assms(7)] .
  then show "0 < length code" by (cases code) simp_all
  have "walk code [0] 0 (ins_size i + ins_size j) = Inr (?b, [0], False)"
    using assms by (subst walk.simps)
      (simp add: finish_block_def direct_target_def ends_block_def has_direct_target_def falls_through_def basic_def)
  then have "walk code [0] 0 (ins_size i) = Inr (?b, [0], False)"
    using assms inside by (subst walk.simps) simp
  then show "walk code [0] 0 0 = Inr (?b, [0], False)"
    using assms inside by (subst walk.simps) simp
qed

lemma llvm_com_single:
  assumes "length code \<le> 65535" and "build code 0 = Inr [b]" and "bb_start b = 0"
  shows "\<exists>memory. straight_line_llvm (com_image code) = llvm_trace code 0 (llvm_machine memory)"
proof -
  obtain p where p: "lower [b] = Inr p"
    using good_graph_lowers [OF build_good [OF assms(2)]] by blast
  have "\<not> memory_size < 0x100" "\<not> memory_size - 0x100 < length code"
    using assms(1) by (simp_all add: memory_size_def)
  then show ?thesis
    using assms p
    by (intro exI [of _ "real_mode_memory_init\<lparr>mem_bytes := copy_to (mem_bytes real_mode_memory_init) 0x100 code\<rparr>"])
      (simp add: straight_line_llvm_def load_memory_def write_range_def)
qed

section \<open>Exit codes\<close>

lemma first_constant_here:
  "n < length vs \<Longrightarrow> sv_constant (vs ! n) = Some c \<Longrightarrow> first_constant vs n = Some c"
  by (subst first_constant.simps) simp

lemma first_constant_entry:
  "n < length vs \<Longrightarrow> sv_constant (vs ! n) = None \<Longrightarrow> sv_inputs (vs ! n) = [] \<Longrightarrow> first_constant vs n = Some 0"
  by (subst first_constant.simps) simp

lemma entry_lookup:
  "length builder_init = 17" "sv_constant (builder_init ! entry_state V_al) = None"
  "sv_inputs (builder_init ! entry_state V_al) = []" "sv_constant (builder_init ! entry_state V_ah) = None"
  "sv_inputs (builder_init ! entry_state V_ah) = []" "entry_state V_al = 0" "entry_state V_ah = 4"
  by (simp_all add: builder_init_def register_ids_def entry_state_def entry_value_def)

lemma exit_program_llvm:
  "straight_line_llvm (com_image (exit_program v)) =
     Some (Inr ([(mov_ax_instruction 0 (le16 v 0x4c), [ll_constant (V_ax, 17) (le16 v 0x4c)])], v))"
proof -
  let ?code = "exit_program v" and ?x = "le16 v 0x4c"
  have d0: "decode_at ?code 0 = Inr (mov_ax_instruction 0 ?x)"
    using decode_mov_ax [where off = 0 and code = ?code] by (simp add: exit_program_def)
  have d3: "decode_at ?code 3 = Inr (basic k_interrupt 3 2 0 0x21)"
    using decode_int [where off = 3 and code = ?code] by (simp add: exit_program_def)
  have "build ?code 0 = Inr [\<lparr>bb_start = 0, bb_end = 3 + 2, bb_successors = [], bb_condition = c_always\<rparr>]"
    using build_move_int [OF d0, where n = "0x21"] d3 by (simp add: ends_block_def)
  then obtain memory where start: "straight_line_llvm (com_image ?code) = llvm_trace ?code 0 (llvm_machine memory)"
    using llvm_com_single [of ?code] by (auto simp: exit_program_def)
  let ?m = "moved V_ax ?x (llvm_machine memory)"
  have table: "mc_table ?m = builder_init @ [constant_value 17 V_ax ?x]" "mc_state ?m = entry_state(V_ax := 17)"
    by (simp_all add: moved_def llvm_machine_def entry_lookup)
  have "constant_of ?m V_ah = Some (Inr 0)" "constant_of ?m V_al = Some (Inr 0)" "constant_of ?m V_ax = Some (Inr ?x)"
    using entry_lookup
    by (simp_all add: constant_of_def table first_constant_entry first_constant_here nth_append constant_value_def)
  then have "llvm_exit ?m = Some (Inr v)"
    using entry_lookup table
    by (simp add: llvm_exit_def) (simp add: moved_def llvm_machine_def store_concrete_def)
  then show ?thesis
    using llvm_trace_move [OF d0 mov_ax_instruction_def, where r = V_ax and m = "llvm_machine memory"]
      llvm_trace_int [OF d3, of ?m] start
    by (simp add: llvm_machine_def entry_lookup)
qed

text \<open>MOV AL, a; MOV AX, 4Cxxh; INT 21h.\<close>

definition stale_program :: "byte \<Rightarrow> byte \<Rightarrow> byte list" where
  "stale_program a v = [0xb0, a, 0xb8, v, 0x4c, 0xcd, 0x21]"

lemma stale_program_decodes:
  "decode_at (stale_program a v) 0 = Inr (mov_al_instruction 0 a)"
  "decode_at (stale_program a v) 2 = Inr (mov_ax_instruction 2 (le16 v 0x4c))"
  "decode_at (stale_program a v) 5 = Inr (basic k_interrupt 5 2 0 0x21)"
  using decode_mov_al [of 0 "stale_program a v"] decode_mov_ax [of 2 "stale_program a v"]
    decode_int [of 5 "stale_program a v"]
  by (simp_all add: stale_program_def)

lemma stale_program_graph:
  "build (stale_program a v) 0 = Inr [\<lparr>bb_start = 0, bb_end = 7, bb_successors = [], bb_condition = c_always\<rparr>]"
proof -
  have "ins_kind (mov_al_instruction 0 a) = k_move_immediate" "ins_size (mov_al_instruction 0 a) = 2"
    by (simp_all add: mov_al_instruction_def with_operands_def basic_def)
  then show ?thesis
    using build_moves_int [OF stale_program_decodes(1), where j = "mov_ax_instruction 2 (le16 v 0x4c)" and n = "0x21"]
      stale_program_decodes [of a v]
    by (simp add: ends_block_def)
qed

lemma stale_program_llvm:
  "\<exists>trace. straight_line_llvm (com_image (stale_program a v)) = Some (Inr (trace, if a \<noteq> 0 then a else v))"
proof -
  let ?code = "stale_program a v" and ?x = "le16 v 0x4c"
  note d = stale_program_decodes [of a v]
  obtain memory where start: "straight_line_llvm (com_image ?code) = llvm_trace ?code 0 (llvm_machine memory)"
    using llvm_com_single [OF _ stale_program_graph] by (auto simp: stale_program_def)
  let ?m = "moved V_ax ?x (moved V_al (ucast a) (llvm_machine memory))"
  have table: "mc_table ?m = builder_init @ [constant_value 17 V_al (ucast a), constant_value 18 V_ax ?x]"
    "mc_state ?m = entry_state(V_al := 17, V_ax := 18)"
    by (simp_all add: moved_def llvm_machine_def entry_lookup)
  have "constant_of ?m V_ah = Some (Inr 0)" "constant_of ?m V_al = Some (Inr (ucast a))"
    "constant_of ?m V_ax = Some (Inr ?x)"
    using entry_lookup
    by (simp_all add: constant_of_def table first_constant_entry first_constant_here nth_append constant_value_def)
  moreover have "lo8 (ucast a) = a" by (rule bit_word_eqI) (simp add: lo8_def bit_simps)
  moreover have "(ucast a :: u16) = 0 \<longleftrightarrow> a = 0" using ucast_byte_inject [of a 0] by simp
  ultimately have "llvm_exit ?m = Some (Inr (if a \<noteq> 0 then a else v))"
    using entry_lookup table
    by (simp add: llvm_exit_def) (simp add: moved_def llvm_machine_def store_concrete_def)
  then show ?thesis
    using llvm_trace_move [OF d(1) mov_al_instruction_def, where r = V_al and m = "llvm_machine memory"]
      llvm_trace_move [OF d(2) mov_ax_instruction_def, where r = V_ax and m = "moved V_al (ucast a) (llvm_machine memory)"]
      llvm_trace_int [OF d(3), of ?m] start
    by (simp add: numeral_2_eq_2)
qed

lemma stale_program_exit_code:
  "straight_line_exit_code host (com_image (stale_program a v)) = Some (Inr v)"
proof -
  let ?code = "stale_program a v" and ?x = "le16 v 0x4c"
  note d = stale_program_decodes [of a v]
  let ?b = "\<lparr>bb_start = 0, bb_end = 7, bb_successors = [], bb_condition = c_always\<rparr>"
  let ?ts = "(com_state ?code 1)\<lparr>sl_visited_block := [True]\<rparr>"
  have "straight_line_walk host (com_image ?code) = walk_blocks host ?code [?b] 0 ?ts"
    by (rule walk_com_single [OF _ _ stale_program_graph]) (simp_all add: stale_program_def)
  moreover obtain ts1 where first: "walk_round host ?code [?b] 0 ?ts = Some (Inr (goes_on 2 ts1))"
    using walk_move_immediate [OF _ d(1) mov_al_instruction_def, where host = host and graph = "[?b]" and ts = ?ts and r = V_al]
    by (simp add: stale_program_def)
  moreover obtain ts2 where second: "walk_round host ?code [?b] 2 ts1 = Some (Inr (goes_on 5 ts2))"
    and ax: "sl_registers ts2 R_ax = ?x"
    using walk_move_immediate [OF _ d(2) mov_ax_instruction_def, where host = host and graph = "[?b]" and ts = ts1 and r = V_ax]
    by (simp add: stale_program_def store_concrete_def)
  moreover have "walk_round host ?code [?b] 5 ts2 = Some (Inr (finished v ts2))"
    using walk_exit [OF _ d(3), where ts = ts2 and host = host and graph = "[?b]"] ax
    by (simp add: stale_program_def)
  ultimately have "straight_line_walk host (com_image ?code) = Some (Inr (v, ts2))"
    using walk_blocks_goes_on [OF first] walk_blocks_goes_on [OF second] walk_blocks_finished by simp
  then show ?thesis by (simp add: straight_line_exit_code_def)
qed

end
