(* ===== verification/Dos8086.thy ===== *)
theory Dos8086
  imports BranchingFacts
begin

text \<open>
  The machine that a COM program is written for, as the reference that the compilers are compared with: an
  8086 in one segment of 64 KiB with the program's image at 100h, and the three DOS services that print and
  exit. Instructions are fetched from memory. What lies outside this subset is \<open>stuck86\<close>: segment
  registers and prefixes, PUSH and POP, indirect and far calls, string operations, arithmetic and comparisons
  in memory, and every other interrupt. The segment registers are all zero: addresses are relative to the
  program's segment. DOS starts a COM program with a zero word on the stack, so that a last RET goes to the
  INT 20h at offset 0, which ends the program with code 0.

  The locale \<open>compiled86\<close> is the interface of a translation: how a run of the translated program is
  matched with the machine step by step, and from it that both have the same output and exit code.
\<close>

section \<open>Flags\<close>

definition sign_bit :: "u16 \<Rightarrow> bool" where
  "sign_bit w \<longleftrightarrow> w AND 0x8000 \<noteq> 0"

definition flags_of_add :: "u16 \<Rightarrow> u16 \<Rightarrow> compare_flags" where
  "flags_of_add x y =
     \<lparr>cf_zero = (x + y = 0), cf_sign = sign_bit (x + y), cf_carry = (0x10000 \<le> unat x + unat y),
      cf_overflow = (sint x + sint y < - 32768 \<or> 32768 \<le> sint x + sint y)\<rparr>"

definition flags_of_logic :: "u16 \<Rightarrow> compare_flags" where
  "flags_of_logic r = \<lparr>cf_zero = (r = 0), cf_sign = sign_bit r, cf_carry = False, cf_overflow = False\<rparr>"

definition flags_of_byte_compare :: "byte \<Rightarrow> byte \<Rightarrow> compare_flags" where
  "flags_of_byte_compare x y =
     \<lparr>cf_zero = (x = y), cf_sign = ((x - y) AND 0x80 \<noteq> 0), cf_carry = (x < y),
      cf_overflow = (sint x - sint y < - 128 \<or> 128 \<le> sint x - sint y)\<rparr>"

text \<open>The flags of an arithmetic operation with result \<open>r\<close>.\<close>

definition alu_flags :: "alu_operation \<Rightarrow> u16 \<Rightarrow> u16 \<Rightarrow> u16 \<Rightarrow> compare_flags" where
  "alu_flags alu x y r =
     (if alu = a_add then flags_of_add x y else if alu = a_subtract then flags_of_compare x y
      else flags_of_logic r)"

section \<open>The machine\<close>

text \<open>
  What set the flags last, and how a word register was written last. The machine does not look at either;
  they are there for the conditions under which the compilers are faithful.
\<close>

datatype flag_setter = by_word_compare | by_byte_compare | by_arithmetic

datatype write_kind = not_written | as_constant | as_computed | as_bytes

record machine86 =
  m_ip :: u16
  m_regs :: register_values
  m_flags :: compare_flags
  m_setter :: flag_setter
  m_written :: "register_name \<Rightarrow> write_kind"
  m_mem :: "u16 \<Rightarrow> byte"
  m_out :: "byte list list"

datatype outcome86 = go86 machine86 | exit86 byte | stuck86

definition start86 :: "byte list \<Rightarrow> machine86" where
  "start86 code =
     \<lparr>m_ip = 0x100, m_regs = (\<lambda>_. 0)(R_sp := 0xfffe), m_flags = no_flags, m_setter = by_word_compare,
      m_written = (\<lambda>_. not_written),
      m_mem = (\<lambda>a. if 0x100 \<le> unat a \<and> unat a < 0x100 + length code then code ! (unat a - 0x100) else 0),
      m_out = []\<rparr>"

text \<open>The bytes at the place of the image, and the position of the instruction pointer in them.\<close>

definition image86 :: "nat \<Rightarrow> machine86 \<Rightarrow> byte list" where
  "image86 len s = map (\<lambda>k. m_mem s (word_of_nat (0x100 + k))) [0..<len]"

definition position86 :: "machine86 \<Rightarrow> nat" where
  "position86 s = unat (m_ip s) - 0x100"

subsection \<open>Operands\<close>

definition general_register :: "operand \<Rightarrow> bool" where
  "general_register op \<longleftrightarrow> op_kind op = o_reg \<and> register_number (op_reg op) < 16"

definition load86 :: "operand_width \<Rightarrow> u16 \<Rightarrow> machine86 \<Rightarrow> u16" where
  "load86 width a s =
     (if width = w_byte then ucast (m_mem s a) else le16 (m_mem s a) (m_mem s (a + 1)))"

definition store86 :: "operand_width \<Rightarrow> u16 \<Rightarrow> u16 \<Rightarrow> machine86 \<Rightarrow> machine86" where
  "store86 width a v s =
     s\<lparr>m_mem := (if width = w_byte then (m_mem s)(a := lo8 v) else (m_mem s)(a := lo8 v, a + 1 := hi8 v))\<rparr>"

text \<open>The value of a register or an immediate.\<close>

definition source86 :: "operand \<Rightarrow> machine86 \<Rightarrow> u16 option" where
  "source86 op s =
     (if op_kind op = o_immediate then Some (op_immediate op)
      else if general_register op then Some (arch_read (m_regs s) (op_reg op)) else None)"

subsection \<open>Instructions\<close>

text \<open>The word register that an operand names or is a half of.\<close>

definition whole_register :: "operand \<Rightarrow> register_name" where
  "whole_register op = (if op_width op = w_byte then snd (byte_reg_locus (op_reg op)) else op_reg op)"

definition written86 :: "operand \<Rightarrow> write_kind \<Rightarrow> machine86 \<Rightarrow> machine86" where
  "written86 op kind s =
     s\<lparr>m_written := (m_written s)(whole_register op := if op_width op = w_byte then as_bytes else kind)\<rparr>"

lemma written86_sel [simp]:
  "m_ip (written86 op kind s) = m_ip s" "m_regs (written86 op kind s) = m_regs s"
  "m_flags (written86 op kind s) = m_flags s" "m_setter (written86 op kind s) = m_setter s"
  "m_mem (written86 op kind s) = m_mem s" "m_out (written86 op kind s) = m_out s"
  by (simp_all add: written86_def)

definition compared86 :: "operand_width \<Rightarrow> u16 \<Rightarrow> u16 \<Rightarrow> machine86 \<Rightarrow> machine86" where
  "compared86 width x y s =
     (if width = w_byte then s\<lparr>m_flags := flags_of_byte_compare (lo8 x) (lo8 y), m_setter := by_byte_compare\<rparr>
      else s\<lparr>m_flags := flags_of_compare x y, m_setter := by_word_compare\<rparr>)"

definition compare86 :: "instruction \<Rightarrow> machine86 \<Rightarrow> machine86 option" where
  "compare86 i s =
     (let dst = fst (ins_operands i); src = snd (ins_operands i)
      in if general_register dst \<and> op_width src = op_width dst
         then map_option (\<lambda>y. compared86 (op_width dst) (arch_read (m_regs s) (op_reg dst)) y s) (source86 src s)
         else None)"

definition store_instruction86 :: "instruction \<Rightarrow> machine86 \<Rightarrow> machine86 option" where
  "store_instruction86 i s =
     (let dst = fst (ins_operands i); src = snd (ins_operands i)
      in if op_width src \<noteq> op_width dst then None
         else (case effective_address dst (m_regs s) of
                 Inl _ \<Rightarrow> None
               | Inr a \<Rightarrow> map_option (\<lambda>v. store86 (op_width dst) a v s) (source86 src s)))"

definition load_instruction86 :: "instruction \<Rightarrow> machine86 \<Rightarrow> machine86 option" where
  "load_instruction86 i s =
     (let dst = fst (ins_operands i); src = snd (ins_operands i)
      in if \<not> general_register dst \<or> op_width src \<noteq> op_width dst then None
         else (case effective_address src (m_regs s) of
                 Inl _ \<Rightarrow> None
               | Inr a \<Rightarrow>
                   Some (written86 dst as_constant
                     (s\<lparr>m_regs := name_write (op_reg dst) (load86 (op_width dst) a s) (m_regs s)\<rparr>))))"

text \<open>INC and DEC are the opcodes 40h to 4Fh; they leave the carry flag alone.\<close>

definition register_instruction86 :: "instruction \<Rightarrow> byte \<Rightarrow> machine86 \<Rightarrow> machine86 option" where
  "register_instruction86 i opcode s =
     (let dst = fst (ins_operands i); src = snd (ins_operands i)
      in if \<not> general_register dst then None
         else (case register_step i (m_regs s) of
                 None \<Rightarrow> None
               | Some f \<Rightarrow>
                   (let s' = written86 dst (if ins_kind i = k_move_immediate then as_constant else as_computed)
                          (s\<lparr>m_regs := f\<rparr>);
                        flags = alu_flags (ins_alu i) (m_regs s (op_reg dst)) (op_immediate src) (f (op_reg dst))
                    in Some (if ins_kind i = k_arithmetic then
                         s'\<lparr>m_setter := by_arithmetic,
                           m_flags := (if 0x40 \<le> opcode \<and> opcode \<le> 0x4f
                             then flags\<lparr>cf_carry := cf_carry (m_flags s)\<rparr> else flags)\<rparr>
                       else s'))))"

text \<open>Arithmetic between two word registers.\<close>

definition register_arithmetic86 :: "instruction \<Rightarrow> machine86 \<Rightarrow> machine86 option" where
  "register_arithmetic86 i s =
     (let dst = fst (ins_operands i); src = snd (ins_operands i);
          x = m_regs s (op_reg dst); y = m_regs s (op_reg src)
      in if \<not> general_register dst \<or> \<not> general_register src \<or> op_width dst \<noteq> w_word \<or> op_width src \<noteq> w_word then None
         else map_option (\<lambda>r. written86 dst as_computed
             (s\<lparr>m_regs := (m_regs s)(op_reg dst := r), m_setter := by_arithmetic, m_flags := alu_flags (ins_alu i) x y r\<rparr>))
           (alu_result (ins_alu i) x y))"

definition plain86 :: "instruction \<Rightarrow> byte \<Rightarrow> machine86 \<Rightarrow> machine86 option" where
  "plain86 i opcode s =
     (let dst = fst (ins_operands i); src = snd (ins_operands i)
      in if ins_kind i = k_nop then Some s
         else if ins_kind i = k_compare \<and> ins_alu i = a_compare then compare86 i s
         else if ins_kind i = k_move \<and> op_kind dst = o_memory then store_instruction86 i s
         else if ins_kind i = k_move \<and> op_kind src = o_memory then load_instruction86 i s
         else if ins_kind i = k_arithmetic \<and> op_kind src = o_reg then register_arithmetic86 i s
         else register_instruction86 i opcode s)"

text \<open>The string that ends with a dollar sign, inside the segment.\<close>

definition text86 :: "u16 \<Rightarrow> machine86 \<Rightarrow> byte list option" where
  "text86 a s =
     (let rest = map (\<lambda>k. m_mem s (word_of_nat k)) [unat a..<0x10000]
      in if 0x24 \<in> set rest then Some (takeWhile (\<lambda>b. b \<noteq> 0x24) rest) else None)"

text \<open>The same, one byte after the other.\<close>

lemma next_address: "a \<noteq> 0xffff \<Longrightarrow> unat (a + 1) = Suc (unat a)" for a :: u16
proof -
  assume "a \<noteq> 0xffff"
  then have "unat a \<noteq> unat (0xffff :: u16)" by (simp only: word_unat_eq_iff [symmetric] not_False_eq_True)
  with unsigned_less [of a, where 'a = nat] show ?thesis by (simp add: unat_word_ariths)
qed

function string86 :: "u16 \<Rightarrow> machine86 \<Rightarrow> byte list option" where
  "string86 a s =
     (if m_mem s a = 0x24 then Some []
      else if a = 0xffff then None else map_option (Cons (m_mem s a)) (string86 (a + 1) s))"
  by pat_completeness auto
termination
proof (relation "measure (\<lambda>(a, s). 0x10000 - unat a)")
  fix a :: u16 and s :: machine86
  assume "a \<noteq> 0xffff"
  with unsigned_less [of a, where 'a = nat] show "((a + 1, s), (a, s)) \<in> measure (\<lambda>(a, s). 0x10000 - unat a)"
    by (simp add: next_address)
qed simp

declare string86.simps [simp del]

lemma text86_code [code]: "text86 a s = string86 a s"
proof (induction a s rule: string86.induct)
  case (1 a s)
  have head: "[unat a..<0x10000] = unat a # [Suc (unat a)..<0x10000]"
    using unsigned_less [of a, where 'a = nat] by (simp add: upt_conv_Cons del: upt.simps upt_rec_numeral)
  show ?case
  proof (cases "a = 0xffff")
    case True
    then show ?thesis by (subst string86.simps) (simp add: text86_def)
  next
    case False
    have "string86 a s =
        (if m_mem s a = 0x24 then Some [] else map_option (Cons (m_mem s a)) (text86 (a + 1) s))"
      using 1 False by (subst string86.simps) simp
    then show ?thesis
      using False by (auto simp: text86_def head next_address Let_def simp del: upt.simps upt_rec_numeral)
  qed
qed

definition dos86 :: "machine86 \<Rightarrow> outcome86" where
  "dos86 s =
     (let ah = hi8 (m_regs s R_ax)
      in if ah = 0x4c then exit86 (lo8 (m_regs s R_ax))
         else if ah = 0x02 then go86 (s\<lparr>m_out := m_out s @ [[lo8 (m_regs s R_dx)]]\<rparr>)
         else if ah = 0x09 then
           (case text86 (m_regs s R_dx) s of
              None \<Rightarrow> stuck86 | Some message \<Rightarrow> go86 (s\<lparr>m_out := m_out s @ [message]\<rparr>))
         else stuck86)"

text \<open>The near CALL and RET. The word below the first call is zero, the offset of an INT 20h.\<close>

definition push86 :: "u16 \<Rightarrow> machine86 \<Rightarrow> machine86" where
  "push86 v s =
     (let sp = m_regs s R_sp - 2 in store86 w_word sp v (s\<lparr>m_regs := (m_regs s)(R_sp := sp)\<rparr>))"

definition top86 :: "machine86 \<Rightarrow> u16" where
  "top86 s = load86 w_word (m_regs s R_sp) s"

definition popped86 :: "machine86 \<Rightarrow> machine86" where
  "popped86 s = s\<lparr>m_regs := (m_regs s)(R_sp := m_regs s R_sp + 2)\<rparr>"

definition return86 :: "machine86 \<Rightarrow> outcome86" where
  "return86 s = (if top86 s = 0 then exit86 0 else go86 ((popped86 s)\<lparr>m_ip := top86 s\<rparr>))"

definition instruction86 :: "instruction \<Rightarrow> byte \<Rightarrow> machine86 \<Rightarrow> outcome86" where
  "instruction86 i opcode s =
     (let next = m_ip s + word_of_nat (ins_size i); target = next + word_of_int (ins_relative_target i)
      in if ins_kind i = k_interrupt then
           (if opcode = 0xcd \<and> ins_interrupt_number i = 0x21 then dos86 (s\<lparr>m_ip := next\<rparr>) else stuck86)
         else if ins_kind i = k_jump then (if ins_indirect i then stuck86 else go86 (s\<lparr>m_ip := target\<rparr>))
         else if ins_kind i = k_conditional_jump then
           (if compares (ins_condition i) 0 0 = None then stuck86
            else go86 (s\<lparr>m_ip := if condition_of_flags (ins_condition i) (m_flags s) then target else next\<rparr>))
         else if ins_kind i = k_call then
           (if ins_indirect i then stuck86 else go86 ((push86 next s)\<lparr>m_ip := target\<rparr>))
         else if ins_kind i = k_return then (if opcode = 0xc3 then return86 s else stuck86)
         else (case plain86 i opcode s of None \<Rightarrow> stuck86 | Some s' \<Rightarrow> go86 (s'\<lparr>m_ip := next\<rparr>)))"

definition step86 :: "nat \<Rightarrow> machine86 \<Rightarrow> outcome86" where
  "step86 len s =
     (let code = image86 len s; p = position86 s
      in if unat (m_ip s) < 0x100 \<or> len \<le> p \<or> is_prefix (code ! p) then stuck86
         else (case decode_at code p of Inl _ \<Rightarrow> stuck86 | Inr i \<Rightarrow> instruction86 i (code ! p) s))"

subsection \<open>Runs\<close>

text \<open>The exit code and what was written, if the program ends within \<open>n\<close> instructions.\<close>

fun run86 :: "nat \<Rightarrow> nat \<Rightarrow> machine86 \<Rightarrow> (byte \<times> byte list list) option" where
  "run86 len 0 s = None"
| "run86 len (Suc n) s =
     (case step86 len s of
        go86 s' \<Rightarrow> run86 len n s' | exit86 e \<Rightarrow> Some (e, m_out s) | stuck86 \<Rightarrow> None)"

text \<open>A condition on every state of the first \<open>n\<close> steps.\<close>

fun always86 :: "(machine86 \<Rightarrow> bool) \<Rightarrow> nat \<Rightarrow> nat \<Rightarrow> machine86 \<Rightarrow> bool" where
  "always86 P len 0 s = True"
| "always86 P len (Suc n) s \<longleftrightarrow>
     P s \<and> (case step86 len s of go86 s' \<Rightarrow> always86 P len n s' | _ \<Rightarrow> True)"

text \<open>More fuel changes no result.\<close>

lemma run86_more: "run86 len n s = Some r \<Longrightarrow> n \<le> m \<Longrightarrow> run86 len m s = Some r"
proof (induction n arbitrary: s m)
  case (Suc n)
  then obtain k where "m = Suc k" "n \<le> k" by (cases m) auto
  with Suc show ?case by (auto split: outcome86.split_asm)
qed simp

section \<open>Translations\<close>

text \<open>
  \<open>match n s t\<close>: the translated program in state \<open>t\<close> corresponds to the machine in \<open>s\<close>, with fuel for \<open>n\<close>
  more instructions. \<open>final t e out\<close>: from \<open>t\<close> it exits with \<open>e\<close> and has written \<open>out\<close> in all.
  \<open>fits\<close> is the condition under which an instruction is translated faithfully.
\<close>

locale compiled86 =
  fixes len :: nat
    and fits :: "machine86 \<Rightarrow> bool"
    and match :: "nat \<Rightarrow> machine86 \<Rightarrow> 't \<Rightarrow> bool"
    and final :: "'t \<Rightarrow> byte \<Rightarrow> byte list list \<Rightarrow> bool"
  assumes match_go: "step86 len s = go86 s' \<Longrightarrow> fits s \<Longrightarrow> match (Suc n) s t \<Longrightarrow>
      \<exists>t'. match n s' t' \<and> (\<forall>e out. final t' e out \<longrightarrow> final t e out)"
    and match_exit: "step86 len s = exit86 e \<Longrightarrow> fits s \<Longrightarrow> match (Suc n) s t \<Longrightarrow> final t e (m_out s)"
begin

lemma translation_correct:
  "run86 len n s = Some (e, out) \<Longrightarrow> always86 fits len n s \<Longrightarrow> match n s t \<Longrightarrow> final t e out"
proof (induction n arbitrary: s t)
  case (Suc n)
  show ?case
  proof (cases "step86 len s")
    case (go86 s')
    with Suc.prems have "fits s" by simp
    from match_go [OF go86 this Suc.prems(3)] obtain t' where
      "match n s' t'" "\<forall>e out. final t' e out \<longrightarrow> final t e out" by blast
    with Suc go86 show ?thesis by simp
  next
    case (exit86 e')
    with match_exit [OF exit86] Suc show ?thesis by simp
  next
    case stuck86
    with Suc show ?thesis by simp
  qed
qed simp

end

subsection \<open>Conditions that the translations share\<close>

text \<open>The sum that an address is made of stays inside the segment.\<close>

definition address_fits :: "operand \<Rightarrow> machine86 \<Rightarrow> bool" where
  "address_fits op s \<longleftrightarrow>
     (let sum = sint (op_displacement op) + (\<Sum>r\<leftarrow>used_address_registers op. int (unat (m_regs s r)))
      in op_kind op = o_memory \<longrightarrow> 0 \<le> sum \<and> (if op_width op = w_byte then sum < 0x10000 else sum < 0xffff))"

definition target_fits :: "nat \<Rightarrow> instruction \<Rightarrow> bool" where
  "target_fits p i \<longleftrightarrow>
     (let target = int p + int (ins_size i) + ins_relative_target i in 0 \<le> target \<and> target < 0xff00)"

section \<open>Facts about the machine\<close>

lemma operand_wf_right_width: "operand_wf op \<Longrightarrow> op_kind op = o_reg \<Longrightarrow> right_width op"
  by (cases "op_width op"; cases "op_reg op")
    (simp_all add: operand_wf_def right_width_def is_word_register_def registers_of_def byte_registers_def
      word_registers_def)

lemma operand_wf_general: "operand_wf op \<Longrightarrow> op_kind op = o_reg \<Longrightarrow> general_register op"
  by (cases "op_width op"; cases "op_reg op")
    (simp_all add: operand_wf_def general_register_def registers_of_def byte_registers_def word_registers_def)

lemma operand_wf_memory:
  assumes "operand_wf op" and "op_kind op = o_memory"
  shows "op_address_register_count op \<le> 2" and "op_direct_address op \<Longrightarrow> op_address_register_count op = 0"
    and "\<forall>r \<in> set (used_address_registers op). is_word_register r"
  using assms by (auto simp: operand_wf_def used_address_registers_def is_word_register_def)

lemma compare86_cases:
  assumes "compare86 i s = Some s'"
  obtains y where "source86 (snd (ins_operands i)) s = Some y" and "op_kind (fst (ins_operands i)) = o_reg"
    and "op_width (snd (ins_operands i)) = op_width (fst (ins_operands i))"
    and "s' = compared86 (op_width (fst (ins_operands i))) (arch_read (m_regs s) (op_reg (fst (ins_operands i)))) y s"
proof -
  let ?dst = "fst (ins_operands i)" and ?src = "snd (ins_operands i)"
  have c: "general_register ?dst" "op_width ?src = op_width ?dst"
    by (rule ccontr, use assms in \<open>simp add: compare86_def Let_def\<close>)+
  with assms obtain y where "source86 ?src s = Some y" "s' = compared86 (op_width ?dst) (arch_read (m_regs s) (op_reg ?dst)) y s"
    by (cases "source86 ?src s") (simp_all add: compare86_def Let_def)
  with c that show ?thesis by (simp add: general_register_def)
qed

lemma register_step_none:
  "ins_kind i \<noteq> k_move_immediate \<Longrightarrow> ins_kind i \<noteq> k_move \<Longrightarrow> ins_kind i \<noteq> k_arithmetic \<Longrightarrow>
     register_step i f = None"
  "ins_kind i = k_move \<Longrightarrow> op_kind (snd (ins_operands i)) \<noteq> o_reg \<Longrightarrow> register_step i f = None"
  "ins_kind i = k_arithmetic \<Longrightarrow> ins_alu i = a_compare \<or> ins_alu i = a_test \<Longrightarrow> register_step i f = None"
  by (auto simp: register_step_def Let_def alu_result_def)

lemma lo8_ucast [simp]: "lo8 (ucast (b :: byte)) = b"
  by (rule bit_word_eqI) (simp add: lo8_def bit_simps)

lemma takeWhile_found: "x \<in> set xs \<Longrightarrow> takeWhile (\<lambda>b. b \<noteq> x) (xs @ ys) = takeWhile (\<lambda>b. b \<noteq> x) xs"
  by (induction xs) auto

lemma upt_split: "a \<le> b \<Longrightarrow> b \<le> c \<Longrightarrow> [a..<c] = [a..<b] @ [b..<c]"
  by (metis le_add_diff_inverse upt_add_eq_append)

lemma if_Some_iff: "(if c then Some x else None) = Some y \<longleftrightarrow> c \<and> x = y"
  by simp

text \<open>The kinds of the plain instructions.\<close>

lemma plain86_kind:
  assumes "plain86 i opcode s = Some s'"
  shows "ins_kind i \<in> {k_nop, k_compare, k_move, k_move_immediate, k_arithmetic}"
proof (rule ccontr)
  assume "ins_kind i \<notin> {k_nop, k_compare, k_move, k_move_immediate, k_arithmetic}"
  then have "plain86 i opcode s = None"
    using register_step_none(1) [of i "m_regs s"]
    by (simp add: plain86_def register_instruction86_def Let_def)
  with assms show False by simp
qed

lemma unat_image_address: "i < 0xff00 \<Longrightarrow> unat (0x100 + word_of_nat i :: u16) = 0x100 + i"
proof -
  assume "i < 0xff00"
  moreover have "(0x100 + word_of_nat i :: u16) = word_of_nat (0x100 + i)" by simp
  ultimately show ?thesis by (simp only: unat_of_nat) simp
qed

lemma image86_start: "length code \<le> 0xff00 \<Longrightarrow> image86 (length code) (start86 code) = code"
  by (auto simp: image86_def start86_def unat_image_address intro!: nth_equalityI)

text \<open>The sum that \<open>address_fits\<close> bounds is the effective address, so the address of the high byte does not wrap.\<close>

lemma address_of_sum:
  assumes "operand_wf op" and "op_kind op = o_memory" and "address_fits op s"
    and "effective_address op (m_regs s) = Inr a"
  shows "int (unat a) = sint (op_displacement op) + (\<Sum>r\<leftarrow>used_address_registers op. int (unat (m_regs s r)))"
proof -
  let ?rs = "used_address_registers op" and ?f = "m_regs s"
  have fold: "foldl (\<lambda>a r. a + ?f r) w rs = w + word_of_int (\<Sum>r\<leftarrow>rs. int (unat (?f r)))" for w rs
    by (induction rs arbitrary: w) (simp_all add: add.assoc)
  have "a = foldl (\<lambda>a r. a + ?f r) (op_displacement op) ?rs"
    using assms operand_wf_memory [OF assms(1,2)]
    by (cases "op_direct_address op")
      (simp_all add: effective_address_def add_address_registers_fold used_address_registers_def)
  also have "\<dots> = word_of_int (sint (op_displacement op) + (\<Sum>r\<leftarrow>?rs. int (unat (?f r))))"
    by (simp add: fold)
  finally have a_is: "a = word_of_int (sint (op_displacement op) + (\<Sum>r\<leftarrow>?rs. int (unat (?f r))))" .
  have "int (unat a) = (sint (op_displacement op) + (\<Sum>r\<leftarrow>?rs. int (unat (?f r)))) mod 0x10000"
    unfolding a_is by (simp only: uint_nat [symmetric] uint_word_of_int) simp
  moreover have "0 \<le> sint (op_displacement op) + (\<Sum>r\<leftarrow>?rs. int (unat (?f r)))"
    "sint (op_displacement op) + (\<Sum>r\<leftarrow>?rs. int (unat (?f r))) < 0x10000"
    using assms(2,3) by (auto simp: address_fits_def Let_def split: if_split_asm)
  ultimately show ?thesis by (simp add: mod_pos_pos_trivial)
qed

lemma address_fits_next:
  assumes "operand_wf op" and "op_kind op = o_memory" and "address_fits op s"
    and "effective_address op (m_regs s) = Inr a" and "op_width op \<noteq> w_byte"
  shows "unat (a + 1) = unat a + 1"
proof -
  have "int (unat a) < 0xffff"
    unfolding address_of_sum [OF assms(1-4)] using assms(2,3,5) by (simp add: address_fits_def Let_def)
  then have "unat a < 0xffff" by linarith
  then show ?thesis by (simp add: unat_word_ariths)
qed

subsection \<open>The instruction pointer\<close>

lemma position_at: "l < 0xff00 \<Longrightarrow> position86 (s\<lparr>m_ip := 0x100 + word_of_nat l\<rparr>) = l"
  "l < 0xff00 \<Longrightarrow> 0x100 \<le> unat (0x100 + word_of_nat l :: u16)"
  by (simp_all add: position86_def unat_image_address)

lemma ip_of_position:
  assumes "0x100 \<le> unat (m_ip s)"
  shows "m_ip s = 0x100 + word_of_nat (position86 s)"
  using assms by (simp add: position86_def)

lemma next_ip: "0x100 + word_of_nat p + word_of_nat n = (0x100 + word_of_nat (p + n) :: u16)"
  by simp

lemma target_ip:
  assumes "target_fits p i"
  shows "walk_target p i < 0xff00"
    and "0x100 + word_of_nat p + word_of_nat (ins_size i) + word_of_int (ins_relative_target i) =
      (0x100 + word_of_nat (walk_target p i) :: u16)"
proof -
  let ?t = "int p + int (ins_size i) + ins_relative_target i"
  have t: "0 \<le> ?t" "?t < 0xff00" using assms by (simp_all add: target_fits_def Let_def)
  then have w: "walk_target p i = nat ?t" by (simp add: walk_target_def mod_pos_pos_trivial)
  then show "walk_target p i < 0xff00" using t by linarith
  have "(word_of_nat (nat ?t) :: u16) = word_of_int ?t" using t(1) by (rule of_nat_nat)
  then show "0x100 + word_of_nat p + word_of_nat (ins_size i) + word_of_int (ins_relative_target i) =
      (0x100 + word_of_nat (walk_target p i) :: u16)"
    by (simp only: w) (simp add: add.assoc)
qed

lemma step86_instruction:
  assumes "step86 len s \<noteq> stuck86"
  obtains i where "decode_at (image86 len s) (position86 s) = Inr i" and "0x100 \<le> unat (m_ip s)"
    and "step86 len s = instruction86 i (image86 len s ! position86 s) s"
  using assms that by (auto simp: step86_def Let_def split: if_split_asm sum.split_asm)

end
