(* ===== verification/CallStack.thy ===== *)
theory CallStack
  imports Dos8086
begin

text \<open>
  The machine of \<open>Dos8086\<close> without its stack. A program that uses SP and the top of its segment for near
  calls only does not depend on either: \<open>flat86\<close> hides both, and \<open>return_stack\<close> says which offsets are
  stacked. The stack of 256 calls is above \<open>stack_floor\<close>.
\<close>

definition stack_floor :: u16 where
  "stack_floor = 0xfdfe"

definition low_memory :: "(u16 \<Rightarrow> byte) \<Rightarrow> u16 \<Rightarrow> byte" where
  "low_memory mem a = (if a < stack_floor then mem a else 0)"

definition flat86 :: "machine86 \<Rightarrow> machine86" where
  "flat86 s = s\<lparr>m_regs := (m_regs s)(R_sp := 0xfffe), m_mem := low_memory (m_mem s)\<rparr>"

text \<open>An operand that is neither SP nor on the stack.\<close>

definition avoids_stack :: "operand \<Rightarrow> machine86 \<Rightarrow> bool" where
  "avoids_stack op s \<longleftrightarrow> (op_kind op = o_reg \<longrightarrow> op_reg op \<noteq> R_sp) \<and>
     (case effective_address op (m_regs s) of
        Inl _ \<Rightarrow> True
      | Inr a \<Rightarrow> if op_width op = w_byte then a < stack_floor else a < stack_floor - 1)"

lemma flat86_sel [simp]:
  "m_ip (flat86 s) = m_ip s" "m_flags (flat86 s) = m_flags s" "m_setter (flat86 s) = m_setter s"
  "m_written (flat86 s) = m_written s" "m_out (flat86 s) = m_out s"
  "m_regs (flat86 s) = (m_regs s)(R_sp := 0xfffe)" "position86 (flat86 s) = position86 s"
  "m_mem (flat86 s) = low_memory (m_mem s)"
  by (simp_all add: flat86_def position86_def)

lemma flat86_update [simp]:
  "flat86 (s\<lparr>m_ip := ip\<rparr>) = (flat86 s)\<lparr>m_ip := ip\<rparr>" "flat86 (s\<lparr>m_out := out\<rparr>) = (flat86 s)\<lparr>m_out := out\<rparr>"
  "flat86 (s\<lparr>m_flags := f\<rparr>) = (flat86 s)\<lparr>m_flags := f\<rparr>" "flat86 (s\<lparr>m_setter := t\<rparr>) = (flat86 s)\<lparr>m_setter := t\<rparr>"
  "flat86 (written86 op kind s) = written86 op kind (flat86 s)"
  "flat86 (compared86 width x y s) = compared86 width x y (flat86 s)"
  by (simp_all add: flat86_def written86_def compared86_def)

lemma arch_read_hidden [simp]: "r \<noteq> R_sp \<Longrightarrow> arch_read (f(R_sp := x)) r = arch_read f r"
  by (cases r) simp_all

lemma name_write_hidden [simp]:
  "r \<noteq> R_sp \<Longrightarrow> name_write r v (f(R_sp := x)) = (name_write r v f)(R_sp := x)"
  "r \<noteq> R_sp \<Longrightarrow> name_write r v f R_sp = f R_sp"
  by (cases r; simp add: name_write_def is_word_register_def fun_upd_twist)+

lemma flat86_regs [simp]: "flat86 (s\<lparr>m_regs := f\<rparr>) = (flat86 s)\<lparr>m_regs := f(R_sp := 0xfffe)\<rparr>"
  by (simp add: flat86_def)

lemma low_memory_write: "a < stack_floor \<Longrightarrow> low_memory (m(a := v)) = (low_memory m)(a := v)"
  by (auto simp: low_memory_def fun_eq_iff)

lemma low_memory_hidden: "stack_floor \<le> a \<Longrightarrow> low_memory (m(a := v)) = low_memory m"
  by (auto simp: low_memory_def fun_eq_iff)

lemma source86_flat: "avoids_stack op s \<Longrightarrow> source86 op (flat86 s) = source86 op s"
  by (simp add: source86_def avoids_stack_def general_register_def)

lemma effective_address_flat:
  assumes "operand_wf op"
  shows "effective_address op (m_regs (flat86 s)) = effective_address op (m_regs s)"
proof (cases "op_kind op = o_memory")
  case True
  have "R_sp \<notin> set (used_address_registers op)"
    using assms True by (auto simp: operand_wf_def used_address_registers_def)
  then have "foldl (\<lambda>a r. a + m_regs (flat86 s) r) w (used_address_registers op) =
      foldl (\<lambda>a r. a + m_regs s r) w (used_address_registers op)" for w
    by (intro foldl_cong) auto
  then show ?thesis
    using operand_wf_memory(1) [OF assms True]
    by (simp add: effective_address_def used_address_registers_def add_address_registers_fold)
qed (simp add: effective_address_def)

lemma address_fits_flat: "operand_wf op \<Longrightarrow> address_fits op (flat86 s) = address_fits op s"
proof (cases "op_kind op = o_memory")
  case True
  assume "operand_wf op"
  then have "R_sp \<notin> set (used_address_registers op)"
    using True by (auto simp: operand_wf_def used_address_registers_def)
  then have "map (\<lambda>r. int (unat (m_regs (flat86 s) r))) (used_address_registers op) =
      map (\<lambda>r. int (unat (m_regs s r))) (used_address_registers op)"
    by (intro map_cong) auto
  then show ?thesis by (simp only: address_fits_def)
qed (simp add: address_fits_def)

section \<open>Plain instructions\<close>

text \<open>A step leaves SP and the stack alone.\<close>

definition keeps_stack :: "machine86 \<Rightarrow> machine86 \<Rightarrow> bool" where
  "keeps_stack s t \<longleftrightarrow> m_regs t R_sp = m_regs s R_sp \<and> (\<forall>a \<ge> stack_floor. m_mem t a = m_mem s a) \<and> m_ip t = m_ip s"

lemma keeps_stack_simps [simp]:
  "keeps_stack s s" "keeps_stack s (t\<lparr>m_flags := f\<rparr>) = keeps_stack s t" "keeps_stack s (t\<lparr>m_setter := setter\<rparr>) = keeps_stack s t"
  "keeps_stack s (written86 op kind t) = keeps_stack s t"
  "keeps_stack s (compared86 width x y t) = keeps_stack s t"
  "keeps_stack s (s\<lparr>m_regs := regs\<rparr>) \<longleftrightarrow> regs R_sp = m_regs s R_sp"
  by (simp_all add: keeps_stack_def compared86_def)

lemma compare86_flat:
  assumes "compare86 i s = Some s'" and "avoids_stack (fst (ins_operands i)) s" "avoids_stack (snd (ins_operands i)) s"
  shows "compare86 i (flat86 s) = Some (flat86 s') \<and> keeps_stack s s'"
  using assms(1)
proof (rule compare86_cases)
  let ?dst = "fst (ins_operands i)" and ?src = "snd (ins_operands i)"
  fix y assume y: "source86 ?src s = Some y" "op_kind ?dst = o_reg" "op_width ?src = op_width ?dst"
    and s': "s' = compared86 (op_width ?dst) (arch_read (m_regs s) (op_reg ?dst)) y s"
  have "general_register ?dst"
    by (rule ccontr) (use assms(1) in \<open>simp add: compare86_def Let_def\<close>)
  with y s' show ?thesis
    using source86_flat [OF assms(3)] assms(2) by (simp add: compare86_def Let_def avoids_stack_def)
qed

lemma store_instruction86_flat:
  assumes "store_instruction86 i s = Some s'" and "operands_wf i" and "address_fits (fst (ins_operands i)) s"
    and "avoids_stack (fst (ins_operands i)) s" "avoids_stack (snd (ins_operands i)) s"
  shows "store_instruction86 i (flat86 s) = Some (flat86 s') \<and> keeps_stack s s'"
proof -
  let ?dst = "fst (ins_operands i)" and ?src = "snd (ins_operands i)"
  have wf: "operand_wf ?dst" using assms(2) by (simp add: operands_wf_def)
  obtain a v where a: "effective_address ?dst (m_regs s) = Inr a" and v: "source86 ?src s = Some v"
    and width: "op_width ?src = op_width ?dst" and s': "s' = store86 (op_width ?dst) a v s"
    using assms(1) by (auto simp: store_instruction86_def Let_def split: if_split_asm sum.split_asm)
  have mem: "op_kind ?dst = o_memory" using a by (simp add: effective_address_def split: if_split_asm)
  have low: "a < stack_floor" "op_width ?dst \<noteq> w_byte \<Longrightarrow> a + 1 < stack_floor"
  proof -
    show "a < stack_floor" using assms(4) a by (auto simp: avoids_stack_def stack_floor_def word_less_nat_alt split: if_split_asm)
    assume w: "op_width ?dst \<noteq> w_byte"
    from address_fits_next [OF wf mem assms(3) a w] assms(4) a w show "a + 1 < stack_floor"
      by (simp add: avoids_stack_def stack_floor_def word_less_nat_alt)
  qed
  have "flat86 s' = store86 (op_width ?dst) a v (flat86 s)"
    using low by (cases "op_width ?dst") (simp_all add: s' store86_def flat86_def low_memory_write)
  moreover have "keeps_stack s s'"
    using low by (auto simp: s' store86_def keeps_stack_def)
  ultimately show ?thesis
    using a v width source86_flat [OF assms(5)] effective_address_flat [OF wf, of s]
    by (simp add: store_instruction86_def)
qed

lemma load_instruction86_flat:
  assumes "load_instruction86 i s = Some s'" and "operands_wf i" and "address_fits (snd (ins_operands i)) s"
    and "avoids_stack (fst (ins_operands i)) s" "avoids_stack (snd (ins_operands i)) s"
  shows "load_instruction86 i (flat86 s) = Some (flat86 s') \<and> keeps_stack s s'"
proof -
  let ?dst = "fst (ins_operands i)" and ?src = "snd (ins_operands i)"
  have wf: "operand_wf ?src" using assms(2) by (simp add: operands_wf_def)
  obtain a where a: "effective_address ?src (m_regs s) = Inr a" and dst: "general_register ?dst"
    and width: "op_width ?src = op_width ?dst"
    and s': "s' = written86 ?dst as_constant (s\<lparr>m_regs := name_write (op_reg ?dst) (load86 (op_width ?dst) a s) (m_regs s)\<rparr>)"
    using assms(1) by (auto simp: load_instruction86_def Let_def split: if_split_asm sum.split_asm)
  have mem: "op_kind ?src = o_memory" using a by (simp add: effective_address_def split: if_split_asm)
  have low: "a < stack_floor" "op_width ?dst \<noteq> w_byte \<Longrightarrow> a + 1 < stack_floor"
  proof -
    show "a < stack_floor" using assms(5) a by (auto simp: avoids_stack_def stack_floor_def word_less_nat_alt split: if_split_asm)
    assume "op_width ?dst \<noteq> w_byte"
    then have w: "op_width ?src \<noteq> w_byte" using width by simp
    from address_fits_next [OF wf mem assms(3) a w] assms(5) a w show "a + 1 < stack_floor"
      by (simp add: avoids_stack_def stack_floor_def word_less_nat_alt)
  qed
  have "load86 (op_width ?dst) a (flat86 s) = load86 (op_width ?dst) a s"
    using low by (cases "op_width ?dst") (simp_all add: load86_def low_memory_def)
  moreover have sp: "op_reg ?dst \<noteq> R_sp"
    using dst assms(4) by (simp add: avoids_stack_def general_register_def)
  ultimately show ?thesis
    using a dst width effective_address_flat [OF wf, of s]
    by (simp add: load_instruction86_def s' sp Let_def)
qed

lemma register_step_flat:
  assumes "register_step i f = Some g" and "op_reg (fst (ins_operands i)) \<noteq> R_sp"
    and "op_kind (snd (ins_operands i)) = o_reg \<Longrightarrow> op_reg (snd (ins_operands i)) \<noteq> R_sp"
  shows "register_step i (f(R_sp := x)) = Some (g(R_sp := x)) \<and> g R_sp = f R_sp"
  using assms by (auto simp: register_step_def Let_def split: if_split_asm)

lemma register_instruction86_flat:
  assumes "register_instruction86 i opcode s = Some s'"
    and "avoids_stack (fst (ins_operands i)) s" "avoids_stack (snd (ins_operands i)) s"
  shows "register_instruction86 i opcode (flat86 s) = Some (flat86 s') \<and> keeps_stack s s'"
proof -
  let ?dst = "fst (ins_operands i)" and ?src = "snd (ins_operands i)"
  obtain f where f: "register_step i (m_regs s) = Some f" and dst: "general_register ?dst"
    using assms(1) by (auto simp: register_instruction86_def Let_def split: if_split_asm option.split_asm)
  have sp: "op_reg ?dst \<noteq> R_sp" "op_kind ?src = o_reg \<Longrightarrow> op_reg ?src \<noteq> R_sp"
    using assms(2,3) dst by (simp_all add: avoids_stack_def general_register_def)
  note flat = register_step_flat [OF f sp, where x = "0xfffe"]
  with sp(1) assms(1) dst f show ?thesis
    by (auto simp: register_instruction86_def Let_def split: if_split_asm)
qed

lemma plain86_flat:
  assumes "plain86 i opcode s = Some s'" and "operands_wf i"
    and other: "ins_kind i \<noteq> k_nop" "\<not> (ins_kind i = k_arithmetic \<and> op_kind (snd (ins_operands i)) = o_reg)"
    and "address_fits (fst (ins_operands i)) s" "address_fits (snd (ins_operands i)) s"
    and "avoids_stack (fst (ins_operands i)) s" "avoids_stack (snd (ins_operands i)) s"
  shows "plain86 i opcode (flat86 s) = Some (flat86 s')" and "keeps_stack s s'"
proof -
  consider "ins_kind i = k_compare" "ins_alu i = a_compare" "compare86 i s = Some s'"
    | "ins_kind i = k_move" "op_kind (fst (ins_operands i)) = o_memory" "store_instruction86 i s = Some s'"
    | "ins_kind i = k_move" "op_kind (fst (ins_operands i)) \<noteq> o_memory" "op_kind (snd (ins_operands i)) = o_memory"
      "load_instruction86 i s = Some s'"
    | "\<not> (ins_kind i = k_compare \<and> ins_alu i = a_compare)"
      "\<not> (ins_kind i = k_move \<and> op_kind (fst (ins_operands i)) = o_memory)"
      "\<not> (ins_kind i = k_move \<and> op_kind (snd (ins_operands i)) = o_memory)"
      "register_instruction86 i opcode s = Some s'"
    using assms(1) other by (auto simp: plain86_def Let_def split: if_split_asm)
  then have "plain86 i opcode (flat86 s) = Some (flat86 s') \<and> keeps_stack s s'"
  proof cases
    case 1
    with compare86_flat [OF 1(3) assms(7,8)] show ?thesis by (simp add: plain86_def)
  next
    case 2
    with store_instruction86_flat [OF 2(3) assms(2,5,7,8)] show ?thesis by (simp add: plain86_def)
  next
    case 3
    with load_instruction86_flat [OF 3(4) assms(2,6,7,8)] show ?thesis by (simp add: plain86_def)
  next
    case 4
    with register_instruction86_flat [OF 4(4) assms(7,8)] other show ?thesis by (simp only: plain86_def Let_def) auto
  qed
  then show "plain86 i opcode (flat86 s) = Some (flat86 s')" and "keeps_stack s s'" by simp_all
qed

section \<open>Text\<close>

lemma text86_frame [simp]: "text86 a (s\<lparr>m_ip := ip\<rparr>) = text86 a s"
  by (simp add: text86_def)

text \<open>A string that ends below the stack.\<close>

lemma text86_flat:
  assumes "text86 a s = Some message" and "unat a + length message < unat stack_floor"
  shows "text86 a (flat86 s) = Some message"
  using assms
proof (induction a s arbitrary: message rule: string86.induct)
  case (1 a s)
  have low: "a < stack_floor" using 1(3) by (simp add: word_less_nat_alt)
  have step: "text86 a t = (if m_mem t a = 0x24 then Some [] else if a = 0xffff then None
      else map_option (Cons (m_mem t a)) (text86 (a + 1) t))" for t
    unfolding text86_code by (subst string86.simps) (rule refl)
  show ?case
  proof (cases "m_mem s a = 0x24")
    case True
    with 1(2) low show ?thesis by (simp add: step [of s] step [of "flat86 s"] low_memory_def)
  next
    case False
    with 1(2) obtain rest where rest: "a \<noteq> 0xffff" "text86 (a + 1) s = Some rest" "message = m_mem s a # rest"
      by (auto simp: step [of s] split: if_split_asm)
    with 1(3) have "unat (a + 1) + length rest < unat stack_floor" by (simp add: next_address)
    with 1(1) [OF False rest(1,2)] have "text86 (a + 1) (flat86 s) = Some rest" .
    with rest low False show ?thesis by (simp add: step [of "flat86 s"] low_memory_def)
  qed
qed

section \<open>Return addresses\<close>

definition stack_slot :: "nat \<Rightarrow> u16" where
  "stack_slot k = word_of_nat (0xfffe - 2 * k)"

text \<open>The positions behind the calls that have not returned, the first call first.\<close>

definition return_stack :: "machine86 \<Rightarrow> nat list \<Rightarrow> bool" where
  "return_stack s ps \<longleftrightarrow> length ps \<le> 256 \<and> m_regs s R_sp = stack_slot (length ps) \<and>
     load86 w_word (stack_slot 0) s = 0 \<and>
     (\<forall>k < length ps. ps ! k < 0xff00 \<and> load86 w_word (stack_slot (Suc k)) s = 0x100 + word_of_nat (ps ! k))"

lemma stack_slot_nat: "k \<le> 256 \<Longrightarrow> unat (stack_slot k) = 0xfffe - 2 * k"
  unfolding stack_slot_def by (simp only: unat_of_nat) simp

lemma stack_slot_floor:
  assumes "k \<le> 256"
  shows "stack_floor \<le> stack_slot k" and "stack_floor \<le> stack_slot k + 1" and "unat (stack_slot k + 1) = 0xffff - 2 * k"
proof -
  show next_slot: "unat (stack_slot k + 1) = 0xffff - 2 * k"
    using assms by (simp add: unat_word_ariths stack_slot_nat)
  show "stack_floor \<le> stack_slot k" "stack_floor \<le> stack_slot k + 1"
    using assms unfolding word_le_nat_alt next_slot by (simp_all add: stack_slot_nat stack_floor_def)
qed

lemma return_stack_kept:
  assumes "keeps_stack s t"
  shows "return_stack t ps = return_stack s ps"
proof -
  have "load86 w_word (stack_slot k) t = load86 w_word (stack_slot k) s" if "k \<le> 256" for k
    using assms stack_slot_floor [OF that] by (simp add: keeps_stack_def load86_def)
  then show ?thesis
    using assms by (auto simp: return_stack_def keeps_stack_def)
qed

lemma return_stack_top:
  "return_stack s ps \<Longrightarrow> top86 s = (if ps = [] then 0 else 0x100 + word_of_nat (last ps))"
  by (cases ps rule: rev_cases) (auto simp: return_stack_def top86_def nth_append)

lemma slot_above: "k \<le> 256 \<Longrightarrow> 0 < k \<Longrightarrow> stack_slot k + 2 = stack_slot (k - 1)"
  unfolding word_unat_eq_iff [of "stack_slot k + 2"] by (simp add: unat_word_ariths stack_slot_nat)

lemma slot_below: "k < 256 \<Longrightarrow> stack_slot k - 2 = stack_slot (Suc k)"
  using slot_above [of "Suc k"] by (simp add: algebra_simps)

lemma return_stack_pop:
  assumes "return_stack s ps" and "ps \<noteq> []"
  shows "return_stack (popped86 s) (butlast ps)"
proof -
  have "load86 w_word a (popped86 s) = load86 w_word a s" for a by (simp add: load86_def popped86_def)
  with assms slot_above [of "length ps"] show ?thesis
    by (auto simp: return_stack_def popped86_def nth_butlast)
qed

lemma return_stack_push:
  assumes "return_stack s ps" and "length ps < 256" and "p < 0xff00"
  shows "return_stack (push86 (0x100 + word_of_nat p) s) (ps @ [p])" and "flat86 (push86 v s) = flat86 s"
proof -
  let ?t = "push86 (0x100 + word_of_nat p) s"
  have sp: "m_regs s R_sp - 2 = stack_slot (Suc (length ps))"
    using assms(1,2) slot_below by (simp add: return_stack_def)
  have "load86 w_word (stack_slot k) ?t = load86 w_word (stack_slot k) s" if "k \<le> length ps" for k
  proof -
    have "unat (stack_slot k) \<noteq> unat (stack_slot (Suc (length ps)))"
      "unat (stack_slot k) \<noteq> unat (stack_slot (Suc (length ps)) + 1)"
      "unat (stack_slot k + 1) \<noteq> unat (stack_slot (Suc (length ps)))"
      "unat (stack_slot k + 1) \<noteq> unat (stack_slot (Suc (length ps)) + 1)"
      using that assms(2) by (simp_all only: stack_slot_floor(3) stack_slot_nat) presburger+
    then show ?thesis
      unfolding word_unat_eq_iff [symmetric] by (simp add: load86_def push86_def store86_def Let_def sp)
  qed
  moreover have "load86 w_word (stack_slot (Suc (length ps))) ?t = 0x100 + word_of_nat p"
    by (simp add: load86_def push86_def store86_def Let_def sp le16_parts)
  ultimately show "return_stack ?t (ps @ [p])"
    using assms sp by (auto simp: return_stack_def nth_append push86_def store86_def Let_def less_Suc_eq)
  show "flat86 (push86 v s) = flat86 s"
    using stack_slot_floor [of "Suc (length ps)"] assms(2)
    by (auto simp: flat86_def push86_def store86_def Let_def sp low_memory_hidden)
qed

lemma flat86_pop [simp]: "flat86 (popped86 s) = flat86 s"
  by (simp add: flat86_def popped86_def)

text \<open>At the start nothing is stacked, and nothing is hidden.\<close>

lemma start86_stack:
  assumes "length code \<le> 0xfcfe"
  shows "return_stack (start86 code) []" and "flat86 (start86 code) = start86 code"
proof -
  have "stack_slot 0 = 0xfffe" by (simp add: stack_slot_def)
  with assms show "return_stack (start86 code) []"
    by (simp add: return_stack_def load86_def start86_def)
  show "flat86 (start86 code) = start86 code"
    using assms by (auto simp: flat86_def start86_def low_memory_def fun_eq_iff stack_floor_def word_less_nat_alt)
qed

end
