(* ===== verification/BranchingCorrect.thy ===== *)
theory BranchingCorrect
  imports CallStack BranchingLoops
begin

text \<open>
  The branching compiler against the machine of \<open>Dos8086\<close>: a program without a block that is printed as a
  \<open>do\<close> loop behaves like the machine on every run whose states satisfy \<open>branching_fits\<close>. The relation
  \<open>branching_match\<close> keeps the statements that are left of the current block and the state of the printed
  program next to the machine; it is the \<open>match\<close> of an interpretation of \<open>compiled86\<close>.
\<close>

section \<open>When an instruction is translated faithfully\<close>

text \<open>The flags word that \<open>update_flags_cmp\<close> leaves: no sign after a byte comparison, no carry after arithmetic.\<close>

definition printed_flags :: "machine86 \<Rightarrow> u32" where
  "printed_flags s =
     (if cf_zero (m_flags s) then 0x40 else 0) OR
     (if cf_sign (m_flags s) \<and> m_setter s \<noteq> by_byte_compare then 0x8000 else 0) OR
     (if cf_carry (m_flags s) \<and> m_setter s \<noteq> by_arithmetic then 1 else 0)"

definition printed_condition :: "branch_condition \<Rightarrow> machine86 \<Rightarrow> bool" where
  "printed_condition c s = branch_taken (emit_conditional c) ((c_init ())\<lparr>cs_flags := printed_flags s\<rparr>)"

text \<open>
  A DOS call does not end the file, is not its last CD 21 unless it exits, and its text ends below the
  stack. Jumps and calls stay in the segment, and the call has a place to return to. The printed condition
  is the 8086's. The last RET leaves 0 in AL, because the printed program takes the exit code from there.
  Addresses fit, and nothing but calls touches the stack. NOP is printed as an unsupported instruction, and
  arithmetic with a register as its source as if the source were 0.
\<close>

definition interrupt_fits86 :: "byte list \<Rightarrow> instruction \<Rightarrow> machine86 \<Rightarrow> bool" where
  "interrupt_fits86 code i s \<longleftrightarrow>
     (if hi8 (m_regs s R_ax) = 0x4c then True
      else position86 s + ins_size i < length code \<and> position86 s \<noteq> last_interrupt code \<and>
        (if hi8 (m_regs s R_ax) = 0x09 then
           (case text86 (m_regs s R_dx) s of
              None \<Rightarrow> True | Some message \<Rightarrow> uint (m_regs s R_dx) + int (length message) < uint stack_floor)
         else True))"

definition call_fits86 :: "byte list \<Rightarrow> instruction \<Rightarrow> machine86 \<Rightarrow> bool" where
  "call_fits86 code i s \<longleftrightarrow>
     target_fits (position86 s) i \<and> position86 s + ins_size i < length code \<and> stack_floor + 2 \<le> m_regs s R_sp"

definition branch_fits86 :: "byte list \<Rightarrow> instruction \<Rightarrow> machine86 \<Rightarrow> bool" where
  "branch_fits86 code i s \<longleftrightarrow>
     target_fits (position86 s) i \<and> position86 s + ins_size i < length code \<and>
     printed_condition (ins_condition i) s = condition_of_flags (ins_condition i) (m_flags s)"

definition plain_fits86 :: "instruction \<Rightarrow> machine86 \<Rightarrow> bool" where
  "plain_fits86 i s \<longleftrightarrow>
     ins_kind i \<noteq> k_nop \<and> \<not> (ins_kind i = k_arithmetic \<and> op_kind (snd (ins_operands i)) = o_reg) \<and>
     address_fits (fst (ins_operands i)) s \<and> address_fits (snd (ins_operands i)) s \<and>
     avoids_stack (fst (ins_operands i)) s \<and> avoids_stack (snd (ins_operands i)) s"

definition instruction_fits :: "byte list \<Rightarrow> instruction \<Rightarrow> machine86 \<Rightarrow> bool" where
  "instruction_fits code i s \<longleftrightarrow>
     (if ins_kind i = k_interrupt then interrupt_fits86 code i s
      else if ins_kind i = k_jump then target_fits (position86 s) i
      else if ins_kind i = k_conditional_jump then branch_fits86 code i s
      else if ins_kind i = k_call then call_fits86 code i s
      else if ins_kind i = k_return then (if top86 s = 0 then lo8 (m_regs s R_ax) = 0 else True)
      else plain_fits86 i s)"

definition branching_fits :: "byte list \<Rightarrow> machine86 \<Rightarrow> bool" where
  "branching_fits code s \<longleftrightarrow>
     decode_at (image86 (length code) s) (position86 s) = decode_at code (position86 s) \<and>
     (case decode_at code (position86 s) of Inl _ \<Rightarrow> True | Inr i \<Rightarrow> instruction_fits code i s)"

section \<open>The state of the printed program\<close>

text \<open>
  Registers and memory of the guest are those of the machine, SS, DS and the segment of memory operands are
  zero, and what the machine has printed has been written to file descriptor 1.
\<close>

definition represents :: "'h c_host \<Rightarrow> 'h \<Rightarrow> machine86 \<Rightarrow> 'h c_state \<Rightarrow> bool" where
  "represents os h s cs \<longleftrightarrow>
     guest cs = m_regs s \<and> cs_regs cs 10 = 0 \<and> cs_regs cs 11 = 0 \<and> cs_regs cs 19 = 0 \<and>
     (\<forall>a. cs_mem cs (unat a) = m_mem s a) \<and>
     (\<forall>b \<in> {0x40, 0x8000, 1}. flag b cs \<longleftrightarrow> printed_flags s AND b \<noteq> 0) \<and>
     cs_host cs = fold (ch_write os 1) (m_out s) h"

lemma printed_flags_bits:
  "printed_flags s AND 0x40 \<noteq> 0 \<longleftrightarrow> cf_zero (m_flags s)"
  "printed_flags s AND 0x8000 \<noteq> 0 \<longleftrightarrow> cf_sign (m_flags s) \<and> m_setter s \<noteq> by_byte_compare"
  "printed_flags s AND 1 \<noteq> 0 \<longleftrightarrow> cf_carry (m_flags s) \<and> m_setter s \<noteq> by_arithmetic"
  by (simp_all add: printed_flags_def bit.conj_disj_distrib2)

lemma flag_after_byte_compare:
  "flag 0x40 (update_flags_cmp a b True s) \<longleftrightarrow> lo8 a = lo8 b"
  "\<not> flag 0x8000 (update_flags_cmp a b True s)"
  "flag 0x1 (update_flags_cmp a b True s) \<longleftrightarrow> lo8 a < lo8 b"
  by (simp_all add: flag_def update_flags_cmp_def Let_def bit.conj_disj_distrib2)

lemma flag_after_word_compare:
  "flag 0x8000 (update_flags_cmp a b False s) \<longleftrightarrow> (a - b) AND 0x8000 \<noteq> 0"
  "flag 0x1 (update_flags_cmp a b False s) \<longleftrightarrow> a < b"
  by (simp_all add: flag_def update_flags_cmp_def Let_def bit.conj_disj_distrib2)

text \<open>A condition looks at three bits.\<close>

lemma condition_value_cong:
  assumes "\<forall>b \<in> {0x40, 0x8000, 1}. flag b s \<longleftrightarrow> flag b t"
  shows "branch_taken c s = branch_taken c t"
proof (cases c)
  case (Some c)
  then show ?thesis using assms by (cases c) (simp_all add: branch_taken_def)
qed (simp add: branch_taken_def)

lemma represents_condition:
  "represents os h s cs \<Longrightarrow> branch_taken (emit_conditional c) cs = printed_condition c s"
  unfolding printed_condition_def
  by (rule condition_value_cong) (simp add: represents_def flag_def)

section \<open>Plain instructions\<close>

subsection \<open>What a sequence of assignments leaves alone\<close>

text \<open>Assignments do not touch the other registers; without a comparison they keep the flags.\<close>

fun assignment :: "c_stmt \<Rightarrow> bool" where
  "assignment (cs_set_byte i shift v) = True" | "assignment (cs_set_word i v) = True"
| "assignment (cs_update i alu v) = True" | "assignment (cs_compare a b is_byte) = True" | "assignment _ = False"

fun compares_flags :: "c_stmt \<Rightarrow> bool" where
  "compares_flags (cs_compare a b is_byte) = True" | "compares_flags _ = False"

lemma exec_assignment:
  assumes "exec_stmt os n call dispatch stmt s = cr_next s'" and "assignment stmt"
  shows "assigns stmt \<noteq> Some j \<Longrightarrow> cs_regs s' j = cs_regs s j"
    and "\<not> compares_flags stmt \<Longrightarrow> cs_flags s' = cs_flags s"
  using assms by (cases stmt; auto simp: exec_stmt_def with_value_def set_reg_def split: option.split_asm)+

lemma exec_assignments:
  assumes "exec_stmts (exec_stmt os n call dispatch) stmts s = cr_next s'" and "\<forall>stmt \<in> set stmts. assignment stmt"
  shows "\<forall>stmt \<in> set stmts. assigns stmt \<noteq> Some j \<Longrightarrow> cs_regs s' j = cs_regs s j"
    and "\<forall>stmt \<in> set stmts. \<not> compares_flags stmt \<Longrightarrow> cs_flags s' = cs_flags s"
  using assms
proof (induction stmts arbitrary: s)
  case (Cons stmt stmts)
  {
    case 1
    then obtain t where "exec_stmt os n call dispatch stmt s = cr_next t"
      "exec_stmts (exec_stmt os n call dispatch) stmts t = cr_next s'"
      by (cases "exec_stmt os n call dispatch stmt s") (auto simp: exec_stmts.simps(2))
    with 1 Cons.IH(1) [of t] exec_assignment(1) show ?case by fastforce
  next
    case 2
    then obtain t where "exec_stmt os n call dispatch stmt s = cr_next t"
      "exec_stmts (exec_stmt os n call dispatch) stmts t = cr_next s'"
      by (cases "exec_stmt os n call dispatch stmt s") (auto simp: exec_stmts.simps(2))
    with 2 Cons.IH(2) [of t] exec_assignment(2) show ?case by fastforce
  }
qed simp_all

text \<open>Plain instructions leave the array of return addresses alone.\<close>

definition same_calls :: "'h c_state \<Rightarrow> 'h c_state \<Rightarrow> bool" where
  "same_calls s t \<longleftrightarrow> cs_call_sp t = cs_call_sp s \<and> cs_call_stack t = cs_call_stack s"

fun plain_stmt :: "c_stmt \<Rightarrow> bool" where
  "plain_stmt (cs_store is_byte a v) = True" | "plain_stmt cs_comment = True" | "plain_stmt cs_exit_1 = True"
| "plain_stmt cs_clear_direction = True" | "plain_stmt cs_set_direction = True" | "plain_stmt stmt = assignment stmt"

lemma exec_plain_stmt_calls:
  assumes "exec_stmt os n call dispatch stmt s = cr_next s'" and "plain_stmt stmt"
  shows "same_calls s s'"
  using assms
  by (cases stmt; auto simp: exec_stmt_def with_value_def set_reg_def same_calls_def update_flags_cmp_def exit_1_def
      store8_def store16_def Let_def split: option.split_asm if_split_asm)

lemma exec_plain_stmts_calls:
  "exec_stmts (exec_stmt os n call dispatch) stmts s = cr_next s' \<Longrightarrow> \<forall>stmt \<in> set stmts. plain_stmt stmt \<Longrightarrow>
     same_calls s s'"
proof (induction stmts arbitrary: s)
  case (Cons stmt stmts)
  then obtain t where "exec_stmt os n call dispatch stmt s = cr_next t"
    "exec_stmts (exec_stmt os n call dispatch) stmts t = cr_next s'"
    by (cases "exec_stmt os n call dispatch stmt s") (auto simp: exec_stmts.simps(2))
  with Cons exec_plain_stmt_calls show ?case by (fastforce simp: same_calls_def)
qed (simp add: same_calls_def)

lemma emit_plain_stmts: "\<forall>stmt \<in> set (emit_plain code p i). plain_stmt stmt"
  by (simp add: emit_plain_def emit_move_immediate_def emit_move_def emit_arithmetic_def byte_reg_store_def Let_def
      split: prod.split)

subsection \<open>Registers\<close>

definition spares_segments :: "c_stmt \<Rightarrow> bool" where
  "spares_segments stmt \<longleftrightarrow>
     assignment stmt \<and> assigns stmt \<noteq> Some 10 \<and> assigns stmt \<noteq> Some 11 \<and> assigns stmt \<noteq> Some 19"

lemma register_index_small:
  "register_number r < 16 \<Longrightarrow> word_reg_index r < 8"
  "register_number r < 16 \<Longrightarrow> word_reg_index (snd (byte_reg_locus r)) < 8"
  by (cases r; simp add: word_reg_index_def)+

lemma spares_segments_simps [simp]:
  "spares_segments (cs_compare a b is_byte)"
  "register_number r < 16 \<Longrightarrow> spares_segments (cs_set_word (word_reg_index r) v)"
  "register_number r < 16 \<Longrightarrow> spares_segments (cs_update (word_reg_index r) alu x)"
  "register_number r < 16 \<Longrightarrow> spares_segments (byte_reg_store r v)"
  "\<not> compares_flags (byte_reg_store r v)"
  using register_index_small [of r] by (auto simp: spares_segments_def byte_reg_store_def split: prod.split)

lemma emit_plain_assignments:
  assumes "register_step i f \<noteq> None" and "general_register (fst (ins_operands i))"
  shows "\<forall>stmt \<in> set (emit_plain code p i). spares_segments stmt \<and>
      (ins_kind i \<noteq> k_arithmetic \<longrightarrow> \<not> compares_flags stmt)"
proof -
  consider "ins_kind i = k_move_immediate" | "ins_kind i = k_move" "op_kind (snd (ins_operands i)) = o_reg"
    | "ins_kind i = k_arithmetic" "ins_alu i \<noteq> a_compare" "ins_alu i \<noteq> a_test"
    using register_step_none assms(1) by metis
  then show ?thesis
    using assms(2)
    by cases (simp_all add: emit_plain_def emit_move_immediate_def emit_move_def emit_arithmetic_def Let_def
        general_register_def)
qed

lemma same_rest_frame: "same_rest s t \<Longrightarrow> cs_mem t = cs_mem s \<and> cs_host t = cs_host s"
proof -
  assume "same_rest s t"
  then have "t\<lparr>cs_regs := cs_regs s, cs_flags := cs_flags s\<rparr> = s" by (simp add: same_rest_def)
  then have "cs_mem (t\<lparr>cs_regs := cs_regs s, cs_flags := cs_flags s\<rparr>) = cs_mem s"
    "cs_host (t\<lparr>cs_regs := cs_regs s, cs_flags := cs_flags s\<rparr>) = cs_host s" by (simp_all only:)
  then show ?thesis by simp
qed

lemma alu_flags_result:
  assumes "alu_result alu x y = Some r"
  shows "cf_zero (alu_flags alu x y r) \<longleftrightarrow> r = 0" and "cf_sign (alu_flags alu x y r) \<longleftrightarrow> r AND 0x8000 \<noteq> 0"
  using assms by (auto simp: alu_flags_def alu_result_def flags_of_add_def flags_of_logic_def flags_of_compare_def
      sign_bit_def Let_def split: if_split_asm)

text \<open>The flags after the comparison with zero that is printed behind an arithmetic operation.\<close>

lemma arithmetic_flags:
  assumes "exec_stmts (exec_stmt os n call dispatch) (emit_plain code p i) s = cr_next s'"
    and "ins_kind i = k_arithmetic" and "ins_alu i \<noteq> a_compare" and "ins_alu i \<noteq> a_test"
    and "is_word_register (op_reg (fst (ins_operands i)))"
  shows "flag 0x40 s' \<longleftrightarrow> guest s' (op_reg (fst (ins_operands i))) = 0"
    and "flag 0x8000 s' \<longleftrightarrow> guest s' (op_reg (fst (ins_operands i))) AND 0x8000 \<noteq> 0" and "\<not> flag 1 s'"
proof -
  let ?j = "word_reg_index (op_reg (fst (ins_operands i)))"
  obtain x where "s' = update_flags_cmp x 0 False (set_reg ?j x s)"
    using assms(1-4)
    by (auto simp: emit_plain_def emit_arithmetic_def Let_def exec_stmts.simps(2) exec_stmt_def with_value_def
        word_reg_access_def split: option.split_asm)
  then show "flag 0x40 s' \<longleftrightarrow> guest s' (op_reg (fst (ins_operands i))) = 0"
    and "flag 0x8000 s' \<longleftrightarrow> guest s' (op_reg (fst (ins_operands i))) AND 0x8000 \<noteq> 0" and "\<not> flag 1 s'"
    using assms(5) flag_after_word_compare(2) [of _ 0]
    by (simp_all add: flag_after_compare(1) flag_after_word_compare guest_def)
qed

lemma register_instruction_emitted:
  assumes s: "represents os h s cs" and step: "register_instruction86 i opcode s = Some s'"
  shows "\<exists>cs'. exec_stmts (exec_stmt os n call dispatch) (emit_plain code p i) cs = cr_next cs' \<and> represents os h s' cs'"
proof -
  let ?dst = "fst (ins_operands i)" and ?src = "snd (ins_operands i)"
  obtain f where f: "register_step i (m_regs s) = Some f" and dst: "general_register ?dst"
    using step by (auto simp: register_instruction86_def Let_def split: if_split_asm option.split_asm)
  have guest: "guest cs = m_regs s" using s by (simp add: represents_def)
  obtain cs' where cs': "exec_stmts (exec_stmt os n call dispatch) (emit_plain code p i) cs = cr_next cs'"
    "same_rest cs cs'" "guest cs' = f"
    using register_step_emitted [of i cs f] f guest by metis
  note only = emit_plain_assignments [of i "m_regs s", OF _ dst] f
  have regs: "cs_regs cs' j = cs_regs cs j" if "j \<in> {10, 11, 19}" for j
    by (rule exec_assignments(1) [OF cs'(1)]) (use only that in \<open>auto simp: spares_segments_def\<close>)
  have s': "m_regs s' = f" "m_mem s' = m_mem s" "m_out s' = m_out s"
    using step f dst by (auto simp: register_instruction86_def Let_def split: if_split_asm)
  have "\<forall>b \<in> {0x40, 0x8000, 1}. flag b cs' \<longleftrightarrow> printed_flags s' AND b \<noteq> 0"
  proof (cases "ins_kind i = k_arithmetic")
    case False
    have "cs_flags cs' = cs_flags cs"
      by (rule exec_assignments(2) [OF cs'(1)]) (use only False in \<open>auto simp: spares_segments_def\<close>)
    moreover have "m_flags s' = m_flags s" "m_setter s' = m_setter s"
      using step f dst False by (auto simp: register_instruction86_def Let_def)
    then have "printed_flags s' = printed_flags s" by (simp only: printed_flags_def)
    ultimately show ?thesis using s by (simp add: represents_def flag_def)
  next
    case True
    then obtain r where r: "alu_result (ins_alu i) (m_regs s (op_reg ?dst)) (op_immediate ?src) = Some r"
      "f = name_write (op_reg ?dst) r (m_regs s)" "is_word_register (op_reg ?dst)"
      using f dst by (auto simp: register_step_def right_width_def Let_def split: if_split_asm)
    then have alu: "ins_alu i \<noteq> a_compare" "ins_alu i \<noteq> a_test" and "f (op_reg ?dst) = r"
      by (auto simp: alu_result_def name_write_def split: if_split_asm)
    moreover have "m_setter s' = by_arithmetic" "cf_zero (m_flags s') \<longleftrightarrow> r = 0"
      "cf_sign (m_flags s') \<longleftrightarrow> r AND 0x8000 \<noteq> 0"
      using step f dst True alu_flags_result [OF r(1)] calculation(3)
      by (auto simp: register_instruction86_def Let_def split: if_split_asm)
    ultimately show ?thesis
      using arithmetic_flags [OF cs'(1) True alu r(3)] cs'(3) by (simp add: printed_flags_bits)
  qed
  with s cs' s' regs same_rest_frame [OF cs'(2)] show ?thesis by (auto simp: represents_def)
qed

subsection \<open>Values\<close>

text \<open>A register or an immediate, as it is printed.\<close>

definition source_value :: "operand \<Rightarrow> c_value" where
  "source_value op =
     (if op_kind op = o_immediate then cv_const (op_immediate op) else register_access (op_width op = w_byte) op)"

lemma register_access_value:
  assumes "operand_wf op" and "op_kind op = o_reg"
  shows "value_of (register_access (op_width op = w_byte) op) cs = Some (arch_read (guest cs) (op_reg op))"
proof (cases "op_width op = w_byte")
  case True
  with operand_wf_right_width [OF assms] have "\<not> is_word_register (op_reg op)" by (simp add: right_width_def)
  from byte_access_value [OF this] True show ?thesis by (simp add: register_access_def)
next
  case False
  then have "op_width op = w_word" by (cases "op_width op") simp_all
  with operand_wf_right_width [OF assms] have "is_word_register (op_reg op)" by (simp add: right_width_def)
  with False show ?thesis by (simp add: register_access_def word_reg_access_def arch_read_word guest_def)
qed

lemma source_emitted:
  assumes "represents os h s cs" and "operand_wf op" and "source86 op s = Some v"
  shows "value_of (source_value op) cs = Some v"
  using assms register_access_value [OF assms(2), of cs]
  by (auto simp: source86_def source_value_def represents_def general_register_def split: if_split_asm)

subsection \<open>Comparisons\<close>

lemma represents_compared:
  assumes "represents os h s cs"
    and "flag 0x40 (update_flags_cmp a b is_byte cs) \<longleftrightarrow> cf_zero f"
    and "flag 0x8000 (update_flags_cmp a b is_byte cs) \<longleftrightarrow> cf_sign f \<and> t \<noteq> by_byte_compare"
    and "flag 0x1 (update_flags_cmp a b is_byte cs) \<longleftrightarrow> cf_carry f \<and> t \<noteq> by_arithmetic"
  shows "represents os h (s\<lparr>m_flags := f, m_setter := t\<rparr>) (update_flags_cmp a b is_byte cs)"
proof -
  have "cs_mem (update_flags_cmp a b is_byte cs) = cs_mem cs" "cs_host (update_flags_cmp a b is_byte cs) = cs_host cs"
    by (simp_all add: update_flags_cmp_def)
  then show ?thesis using assms by (simp add: represents_def printed_flags_bits)
qed

lemma represents_compare:
  assumes "represents os h s cs"
  shows "represents os h (compared86 width x y s) (update_flags_cmp x y (width = w_byte) cs)"
proof (cases width)
  case w_byte
  show ?thesis
    unfolding w_byte compared86_def by (simp, rule represents_compared [OF assms])
      (simp_all add: flag_after_byte_compare flags_of_byte_compare_def)
next
  case w_word
  show ?thesis
    unfolding w_word compared86_def by (simp, rule represents_compared [OF assms])
      (simp_all add: flag_after_compare(1) flag_after_word_compare flags_of_compare_def Let_def)
qed

lemma compare_emitted:
  assumes s: "represents os h s cs" and wf: "operands_wf i" and kind: "ins_kind i = k_compare" "ins_alu i = a_compare"
    and step: "compare86 i s = Some s'"
  shows "\<exists>cs'. exec_stmts (exec_stmt os n call dispatch) (emit_plain code p i) cs = cr_next cs' \<and> represents os h s' cs'"
proof -
  let ?dst = "fst (ins_operands i)" and ?src = "snd (ins_operands i)" and ?byte = "op_width (fst (ins_operands i)) = w_byte"
  let ?x = "arch_read (m_regs s) (op_reg ?dst)"
  obtain y where y: "source86 ?src s = Some y" and dst: "op_kind ?dst = o_reg" and width: "op_width ?src = op_width ?dst"
    and s': "s' = compared86 (op_width ?dst) ?x y s"
    using step by (rule compare86_cases)
  have wfs: "operand_wf ?dst" "operand_wf ?src" using wf by (simp_all add: operands_wf_def)
  have guest: "guest cs = m_regs s" using s by (simp add: represents_def)
  have x: "value_of (register_access ?byte ?dst) cs = Some ?x"
    using register_access_value [OF wfs(1) dst, of cs] guest by simp
  have "emit_plain code p i = [cs_compare (register_access ?byte ?dst) (source_value ?src) ?byte]"
    using kind width by (simp add: emit_plain_def emit_arithmetic_def source_value_def Let_def)
  then have "exec_stmts (exec_stmt os n call dispatch) (emit_plain code p i) cs =
      cr_next (update_flags_cmp ?x y ?byte cs)"
    using x source_emitted [OF s wfs(2) y] by (simp add: exec_stmt_def with_value_def)
  moreover have "represents os h (compared86 (op_width ?dst) ?x y s) (update_flags_cmp ?x y ?byte cs)"
    by (rule represents_compare [OF s])
  ultimately show ?thesis unfolding s' by blast
qed

subsection \<open>Memory\<close>

lemma address_emitted:
  assumes s: "represents os h s cs" and wf: "operand_wf op" and mem: "op_kind op = o_memory"
    and fits: "address_fits op s" and a: "effective_address op (m_regs s) = Inr a"
  shows "address_value (emit_mem_addr op) cs = Some (unat a)" and "op_width op \<noteq> w_byte \<Longrightarrow> unat (a + 1) = unat a + 1"
proof -
  have guest: "guest cs = m_regs s" using s by (simp add: represents_def)
  have regs: "(\<Sum>r\<leftarrow>map word_reg_index (used_address_registers op). int (unat (cs_regs cs r))) =
      (\<Sum>r\<leftarrow>used_address_registers op. int (unat (m_regs s r)))"
    using operand_wf_memory(3) [OF wf mem] unfolding guest [symmetric] map_map
    by (intro arg_cong [where f = sum_list] map_cong) (auto simp: guest_def)
  then have sum: "address_sum op cs = sint (op_displacement op) + (\<Sum>r\<leftarrow>used_address_registers op. int (unat (m_regs s r)))"
    by (simp add: address_sum_def)
  have inside: "0 \<le> address_sum op cs" "address_sum op cs < 0x10000"
    "op_width op \<noteq> w_byte \<Longrightarrow> address_sum op cs < 0xffff"
    using fits mem unfolding sum address_fits_def Let_def by (auto split: if_split_asm)
  have segment: "unat (address_segment op cs) = 0"
    using s by (simp add: address_segment_def represents_def)
  obtain ea where "effective_address op (guest cs) = Inr ea"
    "address_value (emit_mem_addr op) cs = Some (unat (address_segment op cs) * 16 + unat ea)"
    using emit_mem_addr_effective [OF mem operand_wf_memory [OF wf mem] inside(1,2)] by blast
  with a segment guest show address: "address_value (emit_mem_addr op) cs = Some (unat a)" by simp
  with emit_mem_addr_value [OF mem inside(1,2)] segment inside(1) have "nat (address_sum op cs) = unat a" by simp
  then have sum': "int (unat a) = address_sum op cs" using inside(1) by linarith
  assume "op_width op \<noteq> w_byte"
  then have "int (unat a) < 65535" unfolding sum' by (rule inside(3))
  then have "unat a < 65535" by linarith
  then show "unat (a + 1) = unat a + 1" by (simp add: unat_word_ariths)
qed

lemma memory_frame [simp]:
  "guest (cs\<lparr>cs_mem := mem\<rparr>) = guest cs" "flag b (cs\<lparr>cs_mem := mem\<rparr>) = flag b cs"
  "printed_flags (s\<lparr>m_mem := m\<rparr>) = printed_flags s"
  by (simp_all add: guest_def flag_def printed_flags_def fun_eq_iff)

lemma represents_store8:
  assumes "represents os h s cs"
  shows "store8 (unat a) v cs = cr_next (cs\<lparr>cs_mem := (cs_mem cs)(unat a := v)\<rparr>)"
    and "represents os h (s\<lparr>m_mem := (m_mem s)(a := v)\<rparr>) (cs\<lparr>cs_mem := (cs_mem cs)(unat a := v)\<rparr>)"
proof -
  have "unat a < 65536" using unsigned_less [of a] by simp
  then show "store8 (unat a) v cs = cr_next (cs\<lparr>cs_mem := (cs_mem cs)(unat a := v)\<rparr>)"
    by (simp add: store8_def mem_size_def)
  show "represents os h (s\<lparr>m_mem := (m_mem s)(a := v)\<rparr>) (cs\<lparr>cs_mem := (cs_mem cs)(unat a := v)\<rparr>)"
    using assms by (simp add: represents_def flip: word_unat_eq_iff)
qed

lemma store_emitted:
  assumes s: "represents os h s cs" and wf: "operands_wf i" and kind: "ins_kind i = k_move"
    and mem: "op_kind (fst (ins_operands i)) = o_memory" and fits: "address_fits (fst (ins_operands i)) s"
    and step: "store_instruction86 i s = Some s'"
  shows "\<exists>cs'. exec_stmts (exec_stmt os n call dispatch) (emit_plain code p i) cs = cr_next cs' \<and> represents os h s' cs'"
proof -
  let ?dst = "fst (ins_operands i)" and ?src = "snd (ins_operands i)" and ?byte = "op_width (fst (ins_operands i)) = w_byte"
  have wfs: "operand_wf ?dst" "operand_wf ?src" using wf by (simp_all add: operands_wf_def)
  obtain a v where a: "effective_address ?dst (m_regs s) = Inr a" and v: "source86 ?src s = Some v"
    and width: "op_width ?src = op_width ?dst" and s': "s' = store86 (op_width ?dst) a v s"
    using step by (auto simp: store_instruction86_def Let_def split: if_split_asm sum.split_asm)
  have "op_kind ?src = o_immediate \<or> op_kind ?src = o_reg"
    using v by (auto simp: source86_def general_register_def split: if_split_asm)
  then have "emit_plain code p i = [cs_store ?byte (emit_mem_addr ?dst) (source_value ?src)]"
    using kind mem width by (auto simp: emit_plain_def emit_move_def source_value_def Let_def)
  then have exec: "exec_stmts (exec_stmt os n call dispatch) (emit_plain code p i) cs =
      (if ?byte then store8 (unat a) (lo8 v) cs else store16 (unat a) v cs)"
    using source_emitted [OF s wfs(2) v] address_emitted(1) [OF s wfs(1) mem fits a]
    by (simp add: exec_stmt_def with_value_def)
  note low = represents_store8 [OF s, of a "lo8 v"]
  note high = represents_store8 [OF low(2), of "a + 1" "hi8 v"]
  show ?thesis
  proof (cases ?byte)
    case True
    with exec low s' show ?thesis by (simp add: store86_def)
  next
    case False
    with address_emitted(2) [OF s wfs(1) mem fits a] have "unat (a + 1) = unat a + 1" by simp
    with False exec low high s' show ?thesis by (simp add: store86_def store16_def)
  qed
qed

lemma represents_load8:
  assumes "represents os h s cs"
  shows "load8 (unat a) cs = Some (m_mem s a)"
proof -
  have "unat a < 65536" using unsigned_less [of a] by simp
  with assms show ?thesis by (simp add: load8_def mem_size_def represents_def)
qed

lemma load_emitted:
  assumes s: "represents os h s cs" and wf: "operands_wf i" and kind: "ins_kind i = k_move"
    and mem: "op_kind (snd (ins_operands i)) = o_memory" "op_kind (fst (ins_operands i)) \<noteq> o_memory"
    and fits: "address_fits (snd (ins_operands i)) s" and step: "load_instruction86 i s = Some s'"
  shows "\<exists>cs'. exec_stmts (exec_stmt os n call dispatch) (emit_plain code p i) cs = cr_next cs' \<and> represents os h s' cs'"
proof -
  let ?dst = "fst (ins_operands i)" and ?src = "snd (ins_operands i)"
  have wfs: "operand_wf ?dst" "operand_wf ?src" using wf by (simp_all add: operands_wf_def)
  obtain a where a: "effective_address ?src (m_regs s) = Inr a" and dst: "general_register ?dst"
    and width: "op_width ?src = op_width ?dst"
    and s': "s' = written86 ?dst as_constant (s\<lparr>m_regs := name_write (op_reg ?dst) (load86 (op_width ?dst) a s) (m_regs s)\<rparr>)"
    using step by (auto simp: load_instruction86_def Let_def split: if_split_asm sum.split_asm)
  have guest: "guest cs = m_regs s" using s by (simp add: represents_def)
  note address = address_emitted [OF s wfs(2) mem(1) fits a]
  have right: "right_width ?dst" using operand_wf_right_width [OF wfs(1)] dst by (simp add: general_register_def)
  obtain stmt cs' where stmt: "emit_plain code p i = [stmt]" "spares_segments stmt" "\<not> compares_flags stmt"
    and cs': "exec_stmt os n call dispatch stmt cs = cr_next cs'" "same_rest cs cs'"
      "guest cs' = name_write (op_reg ?dst) (load86 (op_width ?dst) a s) (guest cs)"
  proof (cases "op_width ?dst")
    case w_byte
    then have "\<not> is_word_register (op_reg ?dst)" using right by (simp add: right_width_def)
    moreover have "value_of (cv_mem8 (emit_mem_addr ?src)) cs = Some (ucast (m_mem s a))"
      using address(1) represents_load8 [OF s, of a] by simp
    ultimately show ?thesis
      using exec_byte_store [of "op_reg ?dst" "cv_mem8 (emit_mem_addr ?src)" cs "m_mem s a" os n call dispatch]
        that [of "byte_reg_store (op_reg ?dst) (cv_mem8 (emit_mem_addr ?src))"] kind mem w_byte dst
      by (auto simp: emit_plain_def emit_move_def Let_def load86_def general_register_def)
  next
    case w_word
    then have "is_word_register (op_reg ?dst)" using right by (simp add: right_width_def)
    moreover have "value_of (cv_mem16 (emit_mem_addr ?src)) cs = Some (le16 (m_mem s a) (m_mem s (a + 1)))"
      using address w_word width represents_load8 [OF s, of a] represents_load8 [OF s, of "a + 1"]
      by (simp add: load16_def)
    ultimately show ?thesis
      using exec_word_set [of "op_reg ?dst" "cv_mem16 (emit_mem_addr ?src)" cs _ os n call dispatch]
        that [of "cs_set_word (word_reg_index (op_reg ?dst)) (cv_mem16 (emit_mem_addr ?src))"] kind mem w_word dst
      by (auto simp: emit_plain_def emit_move_def Let_def load86_def general_register_def)
  qed
  have "cs_regs cs' 10 = cs_regs cs 10" "cs_regs cs' 11 = cs_regs cs 11" "cs_regs cs' 19 = cs_regs cs 19"
    "cs_flags cs' = cs_flags cs"
    using exec_assignment [OF cs'(1)] stmt by (simp_all add: spares_segments_def)
  then have "represents os h s' cs'"
    using s s' cs'(3) guest same_rest_frame [OF cs'(2)] by (simp add: represents_def flag_def printed_flags_def)
  with stmt(1) cs'(1) show ?thesis by simp
qed

text \<open>All of them.\<close>

lemma plain_emitted:
  assumes "represents os h s cs" and "operands_wf i" and "plain86 i opcode s = Some s'"
    and "address_fits (fst (ins_operands i)) s" and "address_fits (snd (ins_operands i)) s"
    and other: "ins_kind i \<noteq> k_nop" "\<not> (ins_kind i = k_arithmetic \<and> op_kind (snd (ins_operands i)) = o_reg)"
  shows "\<exists>cs'. exec_stmts (exec_stmt os n call dispatch) (emit_plain code p i) cs = cr_next cs' \<and> represents os h s' cs'"
proof -
  consider "ins_kind i = k_compare" "ins_alu i = a_compare" "compare86 i s = Some s'"
    | "ins_kind i = k_move" "op_kind (fst (ins_operands i)) = o_memory" "store_instruction86 i s = Some s'"
    | "ins_kind i = k_move" "op_kind (fst (ins_operands i)) \<noteq> o_memory" "op_kind (snd (ins_operands i)) = o_memory"
      "load_instruction86 i s = Some s'"
    | "register_instruction86 i opcode s = Some s'"
    using assms(3) other by (auto simp: plain86_def Let_def split: if_split_asm)
  then show ?thesis
  proof cases
    case 1
    from compare_emitted [OF assms(1,2) this] show ?thesis .
  next
    case 2
    from store_emitted [OF assms(1,2) 2(1,2) assms(4) 2(3)] show ?thesis .
  next
    case 3
    from load_emitted [OF assms(1,2) 3(1,3,2) assms(5) 3(4)] show ?thesis .
  next
    case 4
    from register_instruction_emitted [OF assms(1) 4] show ?thesis .
  qed
qed

section \<open>Positions and blocks\<close>

lemma emit_block_body_step:
  assumes "decode_at code p = Inr i"
  shows "emit_block_body code targets 0 p =
    (case emit_terminator code targets p i of
       Some r \<Rightarrow> r
     | None \<Rightarrow> bindE (emit_block_body code targets 0 (p + ins_size i)) (\<lambda>rest. Inr (emit_plain code p i @ rest)))"
  using assms dec.dec_inside [OF assms] by (simp add: emit_block_body.simps [of code targets 0 p])

lemma scan_start_block_step:
  assumes "decode_at code p = Inr i"
  shows "scan_start_block code latest p t =
    (if probe_ends (ins_kind i) then Inr (add_targets code latest p i t)
     else scan_start_block code latest (p + ins_size i) (add_targets code latest p i t))"
  using assms dec.dec_inside [OF assms] by (simp add: scan_start_block.simps [of code latest p] Let_def)

text \<open>A program printed from a COM image that leaves the stack free, without \<open>do\<close> loops.\<close>

definition printed_program :: "byte list \<Rightarrow> c_program \<Rightarrow> bool" where
  "printed_program code prog \<longleftrightarrow> length code \<le> 0xfcfe \<and> emit_c_source (com_image code) = Inr prog \<and>
     (\<forall>b \<in> set (cp_blocks prog). cb_loop b = None)"

definition fixed_starts :: "byte list \<Rightarrow> nat set" where
  "fixed_starts code = (case fix_starts code [0] of Inl _ \<Rightarrow> {} | Inr starts \<Rightarrow> set starts)"

text \<open>
  A position that the scan for block starts has passed: the statements printed from there to the end of its
  block, and all starts that the scan adds from there are in the final set.
\<close>

definition printed_from :: "byte list \<Rightarrow> c_program \<Rightarrow> nat \<Rightarrow> c_stmt list \<Rightarrow> bool" where
  "printed_from code prog p stmts \<longleftrightarrow>
     emit_block_body code (cp_dispatch prog) 0 p = Inr stmts \<and>
     (\<exists>t t'. scan_start_block code (last_interrupt code) p t = Inr t' \<and> set (fst t') \<subseteq> fixed_starts code)"

lemma printed_program_starts:
  assumes "printed_program code prog"
  obtains fixed where "fix_starts code [0] = Inr fixed" "fixed_starts code = set fixed"
    "sweep_starts code 0 fixed = Inr (cp_dispatch prog)"
    "emit_blocks code (cp_dispatch prog) (cp_dispatch prog) = Inr (cp_blocks prog)"
    "cp_main prog = write_main (com_image code)"
  using assms that
  by (auto simp: printed_program_def emit_c_source_def emit_c_runtime_def collect_block_starts_def bindE_eq_Inr
      fixed_starts_def)

lemma block_of_start:
  assumes prog: "printed_program code prog" and l: "l \<in> fixed_starts code"
  obtains b where "block_at prog l = Some b" "cb_loop b = None" "printed_from code prog l (cb_body b)"
proof -
  obtain fixed where fixed: "fix_starts code [0] = Inr fixed" "fixed_starts code = set fixed"
    "sweep_starts code 0 fixed = Inr (cp_dispatch prog)"
    "emit_blocks code (cp_dispatch prog) (cp_dispatch prog) = Inr (cp_blocks prog)"
    using printed_program_starts [OF prog] by metis
  have "l \<in> set (map cb_label (cp_blocks prog))"
    using emit_blocks_labels [OF fixed(4)] sweep_starts_more [OF fixed(3)] l fixed(2) by auto
  then obtain b where b: "block_at prog l = Some b"
    by (cases "block_at prog l") (auto simp: block_at_def find_None_iff)
  then have in_blocks: "b \<in> set (cp_blocks prog)" and label: "cb_label b = l"
    by (auto simp: block_at_def find_Some_iff)
  from in_blocks have loop: "cb_loop b = None" using prog by (simp add: printed_program_def)
  have "emit_block_at code (cp_dispatch prog) l = Inr b"
    using emit_blocks_each [OF fixed(4) in_blocks] label by simp
  with loop have body: "emit_block_body code (cp_dispatch prog) 0 l = Inr (cb_body b)"
    by (auto simp: emit_block_at_def bindE_eq_Inr split: option.split_asm prod.split_asm)
  obtain changed where "scan_starts code (last_interrupt code) fixed (fixed, False) = Inr (fixed, changed)"
    using fix_starts_fixed [OF fixed(1)] by blast
  from scan_starts_each [OF this] l fixed(2) have
    "\<exists>t t'. scan_start_block code (last_interrupt code) l t = Inr t' \<and> set (fst t') \<subseteq> set fixed"
    by simp
  with body fixed(2) have "printed_from code prog l (cb_body b)" by (simp add: printed_from_def)
  with b loop that show ?thesis by blast
qed

lemma entry_start: "printed_program code prog \<Longrightarrow> 0 \<in> fixed_starts code"
  by (elim printed_program_starts) (use fix_starts_fixed in fastforce)

section \<open>Running a block\<close>

definition block_exec :: "'h c_host \<Rightarrow> c_program \<Rightarrow> nat \<Rightarrow> c_stmt \<Rightarrow> 'h c_state \<Rightarrow> 'h c_result" where
  "block_exec os prog n =
     exec_stmt os n (run_block os prog n)
       (\<lambda>a s. if a \<in> set (cp_dispatch prog) then run_block os prog n a s else exit_1 s)"

lemma call_exits:
  assumes "block_at prog l = Some b" and "cb_loop b = None"
    and "exec_stmts (block_exec os prog n) (cb_body b) s = cr_exit e s'"
  shows "run_block os prog (Suc n) l s = cr_exit e s'"
  using assms by (simp add: block_exec_def)

lemma block_exec_call: "block_exec os prog n (cs_block l) s = run_block os prog n l s"
  by (simp add: block_exec_def exec_stmt_def)

section \<open>The match\<close>

text \<open>The offsets in the array of the printed program are block starts, and those on the machine's stack.\<close>

definition calls_match :: "byte list \<Rightarrow> machine86 \<Rightarrow> 'h c_state \<Rightarrow> bool" where
  "calls_match code s cs \<longleftrightarrow>
     (\<exists>ps. return_stack s ps \<and> set ps \<subseteq> fixed_starts code \<and> cs_call_sp cs = length ps \<and>
       (\<forall>k < length ps. cs_call_stack cs k = word_of_nat (ps ! k)))"

lemma calls_match_frame [simp]:
  "calls_match code (s\<lparr>m_ip := ip\<rparr>) cs = calls_match code s cs"
  "calls_match code (s\<lparr>m_out := out\<rparr>) cs = calls_match code s cs"
  "calls_match code s (write_fd os fd data cs) = calls_match code s cs"
  by (simp_all add: calls_match_def return_stack_def load86_def write_fd_def set_host_def)

lemma calls_match_kept:
  assumes "calls_match code s cs" and "keeps_stack s s'" and "cs_call_sp cs' = cs_call_sp cs"
    and "cs_call_stack cs' = cs_call_stack cs"
  shows "calls_match code s' cs'"
  using assms by (simp add: calls_match_def return_stack_kept)

definition branching_match ::
  "'h c_host \<Rightarrow> 'h \<Rightarrow> byte list \<Rightarrow> c_program \<Rightarrow> nat \<Rightarrow> machine86 \<Rightarrow> nat \<times> c_stmt list \<times> 'h c_state \<Rightarrow> bool" where
  "branching_match os h code prog n s = (\<lambda>(m, stmts, cs).
     printed_program code prog \<and> n \<le> m \<and> 0x100 \<le> unat (m_ip s) \<and> printed_from code prog (position86 s) stmts \<and>
     represents os h (flat86 s) cs \<and> calls_match code s cs)"

definition branching_final ::
  "'h c_host \<Rightarrow> 'h \<Rightarrow> c_program \<Rightarrow> nat \<times> c_stmt list \<times> 'h c_state \<Rightarrow> byte \<Rightarrow> byte list list \<Rightarrow> bool" where
  "branching_final os h prog = (\<lambda>(m, stmts, cs) e out.
     \<exists>cs'. exec_stmts (block_exec os prog m) stmts cs = cr_exit e cs' \<and> cs_host cs' = fold (ch_write os 1) out h)"

subsection \<open>One step\<close>

lemma represents_ip [simp]: "represents os h (s\<lparr>m_ip := a\<rparr>) cs = represents os h s cs"
  by (simp add: represents_def printed_flags_def)

text \<open>Going to the start of a block.\<close>

lemma call_matches:
  assumes "printed_program code prog" and "l \<in> fixed_starts code" and "l < 0xff00"
    and "represents os h (flat86 s) cs" and "calls_match code s cs" and "Suc n \<le> m"
  shows "\<exists>t'. branching_match os h code prog n (s\<lparr>m_ip := 0x100 + word_of_nat l\<rparr>) t' \<and>
    (\<forall>e out. branching_final os h prog t' e out \<longrightarrow>
       (\<exists>cs'. run_block os prog m l cs = cr_exit e cs' \<and> cs_host cs' = fold (ch_write os 1) out h))"
proof -
  obtain k where k: "m = Suc k" "n \<le> k" using assms(6) by (cases m) auto
  obtain b where b: "block_at prog l = Some b" "cb_loop b = None" "printed_from code prog l (cb_body b)"
    using block_of_start [OF assms(1,2)] by metis
  have "branching_match os h code prog n (s\<lparr>m_ip := 0x100 + word_of_nat l\<rparr>) (k, cb_body b, cs)"
    using assms(1,3-5) k(2) b(3) position_at [OF assms(3)] by (simp add: branching_match_def)
  moreover have "run_block os prog m l cs = cr_exit e cs'"
    if "exec_stmts (block_exec os prog k) (cb_body b) cs = cr_exit e cs'" for e cs'
    using call_exits [OF b(1,2) that] k(1) by simp
  ultimately show ?thesis by (fastforce simp: branching_final_def)
qed

lemma scan_reaches:
  assumes "printed_from code prog p stmts" and "decode_at code p = Inr i"
  shows "probe_ends (ins_kind i) \<Longrightarrow> \<exists>t. set (fst (add_targets code (last_interrupt code) p i t)) \<subseteq> fixed_starts code"
    and "\<not> probe_ends (ins_kind i) \<Longrightarrow> \<exists>t t'. scan_start_block code (last_interrupt code) (p + ins_size i) t = Inr t' \<and>
      set (fst t') \<subseteq> fixed_starts code"
proof -
  obtain t t' where "scan_start_block code (last_interrupt code) p t = Inr t'" "set (fst t') \<subseteq> fixed_starts code"
    using assms(1) by (auto simp: printed_from_def)
  note step = scan_start_block_step [OF assms(2), of "last_interrupt code" t]
  {
    assume "probe_ends (ins_kind i)"
    with step \<open>scan_start_block code (last_interrupt code) p t = Inr t'\<close> have
      "add_targets code (last_interrupt code) p i t = t'" by simp
    with \<open>set (fst t') \<subseteq> fixed_starts code\<close> show
      "\<exists>t. set (fst (add_targets code (last_interrupt code) p i t)) \<subseteq> fixed_starts code" by blast
  next
    assume "\<not> probe_ends (ins_kind i)"
    with step \<open>scan_start_block code (last_interrupt code) p t = Inr t'\<close> have
      "scan_start_block code (last_interrupt code) (p + ins_size i) (add_targets code (last_interrupt code) p i t) = Inr t'"
      by simp
    with \<open>set (fst t') \<subseteq> fixed_starts code\<close> show
      "\<exists>t t'. scan_start_block code (last_interrupt code) (p + ins_size i) t = Inr t' \<and> set (fst t') \<subseteq> fixed_starts code"
      by blast
  }
qed

lemma plain_matches:
  assumes match: "branching_match os h code prog (Suc n) s (m, stmts, cs)"
    and i: "decode_at code (position86 s) = Inr i" and fits: "instruction_fits code i s"
    and step: "plain86 i opcode s = Some s'"
  shows "\<exists>t'. branching_match os h code prog n (s'\<lparr>m_ip := m_ip s + word_of_nat (ins_size i)\<rparr>) t' \<and>
    (\<forall>e out. branching_final os h prog t' e out \<longrightarrow> branching_final os h prog (m, stmts, cs) e out)"
proof -
  let ?p = "position86 s"
  have prog: "printed_program code prog" and m: "Suc n \<le> m" and ip: "0x100 \<le> unat (m_ip s)"
    and printed: "printed_from code prog ?p stmts" and s: "represents os h (flat86 s) cs" "calls_match code s cs"
    using match by (simp_all add: branching_match_def)
  have kind: "ins_kind i \<in> {k_nop, k_compare, k_move, k_move_immediate, k_arithmetic}" using plain86_kind [OF step] .
  then have plain: "emit_terminator code (cp_dispatch prog) ?p i = None" "\<not> probe_ends (ins_kind i)"
    by (auto simp: emit_terminator_def probe_ends_def Let_def)
  obtain rest where rest: "emit_block_body code (cp_dispatch prog) 0 (?p + ins_size i) = Inr rest"
    "stmts = emit_plain code ?p i @ rest"
    using printed emit_block_body_step [OF i, of "cp_dispatch prog"] plain(1)
    by (auto simp: printed_from_def bindE_eq_Inr)
  have inside: "?p + ins_size i < 0xff00"
    using dec.dec_end [OF i] prog by (simp add: printed_program_def)
  have next_is: "m_ip s + word_of_nat (ins_size i) = 0x100 + word_of_nat (?p + ins_size i)"
    by (subst ip_of_position [OF ip]) (rule next_ip)
  have "printed_from code prog (?p + ins_size i) rest"
    using rest(1) scan_reaches(2) [OF printed i plain(2)] by (simp add: printed_from_def)
  moreover have wf: "operands_wf i" using decode_at_operands [OF i] .
  have fitting: "address_fits (fst (ins_operands i)) s" "address_fits (snd (ins_operands i)) s"
    "avoids_stack (fst (ins_operands i)) s" "avoids_stack (snd (ins_operands i)) s"
    and other: "ins_kind i \<noteq> k_nop" "\<not> (ins_kind i = k_arithmetic \<and> op_kind (snd (ins_operands i)) = o_reg)"
    using fits kind by (auto simp: instruction_fits_def plain_fits86_def)
  note flat = plain86_flat [OF step wf other fitting]
  have "address_fits (fst (ins_operands i)) (flat86 s)" "address_fits (snd (ins_operands i)) (flat86 s)"
    using fitting(1,2) wf by (simp_all add: operands_wf_def address_fits_flat)
  from plain_emitted [OF s(1) wf flat(1) this other] obtain cs' where
    cs': "exec_stmts (block_exec os prog m) (emit_plain code ?p i) cs = cr_next cs'" "represents os h (flat86 s') cs'"
    unfolding block_exec_def by blast
  have "same_calls cs cs'"
    using exec_plain_stmts_calls [OF cs'(1) [unfolded block_exec_def] emit_plain_stmts] .
  then have "calls_match code s' cs'"
    by (intro calls_match_kept [OF s(2) flat(2)]) (simp_all add: same_calls_def)
  ultimately have "branching_match os h code prog n (s'\<lparr>m_ip := m_ip s + word_of_nat (ins_size i)\<rparr>) (m, rest, cs')"
    unfolding next_is using prog m cs'(2) position_at [OF inside] by (simp add: branching_match_def del: of_nat_add)
  moreover have "exec_stmts (block_exec os prog m) stmts cs = exec_stmts (block_exec os prog m) rest cs'"
    using rest(2) cs'(1) by (simp add: exec_stmts_append)
  ultimately show ?thesis by (fastforce simp: branching_final_def)
qed

lemma branch_matches:
  assumes match: "branching_match os h code prog (Suc n) s (m, stmts, cs)"
    and i: "decode_at code (position86 s) = Inr i" and fits: "instruction_fits code i s"
    and kind: "ins_kind i = k_jump \<and> \<not> ins_indirect i \<or> ins_kind i = k_conditional_jump"
    and step: "instruction86 i opcode s = go86 s'"
  shows "\<exists>t'. branching_match os h code prog n s' t' \<and>
    (\<forall>e out. branching_final os h prog t' e out \<longrightarrow> branching_final os h prog (m, stmts, cs) e out)"
proof -
  let ?p = "position86 s" and ?next = "position86 s + ins_size i" and ?target = "walk_target (position86 s) i"
  let ?taken = "ins_kind i = k_jump \<or> condition_of_flags (ins_condition i) (m_flags s)"
  let ?l = "if ?taken then ?target else ?next"
  have prog: "printed_program code prog" and m: "Suc n \<le> m" and ip: "0x100 \<le> unat (m_ip s)"
    and printed: "printed_from code prog ?p stmts" and s: "represents os h (flat86 s) cs" "calls_match code s cs"
    using match by (simp_all add: branching_match_def)
  have target: "target_fits ?p i"
    using fits kind by (auto simp: instruction_fits_def branch_fits86_def Let_def)
  have ends: "probe_ends (ins_kind i)" using kind by (auto simp: probe_ends_def)
  obtain t where scanned: "set (fst (add_targets code (last_interrupt code) ?p i t)) \<subseteq> fixed_starts code"
    using scan_reaches(1) [OF printed i ends] by blast
  have inside: "?l < 0xff00"
    using target_ip(1) [OF target] dec.dec_end [OF i] prog by (simp add: printed_program_def)
  have l: "?l \<in> fixed_starts code"
    using scanned fits kind by (auto simp: add_targets_def Let_def instruction_fits_def branch_fits86_def split: if_split_asm)
  have s': "s' = s\<lparr>m_ip := 0x100 + word_of_nat ?l\<rparr>"
    using step kind target_ip(2) [OF target] next_ip [of ?p "ins_size i"]
    by (subst (asm) instruction86_def, subst (asm) ip_of_position [OF ip])
      (auto simp: Let_def split: if_split_asm)
  have "stmts = [cs_block ?target] \<and> ins_kind i = k_jump \<or>
      stmts = [cs_branch (emit_conditional (ins_condition i)) ?target ?next] \<and> ins_kind i = k_conditional_jump"
    using printed emit_block_body_step [OF i, of "cp_dispatch prog"] kind
    by (auto simp: printed_from_def emit_terminator_def Let_def)
  moreover have "branch_taken (emit_conditional (ins_condition i)) cs = condition_of_flags (ins_condition i) (m_flags s)"
    if "ins_kind i = k_conditional_jump"
    using represents_condition [OF s(1)] fits that
    by (simp add: instruction_fits_def branch_fits86_def printed_condition_def printed_flags_def)
  ultimately have exec: "exec_stmts (block_exec os prog m) stmts cs = run_block os prog m ?l cs"
    by (auto simp: block_exec_call) (simp_all add: block_exec_def exec_stmt_def)
  from call_matches [OF prog l inside s m] show ?thesis
    unfolding s' [symmetric] by (simp add: branching_final_def exec split del: if_split)
qed

subsection \<open>DOS services\<close>

lemma represents_registers:
  assumes "represents os h s cs"
  shows "cs_regs cs 0 = m_regs s R_ax" and "cs_regs cs 2 = m_regs s R_dx" and "ds_dx cs = unat (m_regs s R_dx)"
proof -
  have "guest cs = m_regs s" using assms by (simp add: represents_def)
  then have "guest cs R_ax = m_regs s R_ax" "guest cs R_dx = m_regs s R_dx" by simp_all
  then show "cs_regs cs 0 = m_regs s R_ax" and "cs_regs cs 2 = m_regs s R_dx"
    by (simp_all add: guest_def is_word_register_def word_reg_index_def)
  then show "ds_dx cs = unat (m_regs s R_dx)" using assms by (simp add: ds_dx_def represents_def)
qed

text \<open>A string inside the segment is found in the array.\<close>

lemma text_emitted:
  assumes s: "represents os h s cs" and message: "text86 a s = Some message"
  shows "bytes_until 0x24 (unat a) cs = Some message"
proof -
  let ?rest = "map (\<lambda>k. m_mem s (word_of_nat k)) [unat a..<0x10000]"
  have a: "unat a < 0x10000" using unsigned_less [of a] by simp
  have mem: "cs_mem cs k = m_mem s (word_of_nat k)" if "k < 0x10000" for k
  proof -
    have "unat (word_of_nat k :: u16) = k" using that by (simp only: unat_of_nat) simp
    with s show ?thesis by (metis represents_def)
  qed
  have "[unat a..<mem_size] = [unat a..<0x10000] @ [0x10000..<mem_size]"
    using a by (intro upt_split) (simp_all add: mem_size_def)
  moreover have "map (cs_mem cs) [unat a..<0x10000] = ?rest" by (simp add: mem)
  ultimately have all: "map (cs_mem cs) [unat a..<mem_size] = ?rest @ map (cs_mem cs) [0x10000..<mem_size]"
    by simp
  have found: "0x24 \<in> set ?rest" and is_message: "takeWhile (\<lambda>b. b \<noteq> 0x24) ?rest = message"
    using message unfolding text86_def Let_def if_Some_iff by (rule conjunct1, rule conjunct2)
  have "0x24 \<in> set (map (cs_mem cs) [unat a..<mem_size])" unfolding all set_append using found by (rule UnI1)
  moreover have "takeWhile (\<lambda>b. b \<noteq> 0x24) (map (cs_mem cs) [unat a..<mem_size]) = message"
    unfolding all takeWhile_found [OF found] by (rule is_message)
  ultimately show ?thesis by (simp only: bytes_until_def Let_def if_True)
qed

lemma write_frame [simp]:
  "guest (write_fd os fd data cs) = guest cs" "flag b (write_fd os fd data cs) = flag b cs"
  "cs_mem (write_fd os fd data cs) = cs_mem cs" "cs_host (write_fd os fd data cs) = ch_write os fd data (cs_host cs)"
  "printed_flags (s\<lparr>m_out := out\<rparr>) = printed_flags s"
  by (simp_all add: write_fd_def set_host_def guest_def flag_def printed_flags_def fun_eq_iff)

lemma represents_write:
  "represents os h s cs \<Longrightarrow> represents os h (s\<lparr>m_out := m_out s @ [data]\<rparr>) (write_fd os 1 data cs)"
  by (simp add: represents_def)

lemma dos86_cases:
  assumes "dos86 s = go86 s'"
  obtains data where "s' = s\<lparr>m_out := m_out s @ [data]\<rparr>"
    and "hi8 (m_regs s R_ax) = 2 \<and> data = [lo8 (m_regs s R_dx)] \<or>
      hi8 (m_regs s R_ax) = 9 \<and> text86 (m_regs s R_dx) s = Some data"
  using assms that by (auto simp: dos86_def Let_def split: if_split_asm option.split_asm)

lemma interrupt_matches:
  assumes match: "branching_match os h code prog (Suc n) s (m, stmts, cs)"
    and i: "decode_at code (position86 s) = Inr i" and fits: "instruction_fits code i s"
    and kind: "ins_kind i = k_interrupt" and step: "instruction86 i opcode s = go86 s'"
  shows "\<exists>t'. branching_match os h code prog n s' t' \<and>
    (\<forall>e out. branching_final os h prog t' e out \<longrightarrow> branching_final os h prog (m, stmts, cs) e out)"
proof -
  let ?p = "position86 s" and ?next = "position86 s + ins_size i"
  have prog: "printed_program code prog" and m: "Suc n \<le> m" and ip: "0x100 \<le> unat (m_ip s)"
    and printed: "printed_from code prog ?p stmts" and s: "represents os h (flat86 s) cs" "calls_match code s cs"
    using match by (simp_all add: branching_match_def)
  have number: "ins_interrupt_number i = 0x21"
    and dos: "dos86 (s\<lparr>m_ip := m_ip s + word_of_nat (ins_size i)\<rparr>) = go86 s'"
    using step kind by (auto simp: instruction86_def Let_def split: if_split_asm)
  let ?s1 = "s\<lparr>m_ip := m_ip s + word_of_nat (ins_size i)\<rparr>"
  obtain data where s': "s' = ?s1\<lparr>m_out := m_out ?s1 @ [data]\<rparr>"
    and data: "hi8 (m_regs ?s1 R_ax) = 2 \<and> data = [lo8 (m_regs ?s1 R_dx)] \<or>
      hi8 (m_regs ?s1 R_ax) = 9 \<and> text86 (m_regs ?s1 R_dx) ?s1 = Some data"
    using dos86_cases [OF dos] .
  have "hi8 (m_regs s R_ax) \<noteq> 0x4c" using data by auto
  with fits kind have next_in: "?next < length code" "?p \<noteq> last_interrupt code"
    by (simp_all add: instruction_fits_def interrupt_fits86_def)
  have shown: "text86 (m_regs s R_dx) (flat86 s) = Some data" if ah: "hi8 (m_regs s R_ax) = 9"
  proof -
    have dollar: "text86 (m_regs s R_dx) s = Some data" using ah data by simp
    have "uint (m_regs s R_dx) + int (length data) < uint stack_floor"
      using fits kind ah by (simp add: instruction_fits_def interrupt_fits86_def dollar)
    then have "unat (m_regs s R_dx) + length data < unat stack_floor" by (simp only: uint_nat)
    from text86_flat [OF dollar this] show ?thesis .
  qed
  have int: "rt_int21 os m cs = cr_next (write_fd os 1 data cs)"
    using data represents_registers [OF s(1)] text_emitted [OF s(1)] shown
    by (auto simp: rt_int21_def Let_def with_value_def)
  have ends: "probe_ends (ins_kind i)" using kind by (simp add: probe_ends_def)
  obtain t where "set (fst (add_targets code (last_interrupt code) ?p i t)) \<subseteq> fixed_starts code"
    using scan_reaches(1) [OF printed i ends] by blast
  then have l: "?next \<in> fixed_starts code"
    using kind next_in by (simp add: add_targets_def Let_def)
  then have "?next \<in> set (cp_dispatch prog)"
    using printed_program_starts [OF prog] sweep_starts_more by (metis subsetD)
  then have "stmts = [cs_int21, cs_block ?next]"
    using printed emit_block_body_step [OF i, of "cp_dispatch prog"] kind number next_in(1)
    by (simp add: printed_from_def emit_terminator_def Let_def continue_at_def)
  then have exec: "exec_stmts (block_exec os prog m) stmts cs = run_block os prog m ?next (write_fd os 1 data cs)"
    using int by (simp add: exec_stmts.simps(2) block_exec_call) (simp add: block_exec_def exec_stmt_def)
  have next_ip: "m_ip s + word_of_nat (ins_size i) = 0x100 + word_of_nat ?next"
    by (subst ip_of_position [OF ip]) (rule next_ip)
  have s'_is: "s' = (s\<lparr>m_out := m_out s @ [data]\<rparr>)\<lparr>m_ip := 0x100 + word_of_nat ?next\<rparr>"
    using s' next_ip by simp
  have "?next < 0xff00" using next_in(1) prog by (simp add: printed_program_def)
  note small = this
  have written: "represents os h (flat86 (s\<lparr>m_out := m_out s @ [data]\<rparr>)) (write_fd os 1 data cs)"
    "calls_match code (s\<lparr>m_out := m_out s @ [data]\<rparr>) (write_fd os 1 data cs)"
    using represents_write [OF s(1)] s(2) by simp_all
  from call_matches [OF prog l small written m] show ?thesis
    unfolding s'_is by (simp add: branching_final_def exec)
qed

subsection \<open>Calls\<close>

lemma represents_calls [simp]:
  "represents os h s (cs\<lparr>cs_call_sp := n\<rparr>) = represents os h s cs"
  "represents os h s (cs\<lparr>cs_call_stack := f\<rparr>) = represents os h s cs"
  by (simp_all add: represents_def guest_def flag_def fun_eq_iff)

lemma stacked_nonzero: "p < 0xff00 \<Longrightarrow> (0x100 + word_of_nat p :: u16) \<noteq> 0"
  using unat_image_address [of p] by (metis add_is_0 unsigned_0 zero_neq_numeral)

lemma fixed_starts_dispatched:
  "printed_program code prog \<Longrightarrow> l \<in> fixed_starts code \<Longrightarrow> l \<in> set (cp_dispatch prog)"
  using printed_program_starts sweep_starts_more by (metis subsetD)

lemma call_instruction_matches:
  assumes match: "branching_match os h code prog (Suc n) s (m, stmts, cs)"
    and i: "decode_at code (position86 s) = Inr i" and fits: "instruction_fits code i s"
    and kind: "ins_kind i = k_call" and step: "instruction86 i opcode s = go86 s'"
  shows "\<exists>t'. branching_match os h code prog n s' t' \<and>
    (\<forall>e out. branching_final os h prog t' e out \<longrightarrow> branching_final os h prog (m, stmts, cs) e out)"
proof -
  let ?p = "position86 s" and ?next = "position86 s + ins_size i" and ?target = "walk_target (position86 s) i"
  have prog: "printed_program code prog" and m: "Suc n \<le> m" and ip: "0x100 \<le> unat (m_ip s)"
    and printed: "printed_from code prog ?p stmts" and s: "represents os h (flat86 s) cs" "calls_match code s cs"
    using match by (simp_all add: branching_match_def)
  have direct: "\<not> ins_indirect i" using step kind by (auto simp: instruction86_def Let_def)
  have target: "target_fits ?p i" and next_in: "?next < length code" and room: "stack_floor + 2 \<le> m_regs s R_sp"
    using fits kind by (simp_all add: instruction_fits_def call_fits86_def)
  have next_small: "?next < 0xff00" using next_in prog by (simp add: printed_program_def)
  have ends: "probe_ends (ins_kind i)" using kind by (simp add: probe_ends_def)
  obtain t where "set (fst (add_targets code (last_interrupt code) ?p i t)) \<subseteq> fixed_starts code"
    using scan_reaches(1) [OF printed i ends] by blast
  then have l: "?target \<in> fixed_starts code" "?next \<in> fixed_starts code"
    using kind next_in by (simp_all add: add_targets_def Let_def)
  obtain ps where ps: "return_stack s ps" "set ps \<subseteq> fixed_starts code" "cs_call_sp cs = length ps"
    "\<forall>k < length ps. cs_call_stack cs k = word_of_nat (ps ! k)"
    using s(2) by (auto simp: calls_match_def)
  have depth: "length ps < 256"
    using ps(1) room by (simp add: return_stack_def word_le_nat_alt stack_floor_def stack_slot_nat)
  let ?v = "0x100 + word_of_nat ?next :: u16"
  let ?cs = "cs\<lparr>cs_call_stack := (cs_call_stack cs)(cs_call_sp cs := word_of_nat ?next), cs_call_sp := cs_call_sp cs + 1\<rparr>"
  note pushed = return_stack_push [OF ps(1) depth next_small]
  have calls: "calls_match code (push86 ?v s) ?cs"
    unfolding calls_match_def using pushed(1) ps(2-4) l(2)
    by (intro exI [of _ "ps @ [?next]"]) (auto simp: nth_append less_Suc_eq)
  have rep: "represents os h (flat86 (push86 ?v s)) ?cs" using s(1) pushed(2) [of ?v] by simp
  have next_is: "m_ip s + word_of_nat (ins_size i) = ?v"
    by (subst ip_of_position [OF ip]) (rule next_ip)
  have target_is: "?v + word_of_int (ins_relative_target i) = 0x100 + word_of_nat ?target"
    unfolding next_ip [symmetric] by (rule target_ip(2) [OF target])
  have "instruction86 i opcode s = go86 ((push86 (m_ip s + word_of_nat (ins_size i)) s)
      \<lparr>m_ip := m_ip s + word_of_nat (ins_size i) + word_of_int (ins_relative_target i)\<rparr>)"
    using kind direct by (simp add: instruction86_def Let_def)
  then have s': "s' = (push86 ?v s)\<lparr>m_ip := 0x100 + word_of_nat ?target\<rparr>"
    unfolding step next_is target_is by (simp only: outcome86.inject)
  have "stmts = [cs_push_return ?next, cs_block ?target]"
    using printed emit_block_body_step [OF i, of "cp_dispatch prog"] kind direct
    by (auto simp: printed_from_def emit_terminator_def Let_def)
  then have exec: "exec_stmts (block_exec os prog m) stmts cs = run_block os prog m ?target ?cs"
    using depth ps(3) by (simp add: exec_stmts.simps(2) block_exec_call) (simp add: block_exec_def exec_stmt_def)
  from call_matches [OF prog l(1) target_ip(1) [OF target] rep calls m] show ?thesis
    unfolding s' by (simp add: branching_final_def exec)
qed

lemma return_matches:
  assumes match: "branching_match os h code prog (Suc n) s (m, stmts, cs)"
    and i: "decode_at code (position86 s) = Inr i"
    and kind: "ins_kind i = k_return" and step: "instruction86 i opcode s = go86 s'"
  shows "\<exists>t'. branching_match os h code prog n s' t' \<and>
    (\<forall>e out. branching_final os h prog t' e out \<longrightarrow> branching_final os h prog (m, stmts, cs) e out)"
proof -
  have prog: "printed_program code prog" and m: "Suc n \<le> m"
    and printed: "printed_from code prog (position86 s) stmts" and s: "represents os h (flat86 s) cs" "calls_match code s cs"
    using match by (simp_all add: branching_match_def)
  have top: "top86 s \<noteq> 0" and s': "s' = (popped86 s)\<lparr>m_ip := top86 s\<rparr>"
    using step kind by (auto simp: instruction86_def return86_def Let_def split: if_split_asm)
  obtain ps where ps: "return_stack s ps" "set ps \<subseteq> fixed_starts code" "cs_call_sp cs = length ps"
    "\<forall>k < length ps. cs_call_stack cs k = word_of_nat (ps ! k)"
    using s(2) by (auto simp: calls_match_def)
  have ne: "ps \<noteq> []" and top_is: "top86 s = 0x100 + word_of_nat (last ps)"
    using return_stack_top [OF ps(1)] top by (auto split: if_split_asm)
  have l: "last ps \<in> fixed_starts code" using ps(2) ne by auto
  have small: "last ps < 0xff00" using ps(1) ne by (simp add: return_stack_def last_conv_nth)
  let ?cs = "cs\<lparr>cs_call_sp := cs_call_sp cs - 1\<rparr>"
  have calls: "calls_match code (popped86 s) ?cs"
    unfolding calls_match_def using return_stack_pop [OF ps(1) ne] ps(2-4)
    by (intro exI [of _ "butlast ps"]) (auto simp: nth_butlast dest: in_set_butlastD)
  have rep: "represents os h (flat86 (popped86 s)) ?cs" using s(1) by simp
  have stmts: "stmts = [cs_return]"
    using printed emit_block_body_step [OF i, of "cp_dispatch prog"] kind
    by (auto simp: printed_from_def emit_terminator_def Let_def)
  have "unat (word_of_nat (last ps) :: u16) = last ps"
    using small by (simp only: unat_of_nat) simp
  then have exec: "block_exec os prog m cs_return cs = andthen (run_block os prog m (last ps) ?cs) cr_return"
    using ps(3,4) ne fixed_starts_dispatched [OF prog l]
    by (simp add: block_exec_def exec_stmt_def last_conv_nth)
  from call_matches [OF prog l small rep calls m] show ?thesis
    unfolding s' top_is stmts by (fastforce simp: branching_final_def exec_stmts.simps(2) exec)
qed

subsection \<open>Exits\<close>

lemma dos_exit_matches:
  assumes match: "branching_match os h code prog (Suc n) s (m, stmts, cs)"
    and i: "decode_at code (position86 s) = Inr i" and step: "instruction86 i opcode s = exit86 e"
    and kind: "ins_kind i = k_interrupt"
  shows "branching_final os h prog (m, stmts, cs) e (m_out s)"
proof -
  have printed: "printed_from code prog (position86 s) stmts" and s: "represents os h (flat86 s) cs"
    using match by (simp_all add: branching_match_def)
  have number: "ins_interrupt_number i = 0x21"
    and dos: "dos86 (s\<lparr>m_ip := m_ip s + word_of_nat (ins_size i)\<rparr>) = exit86 e"
    using step kind by (auto simp: instruction86_def Let_def split: if_split_asm)
  have ax: "hi8 (m_regs s R_ax) = 0x4c" "e = lo8 (m_regs s R_ax)"
    using dos by (auto simp: dos86_def Let_def split: if_split_asm option.split_asm)
  obtain rest where "stmts = cs_int21 # rest"
    using printed emit_block_body_step [OF i, of "cp_dispatch prog"] kind number
    by (auto simp: printed_from_def emit_terminator_def Let_def)
  moreover have "block_exec os prog m cs_int21 cs = cr_exit e cs"
    using ax represents_registers [OF s] by (simp add: block_exec_def exec_stmt_def rt_int21_def)
  ultimately have "exec_stmts (block_exec os prog m) stmts cs = cr_exit e cs"
    by (simp add: exec_stmts.simps(2))
  with s show ?thesis by (simp add: branching_final_def represents_def)
qed

text \<open>The last RET.\<close>

lemma return_exit_matches:
  assumes match: "branching_match os h code prog (Suc n) s (m, stmts, cs)"
    and i: "decode_at code (position86 s) = Inr i" and fits: "instruction_fits code i s"
    and step: "instruction86 i opcode s = exit86 e" and kind: "ins_kind i = k_return"
  shows "branching_final os h prog (m, stmts, cs) e (m_out s)"
proof -
  have printed: "printed_from code prog (position86 s) stmts"
    and s: "represents os h (flat86 s) cs" "calls_match code s cs"
    using match by (simp_all add: branching_match_def)
  have top: "top86 s = 0" and e: "e = 0"
    using step kind by (auto simp: instruction86_def return86_def Let_def split: if_split_asm)
  obtain ps where ps: "return_stack s ps" "cs_call_sp cs = length ps"
    using s(2) by (auto simp: calls_match_def)
  have "ps = []"
  proof (rule ccontr)
    assume ne: "ps \<noteq> []"
    then have "last ps < 0xff00" using ps(1) by (simp add: return_stack_def last_conv_nth)
    from stacked_nonzero [OF this] return_stack_top [OF ps(1)] ne top show False by simp
  qed
  moreover have "lo8 (m_regs s R_ax) = 0"
    using fits kind top by (simp add: instruction_fits_def Let_def)
  moreover have "stmts = [cs_return]"
    using printed emit_block_body_step [OF i, of "cp_dispatch prog"] kind
    by (auto simp: printed_from_def emit_terminator_def Let_def)
  ultimately have "exec_stmts (block_exec os prog m) stmts cs = cr_exit e cs"
    using ps(2) e represents_registers(1) [OF s(1)]
    by (simp add: exec_stmts.simps(2) block_exec_def exec_stmt_def)
  with s(1) show ?thesis by (simp add: branching_final_def represents_def)
qed

section \<open>Correctness\<close>

lemma branching_fits_instruction:
  assumes "step86 (length code) s \<noteq> stuck86" and "branching_fits code s"
  obtains i where "decode_at code (position86 s) = Inr i" and "instruction_fits code i s"
    and "step86 (length code) s = instruction86 i (image86 (length code) s ! position86 s) s"
proof -
  obtain i where i: "decode_at (image86 (length code) s) (position86 s) = Inr i"
    and go: "step86 (length code) s = instruction86 i (image86 (length code) s ! position86 s) s"
    using step86_instruction [OF assms(1)] by blast
  have "decode_at code (position86 s) = Inr i" using assms(2) i by (simp add: branching_fits_def)
  moreover with assms(2) have "instruction_fits code i s" by (simp add: branching_fits_def)
  ultimately show ?thesis using go that by blast
qed

lemma branching_step:
  assumes step: "step86 (length code) s = go86 s'" and fits: "branching_fits code s"
    and match: "branching_match os h code prog (Suc n) s t"
  shows "\<exists>t'. branching_match os h code prog n s' t' \<and>
    (\<forall>e out. branching_final os h prog t' e out \<longrightarrow> branching_final os h prog t e out)"
proof -
  obtain m stmts cs where t: "t = (m, stmts, cs)" by (cases t) auto
  obtain i where i: "decode_at code (position86 s) = Inr i" "instruction_fits code i s"
    and go: "instruction86 i (image86 (length code) s ! position86 s) s = go86 s'"
    using branching_fits_instruction [OF _ fits] step by (metis outcome86.distinct(3))
  note match = match [unfolded t]
  consider "ins_kind i = k_interrupt" | "ins_kind i = k_jump \<and> \<not> ins_indirect i \<or> ins_kind i = k_conditional_jump"
    | "ins_kind i = k_call" | "ins_kind i = k_return"
    | s1 where "plain86 i (image86 (length code) s ! position86 s) s = Some s1"
      "s' = s1\<lparr>m_ip := m_ip s + word_of_nat (ins_size i)\<rparr>"
    using go by (auto simp: instruction86_def Let_def split: if_split_asm option.split_asm)
  then show ?thesis
    unfolding t
  proof cases
    case 1
    from interrupt_matches [OF match i this go] show "\<exists>t'. branching_match os h code prog n s' t' \<and>
      (\<forall>e out. branching_final os h prog t' e out \<longrightarrow> branching_final os h prog (m, stmts, cs) e out)" .
  next
    case 2
    from branch_matches [OF match i this go] show "\<exists>t'. branching_match os h code prog n s' t' \<and>
      (\<forall>e out. branching_final os h prog t' e out \<longrightarrow> branching_final os h prog (m, stmts, cs) e out)" .
  next
    case 3
    from call_instruction_matches [OF match i this go] show "\<exists>t'. branching_match os h code prog n s' t' \<and>
      (\<forall>e out. branching_final os h prog t' e out \<longrightarrow> branching_final os h prog (m, stmts, cs) e out)" .
  next
    case 4
    from return_matches [OF match i(1) this go] show "\<exists>t'. branching_match os h code prog n s' t' \<and>
      (\<forall>e out. branching_final os h prog t' e out \<longrightarrow> branching_final os h prog (m, stmts, cs) e out)" .
  next
    case 5
    from plain_matches [OF match i 5(1)] 5(2) show "\<exists>t'. branching_match os h code prog n s' t' \<and>
      (\<forall>e out. branching_final os h prog t' e out \<longrightarrow> branching_final os h prog (m, stmts, cs) e out)" by simp
  qed
qed

lemma branching_exit:
  assumes step: "step86 (length code) s = exit86 e" and fits: "branching_fits code s"
    and match: "branching_match os h code prog (Suc n) s t"
  shows "branching_final os h prog t e (m_out s)"
proof -
  obtain m stmts cs where t: "t = (m, stmts, cs)" by (cases t) auto
  obtain i where i: "decode_at code (position86 s) = Inr i" "instruction_fits code i s"
    and go: "instruction86 i (image86 (length code) s ! position86 s) s = exit86 e"
    using branching_fits_instruction [OF _ fits] step by (metis outcome86.distinct(5))
  have "ins_kind i = k_interrupt \<or> ins_kind i = k_return"
    using go by (auto simp: instruction86_def Let_def split: if_split_asm option.split_asm)
  with dos_exit_matches [OF match [unfolded t] i(1) go] return_exit_matches [OF match [unfolded t] i go] show ?thesis
    by (auto simp: t)
qed

interpretation branching: compiled86 "length code" "branching_fits code" "branching_match os h code prog"
    "branching_final os h prog"
  for os :: "'h c_host" and h :: 'h and code :: "byte list" and prog :: c_program
  by unfold_locales (fact branching_step, fact branching_exit)

text \<open>The printed program starts in the machine's state.\<close>

lemma start_represented:
  assumes "length code < 0xff00"
  shows "\<exists>cs. load_main (write_main (com_image code)) (c_init h) = cr_next cs \<and> represents os h (start86 code) cs \<and>
    cs_call_sp cs = 0"
proof -
  let ?mem = "\<lambda>k. if 0x100 \<le> k \<and> k < 0x100 + length code then code ! (k - 0x100) else cs_mem (c_init h) k"
  let ?cs = "set_reg 4 0xfffe ((c_init h)\<lparr>cs_mem := ?mem\<rparr>)"
  have "load_main (write_main (com_image code)) (c_init h) = cr_next ?cs"
    using assms by (simp add: load_main_def write_main_def store_bytes_def mem_size_def set_regs_def)
  moreover have "guest ?cs = m_regs (start86 code)"
  proof
    fix r
    show "guest ?cs r = m_regs (start86 code) r"
      by (cases r) (simp_all add: guest_def start86_def c_init_def is_word_register_def word_reg_index_def)
  qed
  then have "represents os h (start86 code) ?cs"
    by (simp add: represents_def start86_def c_init_def set_reg_def flag_def printed_flags_def no_flags_def)
  moreover have "cs_call_sp ?cs = 0" by (simp add: c_init_def set_reg_def)
  ultimately show ?thesis by blast
qed

text \<open>The whole program: what the machine does is what the printed program does.\<close>

lemma branching_compiled:
  assumes prog: "printed_program code prog" and run: "run86 (length code) n (start86 code) = Some (e, out)"
    and fits: "always86 (branching_fits code) (length code) n (start86 code)" and fuel: "n < m"
  shows "\<exists>s. run_c_program os m prog h = cr_exit e s \<and> cs_host s = fold (ch_write os 1) out h"
proof -
  obtain k where k: "m = Suc k" "n \<le> k" using fuel by (cases m) auto
  obtain cs where cs: "load_main (write_main (com_image code)) (c_init h) = cr_next cs"
    "represents os h (start86 code) cs" "cs_call_sp cs = 0"
    using start_represented [of code h os] prog by (auto simp: printed_program_def)
  obtain b where b: "block_at prog 0 = Some b" "cb_loop b = None" "printed_from code prog 0 (cb_body b)"
    using block_of_start [OF prog entry_start [OF prog]] by metis
  have len: "length code \<le> 0xfcfe" using prog by (simp add: printed_program_def)
  have "cs_call_sp cs = 0" using cs(3) .
  then have "calls_match code (start86 code) cs"
    using start86_stack(1) [OF len] by (auto simp: calls_match_def intro!: exI [of _ "[]"])
  moreover have "m_ip (start86 code) = 0x100" "position86 (start86 code) = 0"
    by (simp_all add: start86_def position86_def)
  ultimately have "branching_match os h code prog n (start86 code) (k, cb_body b, cs)"
    using prog k(2) b(3) cs(2) by (simp add: branching_match_def start86_stack(2) [OF len])
  from branching.translation_correct [OF run fits this] obtain s where
    body: "exec_stmts (block_exec os prog k) (cb_body b) cs = cr_exit e s" and "cs_host s = fold (ch_write os 1) out h"
    by (auto simp: branching_final_def)
  moreover have "run_block os prog m 0 cs = cr_exit e s" using call_exits [OF b(1,2) body] k(1) by simp
  moreover have "cp_main prog = write_main (com_image code)" using printed_program_starts [OF prog] by metis
  moreover have "cm_entry (write_main (com_image code)) = 0" by (simp add: write_main_def)
  ultimately show ?thesis
    using cs(1) by (simp add: run_c_program_def del: run_block.simps)
qed

end
