(* ===== verification/StraightCorrect.thy ===== *)
theory StraightCorrect
  imports Dos8086 StraightPrograms
begin

text \<open>
  The straight-line compiler against the machine of \<open>Dos8086\<close>. The compiler executes the program while it
  compiles it, on two copies of the registers: the concrete file, and the constants of the SSA table. The
  relation \<open>straight_rel\<close> says which parts of both copies can be trusted; it is the \<open>match\<close> of an
  interpretation of \<open>compiled86\<close>, whose conclusion is that the exit code and the writes collected by a walk
  that succeeds are those of the machine.
\<close>

section \<open>When an instruction is executed faithfully\<close>

text \<open>
  A register whose value is a constant of the table, or a copy of one. Byte writes do not reach the word's
  entry in the table, and word writes do not reach the halves in the concrete file.
\<close>

definition known_word :: "machine86 \<Rightarrow> register_name \<Rightarrow> bool" where
  "known_word s r \<longleftrightarrow> m_written s r = as_constant \<or> m_written s r = as_computed"

definition fresh_halves :: "machine86 \<Rightarrow> register_name \<Rightarrow> bool" where
  "fresh_halves s r \<longleftrightarrow> m_written s r = not_written \<or> m_written s r = as_bytes"

definition straight_instruction_fits :: "instruction \<Rightarrow> machine86 \<Rightarrow> bool" where
  "straight_instruction_fits i s \<longleftrightarrow>
     (let dst = fst (ins_operands i); src = snd (ins_operands i); ah = hi8 (m_regs s R_ax)
      in if ins_kind i = k_interrupt then ah = 0x4c \<or> ah = 0x09 \<and> known_word s R_dx
         else if ins_kind i = k_jump then target_fits (position86 s) i
         else if ins_kind i = k_conditional_jump then
           target_fits (position86 s) i \<and> m_setter s = by_word_compare
         else if ins_kind i = k_compare then
           op_width dst = w_word \<and> known_word s (op_reg dst) \<and> (op_kind src = o_reg \<longrightarrow> known_word s (op_reg src))
         else if ins_kind i = k_move \<and> op_kind dst = o_memory then True
         else (ins_kind i = k_move_immediate \<or> ins_kind i = k_move) \<and>
           (op_width dst = w_byte \<longrightarrow> fresh_halves s (whole_register dst)) \<and> address_fits src s \<and>
           (op_kind src = o_reg \<longrightarrow> op_width src = w_word \<and> m_written s (op_reg src) = as_constant))"

definition straight_fits :: "byte list \<Rightarrow> machine86 \<Rightarrow> bool" where
  "straight_fits code s \<longleftrightarrow>
     decode_at (image86 (length code) s) (position86 s) = decode_at code (position86 s) \<and>
     (case decode_at code (position86 s) of Inl _ \<Rightarrow> True | Inr i \<Rightarrow> straight_instruction_fits i s)"

section \<open>The concrete register file\<close>

definition file_matches :: "machine86 \<Rightarrow> register_values \<Rightarrow> bool" where
  "file_matches s values \<longleftrightarrow>
     (\<forall>r. is_word_register r \<longrightarrow> values r = m_regs s r) \<and>
     (\<forall>r. \<not> is_word_register r \<longrightarrow> fresh_halves s (snd (byte_reg_locus r)) \<longrightarrow>
        values r = arch_read (m_regs s) r)"

lemma register_for_word:
  assumes "register_for r = Some d" and "is_word_register r"
  shows "store_concrete d v values = values(r := v)"
  using assms by (cases r) (simp_all add: store_concrete_def is_word_register_def)

lemma arch_read_other:
  "\<not> is_word_register b \<Longrightarrow> snd (byte_reg_locus b) \<noteq> r \<Longrightarrow> arch_read (f(r := v)) b = arch_read f b"
  by (cases b) (auto simp: is_word_register_def)

lemma written86_fresh:
  "fresh_halves (written86 op kind s) r \<longleftrightarrow>
     (if r = whole_register op then op_width op = w_byte \<or> kind = not_written \<or> kind = as_bytes
      else fresh_halves s r)"
  by (auto simp: fresh_halves_def written86_def)

lemma fresh_halves_frame [simp]: "fresh_halves (s\<lparr>m_regs := f\<rparr>) r = fresh_halves s r"
  by (simp add: fresh_halves_def)

text \<open>A word register is written.\<close>

lemma file_write_word:
  assumes "file_matches s values" and "op_width op = w_word" and "is_word_register (op_reg op)"
    and "register_for (op_reg op) = Some d" and "kind = as_constant \<or> kind = as_computed"
  shows "file_matches (written86 op kind (s\<lparr>m_regs := name_write (op_reg op) v (m_regs s)\<rparr>)) (store_concrete d v values)"
proof -
  have whole: "whole_register op = op_reg op" using assms(2) by (simp add: whole_register_def)
  show ?thesis
    unfolding file_matches_def register_for_word [OF assms(4,3)]
    using assms whole by (auto simp: file_matches_def name_write_def written86_fresh arch_read_other)
qed

text \<open>A byte register is written while the other half is up to date.\<close>

lemma arch_read_name_write:
  assumes "\<not> is_word_register r" and "\<not> is_word_register b"
  shows "arch_read (name_write r v f) b = (if b = r then ucast (lo8 v) else arch_read f b)"
proof -
  have "is_word_register r \<or> is_word_register b \<or>
      arch_read (name_write r v f) b = (if b = r then ucast (lo8 v) else arch_read f b)"
    by (cases r; (simp add: is_word_register_def; fail)?; cases b)
      (simp_all add: is_word_register_def name_write_def)
  with assms show ?thesis by blast
qed

lemma store_concrete_byte:
  assumes "register_for r = Some d" and "\<not> is_word_register r"
    and "\<forall>b. \<not> is_word_register b \<longrightarrow> snd (byte_reg_locus b) = snd (byte_reg_locus r) \<longrightarrow> values b = arch_read f b"
  shows "store_concrete d v values =
    values(r := ucast (lo8 v), snd (byte_reg_locus r) := name_write r v f (snd (byte_reg_locus r)))"
proof -
  have halves: "values R_al = ucast (lo8 (f R_ax)) \<and> values R_ah = ucast (hi8 (f R_ax))" if "snd (byte_reg_locus r) = R_ax"
    using assms(3) [rule_format, of R_al] assms(3) [rule_format, of R_ah] that by (simp add: is_word_register_def)
  moreover have "values R_cl = ucast (lo8 (f R_cx)) \<and> values R_ch = ucast (hi8 (f R_cx))" if "snd (byte_reg_locus r) = R_cx"
    using assms(3) [rule_format, of R_cl] assms(3) [rule_format, of R_ch] that by (simp add: is_word_register_def)
  moreover have "values R_dl = ucast (lo8 (f R_dx)) \<and> values R_dh = ucast (hi8 (f R_dx))" if "snd (byte_reg_locus r) = R_dx"
    using assms(3) [rule_format, of R_dl] assms(3) [rule_format, of R_dh] that by (simp add: is_word_register_def)
  moreover have "values R_bl = ucast (lo8 (f R_bx)) \<and> values R_bh = ucast (hi8 (f R_bx))" if "snd (byte_reg_locus r) = R_bx"
    using assms(3) [rule_format, of R_bl] assms(3) [rule_format, of R_bh] that by (simp add: is_word_register_def)
  ultimately show ?thesis
    using assms(1,2)
    by (cases r) (auto simp: store_concrete_def merge_into_word_def le16_shift name_write_def is_word_register_def
        set_low_def set_high_def lo8_def [symmetric])
qed

lemma byte_register_whole: "\<not> is_word_register r \<Longrightarrow> is_word_register (snd (byte_reg_locus r))"
  by (cases r) (simp_all add: is_word_register_def)

lemma name_write_byte_other:
  "\<not> is_word_register r \<Longrightarrow> w \<noteq> snd (byte_reg_locus r) \<Longrightarrow> name_write r v f w = f w"
  by (auto simp: name_write_def split: prod.split)

lemma file_write_byte:
  assumes conc: "file_matches s values" and width: "op_width op = w_byte" and byte: "\<not> is_word_register (op_reg op)"
    and d: "register_for (op_reg op) = Some d" and fresh: "fresh_halves s (whole_register op)"
  shows "file_matches (written86 op kind (s\<lparr>m_regs := name_write (op_reg op) v (m_regs s)\<rparr>)) (store_concrete d v values)"
proof -
  let ?r = "op_reg op" and ?w = "snd (byte_reg_locus (op_reg op))"
  have whole: "whole_register op = ?w" using width by (simp add: whole_register_def)
  have w: "is_word_register ?w" using byte_register_whole [OF byte] .
  have "\<forall>b. \<not> is_word_register b \<longrightarrow> snd (byte_reg_locus b) = ?w \<longrightarrow> values b = arch_read (m_regs s) b"
    using conc fresh whole by (auto simp: file_matches_def)
  note store = store_concrete_byte [OF d byte this]
  have r_w: "?r \<noteq> ?w" using byte w by metis
  show ?thesis
    unfolding file_matches_def store
  proof (intro conjI allI impI)
    fix r assume "is_word_register r"
    then show "(values(?r := ucast (lo8 v), ?w := name_write ?r v (m_regs s) ?w)) r =
        m_regs (written86 op kind (s\<lparr>m_regs := name_write ?r v (m_regs s)\<rparr>)) r"
      using conc byte name_write_byte_other [OF byte, of r v "m_regs s"] by (auto simp: file_matches_def)
  next
    fix b assume b: "\<not> is_word_register b"
      and "fresh_halves (written86 op kind (s\<lparr>m_regs := name_write ?r v (m_regs s)\<rparr>)) (snd (byte_reg_locus b))"
    then have "snd (byte_reg_locus b) = ?w \<or> fresh_halves s (snd (byte_reg_locus b))"
      by (simp add: written86_fresh whole split: if_split_asm)
    then have "fresh_halves s (snd (byte_reg_locus b))" using fresh whole by auto
    then have "values b = arch_read (m_regs s) b" using conc b by (simp add: file_matches_def)
    moreover have "b \<noteq> ?w" using b w by metis
    ultimately show "(values(?r := ucast (lo8 v), ?w := name_write ?r v (m_regs s) ?w)) b =
        arch_read (m_regs (written86 op kind (s\<lparr>m_regs := name_write ?r v (m_regs s)\<rparr>))) b"
      using arch_read_name_write [OF byte b] by simp
  qed
qed

section \<open>Values of the table\<close>

definition constant_at :: "ssa_table \<Rightarrow> nat \<Rightarrow> u16 \<Rightarrow> bool" where
  "constant_at vs n v \<longleftrightarrow> n < length vs \<and> sv_constant (vs ! n) = Some v"

text \<open>A constant, or a copy of one.\<close>

definition value_at :: "ssa_table \<Rightarrow> nat \<Rightarrow> u16 \<Rightarrow> bool" where
  "value_at vs n v \<longleftrightarrow> constant_at vs n v \<or>
     n < length vs \<and> sv_constant (vs ! n) = None \<and> sv_operation (vs ! n) = None \<and>
     (\<exists>x. sv_inputs (vs ! n) = [x] \<and> constant_at vs x v)"

definition flags_at :: "ssa_table \<Rightarrow> nat \<Rightarrow> compare_flags \<Rightarrow> bool" where
  "flags_at vs n f \<longleftrightarrow> n < length vs \<and>
     (sv_operation (vs ! n) = None \<and> sv_inputs (vs ! n) = [] \<and> f = no_flags \<or>
      sv_operation (vs ! n) = Some op_compare \<and>
      (\<exists>a b l r. sv_inputs (vs ! n) = [a, b] \<and> value_at vs a l \<and> value_at vs b r \<and> f = flags_of_compare l r))"

lemma constant_at_extends: "constant_at vs n v \<Longrightarrow> extends vs ws \<Longrightarrow> constant_at ws n v"
  using extends_length [of vs ws] by (simp add: constant_at_def extends_nth)

lemma value_at_extends: "value_at vs n v \<Longrightarrow> extends vs ws \<Longrightarrow> value_at ws n v"
  using extends_length [of vs ws] constant_at_extends [of vs _ v ws]
  by (auto simp: value_at_def extends_nth)

lemma flags_at_extends:
  assumes "flags_at vs n f" and ext: "extends vs ws"
  shows "flags_at ws n f"
proof -
  have n: "n < length vs" "ws ! n = vs ! n" "n < length ws"
    using assms extends_length [OF ext] by (simp_all add: flags_at_def extends_nth)
  with assms(1) value_at_extends [OF _ ext] show ?thesis unfolding flags_at_def n(2) by blast
qed

lemma constant_at_new: "constant_at (vs @ [constant_value n r v]) (length vs) v"
  by (simp add: constant_at_def constant_value_def)

lemma resolve_exit_code_value:
  assumes "value_at vs n v"
  shows "resolve_exit_code vs n = Some (Inr v)"
proof -
  have base: "resolve_exit_code vs x = Some (Inr v)" if "constant_at vs x v" for x
    using that by (subst resolve_exit_code.simps) (simp add: constant_at_def)
  from assms consider "constant_at vs n v" | x where "n < length vs" "sv_constant (vs ! n) = None"
    "sv_operation (vs ! n) = None" "sv_inputs (vs ! n) = [x]" "constant_at vs x v"
    by (auto simp: value_at_def)
  then show ?thesis
  proof cases
    case 2
    then show ?thesis
      using base [OF 2(5)] by (subst resolve_exit_code.simps) (simp add: constant_operands_def)
  qed (rule base)
qed

lemma resolve_constant_value:
  assumes "value_at vs n v"
  shows "resolve_constant vs n = Some (Inr (Some v))"
proof -
  have base: "resolve_constant vs x = Some (Inr (Some v))" if "constant_at vs x v" for x
    using that by (subst resolve_constant.simps) (simp add: constant_at_def)
  from assms consider "constant_at vs n v" | x where "n < length vs" "sv_constant (vs ! n) = None"
    "sv_operation (vs ! n) = None" "sv_inputs (vs ! n) = [x]" "constant_at vs x v"
    by (auto simp: value_at_def)
  then show ?thesis
  proof cases
    case 2
    then show ?thesis
      using base [OF 2(5)] by (subst resolve_constant.simps) (simp add: constant_operands_def)
  qed (rule base)
qed

lemma resolve_flags_value:
  assumes "flags_at vs n f"
  shows "resolve_compare_flags vs n = Some (Inr f)"
proof -
  have n: "n < length vs" using assms by (simp add: flags_at_def)
  from assms consider "sv_operation (vs ! n) = None" "sv_inputs (vs ! n) = []" "f = no_flags"
    | a b l r where "sv_operation (vs ! n) = Some op_compare" "sv_inputs (vs ! n) = [a, b]" "value_at vs a l"
      "value_at vs b r" "f = flags_of_compare l r"
    by (auto simp: flags_at_def)
  then show ?thesis
  proof cases
    case 1
    with n show ?thesis by (subst resolve_compare_flags.simps) (simp add: flag_operation_def)
  next
    case 2
    from resolve_compare_flags_compare [OF n 2(1,2) resolve_constant_value [OF 2(3)] resolve_constant_value [OF 2(4)]]
      2(5) show ?thesis by simp
  qed
qed

section \<open>The relation\<close>

definition known_table :: "machine86 \<Rightarrow> ssa_table \<Rightarrow> register_state \<Rightarrow> bool" where
  "known_table s vs st \<longleftrightarrow>
     (\<forall>r d. register_for r = Some d \<longrightarrow> is_word_register r \<longrightarrow>
        (m_written s r = as_constant \<longrightarrow> constant_at vs (st d) (m_regs s r)) \<and>
        (m_written s r = as_computed \<longrightarrow> value_at vs (st d) (m_regs s r))) \<and>
     (m_setter s = by_word_compare \<longrightarrow> flags_at vs (st V_flags) (m_flags s))"

definition console_write :: "byte list \<Rightarrow> write_call" where
  "console_write data = \<lparr>wc_payload = data, wc_file_descriptor = 1\<rparr>"

definition straight_rel :: "machine86 \<Rightarrow> translation_state \<Rightarrow> bool" where
  "straight_rel s ts \<longleftrightarrow>
     file_matches s (sl_registers ts) \<and> known_table s (sl_table ts) (sl_state ts) \<and>
     (\<forall>a. mem_bytes (sl_memory ts) (unat a) = m_mem s a) \<and>
     sl_actions ts = [] \<and> sl_writes ts = map console_write (m_out s)"

lemma known_word_value:
  assumes "known_table s vs st" and "register_for r = Some d" and "is_word_register r" and "known_word s r"
  shows "value_at vs (st d) (m_regs s r)"
  using assms by (auto simp: known_table_def known_word_def value_at_def)

lemma register_for_distinct: "register_for r = Some d \<Longrightarrow> register_for q = Some d \<Longrightarrow> r = q"
  by (cases r; cases q) simp_all

lemma register_for_not_flags: "register_for r \<noteq> Some V_flags"
  by (cases r) simp_all

text \<open>The table after a register was written.\<close>

lemma known_table_write:
  assumes known: "known_table s vs st" and ext: "extends vs ws"
    and d: "register_for (op_reg op) = Some d" and width: "right_width op" and general: "general_register op"
    and new: "op_width op = w_word \<Longrightarrow> kind = as_constant \<and> constant_at ws n v \<or> kind = as_computed \<and> value_at ws n v"
  shows "known_table (written86 op kind (s\<lparr>m_regs := name_write (op_reg op) v (m_regs s)\<rparr>)) ws (st(d := n))"
proof -
  have flags: "d \<noteq> V_flags" using d register_for_not_flags by metis
  have other: "st' q = st q" if "st' = st(d := n)" "register_for r = Some q" "r \<noteq> op_reg op" for st' r q
    using that register_for_distinct [OF d] by auto
  have "(m_written s' r = as_constant \<longrightarrow> constant_at ws ((st(d := n)) q) (m_regs s' r)) \<and>
      (m_written s' r = as_computed \<longrightarrow> value_at ws ((st(d := n)) q) (m_regs s' r))"
    if q: "register_for r = Some q" and word: "is_word_register r"
      and s': "s' = written86 op kind (s\<lparr>m_regs := name_write (op_reg op) v (m_regs s)\<rparr>)" for r q s'
  proof (cases "r = whole_register op")
    case True
    show ?thesis
    proof (cases "op_width op")
      case w_byte
      then show ?thesis using True s' by (simp add: written86_def)
    next
      case w_word
      then have r: "r = op_reg op" using True by (simp add: whole_register_def)
      then have "m_regs s' r = v" using word s' by (simp add: name_write_def)
      with r w_word new d q s' True show ?thesis by (auto simp: written86_def)
    qed
  next
    case False
    have not_op: "r \<noteq> op_reg op"
      using False word width by (cases "op_width op") (auto simp: whole_register_def right_width_def)
    have "m_regs s' r = m_regs s r"
    proof (cases "is_word_register (op_reg op)")
      case True
      then show ?thesis using s' not_op by (simp add: name_write_def)
    next
      case byte: False
      with width False have "r \<noteq> snd (byte_reg_locus (op_reg op))"
        by (cases "op_width op") (auto simp: whole_register_def right_width_def)
      with name_write_byte_other [OF byte] s' show ?thesis by simp
    qed
    moreover have "m_written s' r = m_written s r" using False s' by (simp add: written86_def)
    moreover have "(st(d := n)) q = st q" using other [OF refl q not_op] .
    ultimately show ?thesis
      using known q word constant_at_extends [OF _ ext] value_at_extends [OF _ ext]
      by (auto simp: known_table_def)
  qed
  moreover have "m_setter s = by_word_compare \<longrightarrow> flags_at ws ((st(d := n)) V_flags) (m_flags s)"
    using known flags flags_at_extends [OF _ ext] by (auto simp: known_table_def)
  ultimately show ?thesis unfolding known_table_def by (simp add: fun_upd_def)
qed

section \<open>Instructions\<close>

text \<open>What a successful translation of a move or a comparison comes down to.\<close>

definition sl_machine :: "translation_state \<Rightarrow> machine" where
  "sl_machine ts = \<lparr>mc_table = sl_table ts, mc_state = sl_state ts,
     mc_registers = Some (sl_registers ts), mc_memory = Some (sl_memory ts)\<rparr>"

lemma sl_translate_Inr:
  assumes "sl_translate code p i ts = Inr ts'"
  obtains e m where "translate code i (sl_machine ts) 0 = Inr (e, m)"
    and "sl_table ts' = mc_table m" "sl_state ts' = mc_state m"
    and "\<And>r. mc_registers m = Some r \<Longrightarrow> sl_registers ts' = r"
    and "\<And>mem. mc_memory m = Some mem \<Longrightarrow> sl_memory ts' = mem"
    and "sl_actions ts' = sl_actions ts" "sl_writes ts' = sl_writes ts"
  using assms by (auto simp: sl_translate_def sl_machine_def bindE_eq_Inr)

lemma translate_is_move:
  assumes "translate code i m seg = Inr x" and "ins_kind i = k_move_immediate \<or> ins_kind i = k_move"
  shows "translate_move i m seg = Inr x"
  using assms by (auto simp: translate_def failed_def is_register_arithmetic_def is_stack_register_def split: if_split_asm)

lemma translate_is_compare:
  assumes "translate code i m seg = Inr x" and "ins_kind i = k_compare"
  shows "translate_arithmetic i m = Inr x"
  using assms by (auto simp: translate_def failed_def is_stack_register_def split: if_split_asm)

lemma define_constant_Inr:
  "define_constant vs st r v = Inr (ws, st', n) \<Longrightarrow>
     ws = vs @ [constant_value (length vs) r v] \<and> st' = st(r := length vs) \<and> n = length vs"
  by (auto simp: define_constant_def push_value_def set_register_def bindE_eq_Inr split: if_split_asm)

text \<open>A constant goes into a register: an immediate, or a value from memory.\<close>

lemma constant_written:
  assumes rel: "straight_rel s ts" and wf: "operand_wf op" and reg: "op_kind op = o_reg"
    and fresh: "op_width op = w_byte \<Longrightarrow> fresh_halves s (whole_register op)"
    and d: "register_for (op_reg op) = Some d"
    and ts': "sl_table ts' = sl_table ts @ [constant_value (length (sl_table ts)) d v]"
      "sl_state ts' = (sl_state ts)(d := length (sl_table ts))"
      "sl_registers ts' = store_concrete d v (sl_registers ts)"
      "sl_memory ts' = sl_memory ts" "sl_actions ts' = sl_actions ts" "sl_writes ts' = sl_writes ts"
  shows "straight_rel (written86 op as_constant (s\<lparr>m_regs := name_write (op_reg op) v (m_regs s)\<rparr>)) ts'"
proof -
  have width: "right_width op" and general: "general_register op"
    using operand_wf_right_width [OF wf reg] operand_wf_general [OF wf reg] by simp_all
  have "file_matches (written86 op as_constant (s\<lparr>m_regs := name_write (op_reg op) v (m_regs s)\<rparr>)) (sl_registers ts')"
  proof (cases "op_width op")
    case w_byte
    moreover from this have "\<not> is_word_register (op_reg op)" using width by (simp add: right_width_def)
    ultimately show ?thesis
      unfolding ts'(3) using rel d fresh by (intro file_write_byte) (simp_all add: straight_rel_def)
  next
    case w_word
    moreover from this have "is_word_register (op_reg op)" using width by (simp add: right_width_def)
    ultimately show ?thesis
      unfolding ts'(3) using rel d by (intro file_write_word) (simp_all add: straight_rel_def)
  qed
  moreover have "known_table (written86 op as_constant (s\<lparr>m_regs := name_write (op_reg op) v (m_regs s)\<rparr>))
      (sl_table ts') (sl_state ts')"
    unfolding ts'(1,2)
    using rel d width general constant_at_new
    by (intro known_table_write [where vs = "sl_table ts"]) (simp_all add: straight_rel_def extends_snoc)
  ultimately show ?thesis using rel ts' by (simp add: straight_rel_def)
qed

lemma effective_address_words:
  assumes "operand_wf op" and "op_kind op = o_memory" and "\<forall>r. is_word_register r \<longrightarrow> f r = g r"
  shows "effective_address op f = effective_address op g"
proof -
  have "foldl (\<lambda>a r. a + f r) x (used_address_registers op) = foldl (\<lambda>a r. a + g r) x (used_address_registers op)" for x
    using operand_wf_memory(3) [OF assms(1,2)] assms(3) by (intro foldl_cong) auto
  then show ?thesis
    using operand_wf_memory(1) [OF assms(1,2)] by (simp add: effective_address_def add_address_registers_fold)
qed

lemma relation_load:
  assumes "straight_rel s ts"
  shows "read8_at (sl_memory ts) 0 a = Inr (m_mem s a)"
    and "unat (a + 1) = unat a + 1 \<Longrightarrow> read16_at (sl_memory ts) 0 a = Inr (le16 (m_mem s a) (m_mem s (a + 1)))"
proof -
  have a: "unat a \<le> 65535" by (rule unat_u16_le)
  have mem: "\<And>a. mem_bytes (sl_memory ts) (unat a) = m_mem s a" using assms by (simp add: straight_rel_def)
  from a mem [of a] show "read8_at (sl_memory ts) 0 a = Inr (m_mem s a)"
    by (simp add: segmented_defs memory_defs physical_address_eq memory_size_def)
  assume "unat (a + 1) = unat a + 1"
  with a mem [of a] mem [of "a + 1"] show "read16_at (sl_memory ts) 0 a = Inr (le16 (m_mem s a) (m_mem s (a + 1)))"
    by (simp add: segmented_defs memory_defs physical_address_eq memory_size_def)
qed

lemma known_table_compared:
  assumes known: "known_table s vs st" and ext: "extends vs ws" and flags: "flags_at ws n f"
  shows "known_table (s\<lparr>m_flags := f, m_setter := by_word_compare\<rparr>) ws (st(V_flags := n))"
proof -
  have "(st(V_flags := n)) d = st d" if "register_for r = Some d" for r d
    using that register_for_not_flags [of r] by auto
  then show ?thesis
    using known flags constant_at_extends [OF _ ext] value_at_extends [OF _ ext]
    by (auto simp: known_table_def)
qed

lemma compare_executed:
  assumes rel: "straight_rel s ts" and wf: "operands_wf i" and kind: "ins_kind i = k_compare" "ins_alu i = a_compare"
    and step: "compare86 i s = Some s'" and fits: "straight_instruction_fits i s"
    and go: "sl_translate code p i ts = Inr ts'"
  shows "straight_rel s' ts'"
proof -
  let ?dst = "fst (ins_operands i)" and ?src = "snd (ins_operands i)"
  let ?x = "arch_read (m_regs s) (op_reg ?dst)"
  obtain y where y: "source86 ?src s = Some y" and dst: "op_kind ?dst = o_reg" and width: "op_width ?src = op_width ?dst"
    and s': "s' = compared86 (op_width ?dst) ?x y s"
    using step by (rule compare86_cases)
  have fit: "op_width ?dst = w_word" "known_word s (op_reg ?dst)" "op_kind ?src = o_reg \<Longrightarrow> known_word s (op_reg ?src)"
    using fits kind by (simp_all add: straight_instruction_fits_def Let_def)
  have wfs: "operand_wf ?dst" "operand_wf ?src" using wf by (simp_all add: operands_wf_def)
  have word: "is_word_register (op_reg ?dst)"
    using operand_wf_right_width [OF wfs(1) dst] fit(1) by (simp add: right_width_def)
  have src_word: "is_word_register (op_reg ?src)" if "op_kind ?src = o_reg"
    using operand_wf_right_width [OF wfs(2) that] fit(1) width by (simp add: right_width_def)
  have known: "known_table s (sl_table ts) (sl_state ts)" using rel by (simp add: straight_rel_def)
  obtain e m where t: "translate code i (sl_machine ts) 0 = Inr (e, m)"
    and ts': "sl_table ts' = mc_table m" "sl_state ts' = mc_state m"
      "\<And>r. mc_registers m = Some r \<Longrightarrow> sl_registers ts' = r"
      "\<And>mem. mc_memory m = Some mem \<Longrightarrow> sl_memory ts' = mem"
      "sl_actions ts' = sl_actions ts" "sl_writes ts' = sl_writes ts"
    using sl_translate_Inr [OF go] by metis
  obtain a b where ab: "ins_operands i = (a, b)" by fastforce
  obtain d oper vs n ws st k regs where d: "register_for (op_reg a) = Some d"
    and oper: "operation_for (ins_alu i) = Some oper"
    and src: "arithmetic_source (sl_machine ts) d b = Inr (vs, n)"
    and def': "define_operation vs (mc_state (sl_machine ts)) (result_register oper d) oper [mc_state (sl_machine ts) d, n] =
      (Inr (ws, st, k) :: translation_error ssa_result)"
    and regs: "concrete_arithmetic ws oper (result_register oper d) (mc_state (sl_machine ts) d) n
      (mc_registers (sl_machine ts)) = Inr regs"
    and m: "(e, m) = (\<lparr>ef_destination = result_register oper d, ef_ssa_value = k, ef_immediate = None,
        ef_memory = None\<rparr>, (sl_machine ts)\<lparr>mc_table := ws, mc_state := st, mc_registers := regs\<rparr>)"
    using translate_arithmetic_Inr [OF translate_is_compare [OF t kind(1)] ab] by metis
  have oper: "oper = op_compare" using oper kind(2) by simp
  have flags_register: "result_register op_compare d = V_flags" by (simp add: result_register_def)
  have regs_same: "regs = Some (sl_registers ts)"
    using regs by (auto simp: concrete_arithmetic_def sl_machine_def oper flags_register bindE_eq_Inr split: option.split_asm)
  have ext: "extends (sl_table ts) vs" and y_at: "value_at vs n y"
  proof -
    have "(extends (sl_table ts) vs) \<and> value_at vs n y"
    proof (cases "op_kind b = o_immediate")
      case True
      then have "vs = sl_table ts @ [constant_value (length (sl_table ts)) d (op_immediate b)]" "n = length (sl_table ts)"
        using src by (auto simp: arithmetic_source_def sl_machine_def ssa_constant_def)
      moreover have "y = op_immediate b" using y True ab by (simp add: source86_def)
      ultimately show ?thesis using constant_at_new by (simp add: value_at_def)
    next
      case False
      then have reg: "op_kind b = o_reg" and y_is: "y = arch_read (m_regs s) (op_reg b)"
        using y ab by (auto simp: source86_def general_register_def split: if_split_asm)
      obtain q where q: "register_for (op_reg b) = Some q" "vs = sl_table ts" "n = sl_state ts q"
        using src False by (auto simp: arithmetic_source_def sl_machine_def failed_def split: option.split_asm)
      have "is_word_register (op_reg b)" using src_word reg ab by simp
      with known_word_value [OF known q(1)] fit(3) reg ab y_is q show ?thesis by (simp add: arch_read_word)
    qed
    then show "extends (sl_table ts) vs" and "value_at vs n y" by simp_all
  qed
  have x_at: "value_at vs (sl_state ts d) ?x"
    using value_at_extends [OF known_word_value [OF known d] ext] word fit(2) ab by (simp add: arch_read_word)
  let ?v = "\<lparr>sv_id = length vs, sv_reg = V_flags, sv_kind = v_operation, sv_inputs = [sl_state ts d, n],
    sv_constant = None, sv_operation = Some op_compare\<rparr>"
  have ws: "ws = vs @ [?v]" and st: "st = (sl_state ts)(V_flags := length vs)"
    using def' by (auto simp: define_operation_def push_value_def set_register_def sl_machine_def flags_register oper)
  have grown: "extends vs ws" by (simp add: ws extends_snoc)
  have "flags_at ws (length vs) (flags_of_compare ?x y)"
    using value_at_extends [OF x_at grown] value_at_extends [OF y_at grown] by (auto simp: flags_at_def ws)
  from known_table_compared [OF known extends_trans [OF ext grown] this]
  have "known_table s' ws st" using s' fit(1) by (simp add: compared86_def st)
  moreover have "file_matches s' (sl_registers ts)"
    using rel s' fit(1) by (simp add: straight_rel_def file_matches_def compared86_def fresh_halves_def)
  moreover have "sl_table ts' = ws" "sl_state ts' = st" "sl_registers ts' = sl_registers ts" "sl_memory ts' = sl_memory ts"
    using ts' m regs_same by (simp_all add: sl_machine_def)
  ultimately show ?thesis using rel ts'(5,6) s' fit(1) by (simp add: straight_rel_def compared86_def)
qed

lemma translate_load_Inr:
  assumes "translate_load d w b m seg = Inr (e, m')" and "mc_registers m = Some regs" and "mc_memory m = Some mem"
  obtains a v where "effective_address b regs = Inr a"
    and "(if w = w_byte then bindE (read8_at mem seg a) (\<lambda>b. Inr (ucast b)) else read16_at mem seg a) = Inr v"
    and "define_effect m d v (Some (access_at False seg a w)) (Some (store_concrete d v regs)) (Some mem) = Inr (e, m')"
  using assms that by (auto simp: translate_load_def with_concrete_Inr bindE_eq_Inr resolve_with_def)

text \<open>A move into a register, executed on the table and on the concrete file.\<close>

lemma move_executed:
  assumes rel: "straight_rel s ts" and wf: "operand_wf op" and reg: "op_kind op = o_reg"
    and fresh: "op_width op = w_byte \<Longrightarrow> fresh_halves s (whole_register op)"
    and d: "register_for (op_reg op) = Some d"
    and go: "sl_translate code p i ts = Inr ts'"
    and effect: "\<And>e m. translate code i (sl_machine ts) 0 = Inr (e, m) \<Longrightarrow>
      define_effect (sl_machine ts) d v access (Some (store_concrete d v (sl_registers ts))) (Some (sl_memory ts)) = Inr (e, m)"
  shows "straight_rel (written86 op as_constant (s\<lparr>m_regs := name_write (op_reg op) v (m_regs s)\<rparr>)) ts'"
proof -
  obtain e m where t: "translate code i (sl_machine ts) 0 = Inr (e, m)"
    and ts': "sl_table ts' = mc_table m" "sl_state ts' = mc_state m"
      "\<And>r. mc_registers m = Some r \<Longrightarrow> sl_registers ts' = r"
      "\<And>mem. mc_memory m = Some mem \<Longrightarrow> sl_memory ts' = mem"
      "sl_actions ts' = sl_actions ts" "sl_writes ts' = sl_writes ts"
    using sl_translate_Inr [OF go] by metis
  obtain vs st n where def': "define_constant (sl_table ts) (sl_state ts) d v = (Inr (vs, st, n) :: translation_error ssa_result)"
    and m: "mc_table m = vs" "mc_state m = st" "mc_registers m = Some (store_concrete d v (sl_registers ts))"
      "mc_memory m = Some (sl_memory ts)"
    using effect [OF t] by (auto simp: define_effect_Inr sl_machine_def)
  show ?thesis
    by (rule constant_written [OF rel wf reg fresh d])
      (use define_constant_Inr [OF def'] m ts' in simp_all)
qed

lemma load_executed:
  assumes rel: "straight_rel s ts" and wf: "operands_wf i" and kind: "ins_kind i = k_move"
    and mem: "op_kind (snd (ins_operands i)) = o_memory" "op_kind (fst (ins_operands i)) \<noteq> o_memory"
    and step: "load_instruction86 i s = Some s'" and fits: "straight_instruction_fits i s"
    and go: "sl_translate code p i ts = Inr ts'"
  shows "straight_rel s' ts'"
proof -
  let ?dst = "fst (ins_operands i)" and ?src = "snd (ins_operands i)"
  have wfs: "operand_wf ?dst" "operand_wf ?src" using wf by (simp_all add: operands_wf_def)
  obtain a where a: "effective_address ?src (m_regs s) = Inr a" and dst: "general_register ?dst"
    and width: "op_width ?src = op_width ?dst"
    and s': "s' = written86 ?dst as_constant (s\<lparr>m_regs := name_write (op_reg ?dst) (load86 (op_width ?dst) a s) (m_regs s)\<rparr>)"
    using step by (auto simp: load_instruction86_def Let_def split: if_split_asm sum.split_asm)
  have reg: "op_kind ?dst = o_reg" using dst by (simp add: general_register_def)
  have fit: "op_width ?dst = w_byte \<Longrightarrow> fresh_halves s (whole_register ?dst)" "address_fits ?src s"
    using fits kind mem by (simp_all add: straight_instruction_fits_def Let_def)
  obtain d where d: "register_for (op_reg ?dst) = Some d"
    using dst by (cases "op_reg ?dst") (auto simp: general_register_def)
  have words: "\<forall>r. is_word_register r \<longrightarrow> sl_registers ts r = m_regs s r"
    using rel by (simp add: straight_rel_def file_matches_def)
  have address: "effective_address ?src (sl_registers ts) = Inr a"
    using effective_address_words [OF wfs(2) mem(1) words] a by simp
  have wide: "op_width ?dst \<noteq> w_byte \<Longrightarrow> unat (a + 1) = unat a + 1"
    using address_fits_next [OF wfs(2) mem(1) fit(2) a] width by simp
  show ?thesis
    unfolding s'
  proof (rule move_executed [OF rel wfs(1) reg fit(1) d go])
    fix e m
    assume "translate code i (sl_machine ts) 0 = Inr (e, m)"
    from translate_is_move [OF this] kind have "translate_move i (sl_machine ts) 0 = Inr (e, m)" by simp
    then have "translate_load d (op_width ?dst) ?src (sl_machine ts) 0 = Inr (e, m)"
      using mem reg d by (simp add: translate_move_def failed_def case_prod_unfold Let_def)
    then obtain b v where b: "effective_address ?src (sl_registers ts) = Inr b"
      and v: "(if op_width ?dst = w_byte then bindE (read8_at (sl_memory ts) 0 b) (\<lambda>b. Inr (ucast b))
        else read16_at (sl_memory ts) 0 b) = Inr v"
      and effect: "define_effect (sl_machine ts) d v (Some (access_at False 0 b (op_width ?dst)))
        (Some (store_concrete d v (sl_registers ts))) (Some (sl_memory ts)) = Inr (e, m)"
      by (rule translate_load_Inr) (simp_all add: sl_machine_def)
    have "b = a" using b address by simp
    moreover have "v = load86 (op_width ?dst) a s"
      using v relation_load [OF rel, of a] wide calculation by (auto simp: load86_def split: if_split_asm)
    ultimately show "define_effect (sl_machine ts) d (load86 (op_width ?dst) a s)
        (Some (access_at False 0 a (op_width ?dst)))
        (Some (store_concrete d (load86 (op_width ?dst) a s) (sl_registers ts))) (Some (sl_memory ts)) = Inr (e, m)"
      using effect by simp
  qed
qed

lemma immediate_executed:
  assumes rel: "straight_rel s ts" and wf: "operands_wf i" and kind: "ins_kind i = k_move_immediate"
    and dst: "general_register (fst (ins_operands i))" and step: "register_step i (m_regs s) = Some f"
    and fits: "straight_instruction_fits i s" and go: "sl_translate code p i ts = Inr ts'"
  shows "straight_rel (written86 (fst (ins_operands i)) as_constant (s\<lparr>m_regs := f\<rparr>)) ts'"
proof -
  let ?dst = "fst (ins_operands i)" and ?src = "snd (ins_operands i)"
  have wfs: "operand_wf ?dst" using wf by (simp add: operands_wf_def)
  have reg: "op_kind ?dst = o_reg" using dst by (simp add: general_register_def)
  have width: "right_width ?dst" using operand_wf_right_width [OF wfs reg] .
  have src: "op_kind ?src = o_immediate"
    by (rule ccontr, use step kind reg width in \<open>simp add: register_step_def Let_def\<close>)
  then have f_is: "f = name_write (op_reg ?dst)
      (if op_width ?dst = w_byte then op_immediate ?src AND 0xff else op_immediate ?src) (m_regs s)"
    using step kind reg width by (simp add: register_step_def Let_def)
  have "name_write (op_reg ?dst) (op_immediate ?src AND 0xff) (m_regs s) = name_write (op_reg ?dst) (op_immediate ?src) (m_regs s)"
    if "op_width ?dst = w_byte"
  proof -
    have "lo8 (op_immediate ?src AND 0xff) = lo8 (op_immediate ?src)"
      unfolding and_ff_byte by (rule lo8_ucast)
    moreover have "\<not> is_word_register (op_reg ?dst)" using width that by (simp add: right_width_def)
    ultimately show ?thesis by (auto simp: name_write_def set_low_def set_high_def split: prod.split)
  qed
  with f_is have f: "f = name_write (op_reg ?dst) (op_immediate ?src) (m_regs s)" by (simp split: if_split_asm)
  have fresh: "op_width ?dst = w_byte \<Longrightarrow> fresh_halves s (whole_register ?dst)"
    using fits kind by (simp add: straight_instruction_fits_def Let_def)
  obtain d where d: "register_for (op_reg ?dst) = Some d"
    using dst by (cases "op_reg ?dst") (auto simp: general_register_def)
  show ?thesis
    unfolding f
  proof (rule move_executed [OF rel wfs reg fresh d go])
    fix e m
    assume "translate code i (sl_machine ts) 0 = Inr (e, m)"
    from translate_is_move [OF this] kind have "translate_move i (sl_machine ts) 0 = Inr (e, m)" by simp
    then show "define_effect (sl_machine ts) d (op_immediate ?src) None
        (Some (store_concrete d (op_immediate ?src) (sl_registers ts))) (Some (sl_memory ts)) = Inr (e, m)"
      using src reg d by (simp add: translate_move_def failed_def case_prod_unfold Let_def sl_machine_def)
  qed
qed

lemma copy_executed:
  assumes rel: "straight_rel s ts" and wf: "operands_wf i" and kind: "ins_kind i = k_move"
    and dst: "general_register (fst (ins_operands i))" and step: "register_step i (m_regs s) = Some f"
    and fits: "straight_instruction_fits i s" and go: "sl_translate code p i ts = Inr ts'"
  shows "straight_rel (written86 (fst (ins_operands i)) as_computed (s\<lparr>m_regs := f\<rparr>)) ts'"
proof -
  let ?dst = "fst (ins_operands i)" and ?src = "snd (ins_operands i)" and ?vs = "sl_table ts"
  have wfs: "operand_wf ?dst" "operand_wf ?src" using wf by (simp_all add: operands_wf_def)
  have reg: "op_kind ?dst = o_reg" using dst by (simp add: general_register_def)
  have src: "op_kind ?src = o_reg" using register_step_none(2) [OF kind] step by fastforce
  have fit: "op_width ?src = w_word" "m_written s (op_reg ?src) = as_constant"
    using fits kind reg src by (simp_all add: straight_instruction_fits_def Let_def)
  have width: "right_width ?dst" "right_width ?src"
    using operand_wf_right_width [OF wfs(1) reg] operand_wf_right_width [OF wfs(2) src] .
  have word: "op_width ?dst = w_word"
    by (rule ccontr, use step kind src fit(1) reg width in \<open>simp add: register_step_def Let_def\<close>)
  have words: "is_word_register (op_reg ?dst)" "is_word_register (op_reg ?src)"
    using width fit(1) word by (simp_all add: right_width_def)
  let ?v = "m_regs s (op_reg ?src)"
  have f: "f = name_write (op_reg ?dst) ?v (m_regs s)"
    using step kind reg src width word fit(1) words by (simp add: register_step_def Let_def arch_read_word)
  obtain d where d: "register_for (op_reg ?dst) = Some d"
    using dst by (cases "op_reg ?dst") (auto simp: general_register_def)
  obtain e m where t: "translate code i (sl_machine ts) 0 = Inr (e, m)"
    and ts': "sl_table ts' = mc_table m" "sl_state ts' = mc_state m"
      "\<And>r. mc_registers m = Some r \<Longrightarrow> sl_registers ts' = r"
      "\<And>mem. mc_memory m = Some mem \<Longrightarrow> sl_memory ts' = mem"
      "sl_actions ts' = sl_actions ts" "sl_writes ts' = sl_writes ts"
    using sl_translate_Inr [OF go] by metis
  from translate_is_move [OF t] kind have "translate_move i (sl_machine ts) 0 = Inr (e, m)" by simp
  then have copy: "copy_register d ?src (sl_machine ts) = Inr (e, m)"
    using reg src d by (simp add: translate_move_def failed_def case_prod_unfold Let_def)
  obtain q where q: "register_for (op_reg ?src) = Some q"
    using operand_wf_general [OF wfs(2) src] by (cases "op_reg ?src") (auto simp: general_register_def)
  have known: "known_table s ?vs (sl_state ts)" using rel by (simp add: straight_rel_def)
  have source: "constant_at ?vs (sl_state ts q) ?v"
    using known q words(2) fit(2) by (auto simp: known_table_def)
  let ?dx_value = "\<lparr>sv_id = length ?vs, sv_reg = d, sv_kind = v_definition, sv_inputs = [sl_state ts q],
    sv_constant = None, sv_operation = None\<rparr>"
  have at_source: "(at (?vs @ [?dx_value]) (sl_state ts q) :: (translation_error, _) res) = Inr (?vs ! sl_state ts q)"
    "sv_constant (?vs ! sl_state ts q) = Some ?v"
    using source by (simp_all add: constant_at_def nth_append)
  have m: "mc_table m = ?vs @ [?dx_value]" "mc_state m = (sl_state ts)(d := length ?vs)"
    "mc_registers m = Some (store_concrete d ?v (sl_registers ts))" "mc_memory m = Some (sl_memory ts)"
    using copy at_source register_for_not_count [OF d]
    by (auto simp: copy_register_def q ssa_define_def push_value_def set_register_def sl_machine_def)
  have "value_at (?vs @ [?dx_value]) (length ?vs) ?v"
    using constant_at_extends [OF source extends_snoc [of ?vs ?dx_value]] by (simp add: value_at_def)
  then have "known_table (written86 ?dst as_computed (s\<lparr>m_regs := f\<rparr>)) (?vs @ [?dx_value]) ((sl_state ts)(d := length ?vs))"
    unfolding f by (intro known_table_write [OF known extends_snoc d width(1) dst]) simp
  moreover have "file_matches (written86 ?dst as_computed (s\<lparr>m_regs := f\<rparr>)) (store_concrete d ?v (sl_registers ts))"
    unfolding f using rel by (intro file_write_word word words d) (simp_all add: straight_rel_def)
  ultimately show ?thesis using rel ts' m by (simp add: straight_rel_def)
qed

text \<open>All of them; a store to memory never translates.\<close>

lemma moves_only: "straight_instruction_fits i s \<Longrightarrow> ins_kind i \<noteq> k_nop \<and> ins_kind i \<noteq> k_arithmetic"
  by (auto simp: straight_instruction_fits_def Let_def)

lemma plain_executed:
  assumes rel: "straight_rel s ts" and wf: "operands_wf i" and step: "plain86 i opcode s = Some s'"
    and fits: "straight_instruction_fits i s" and go: "sl_translate code p i ts = Inr ts'"
  shows "straight_rel s' ts'"
proof -
  let ?dst = "fst (ins_operands i)"
  consider (compare) "ins_kind i = k_compare" "ins_alu i = a_compare" "compare86 i s = Some s'"
    | (store) "ins_kind i = k_move" "op_kind ?dst = o_memory"
    | (load) "ins_kind i = k_move" "op_kind ?dst \<noteq> o_memory" "op_kind (snd (ins_operands i)) = o_memory"
      "load_instruction86 i s = Some s'"
    | (register) "register_instruction86 i opcode s = Some s'" "ins_kind i = k_compare \<longrightarrow> ins_alu i \<noteq> a_compare"
      "ins_kind i = k_move \<longrightarrow> op_kind ?dst \<noteq> o_memory"
    using step moves_only [OF fits] by (auto simp: plain86_def Let_def split: if_split_asm)
  then show ?thesis
  proof cases
    case compare
    from compare_executed [OF rel wf compare fits go] show ?thesis .
  next
    case store
    obtain e m where "translate code i (sl_machine ts) 0 = Inr (e, m)" using sl_translate_Inr [OF go] by metis
    from translate_is_move [OF this] store have "translate_store ?dst (snd (ins_operands i)) (sl_machine ts) 0 = Inr (e, m)"
      by (simp add: translate_move_def case_prod_unfold Let_def)
    then show ?thesis by (simp add: translate_store_fails)
  next
    case load
    from load_executed [OF rel wf load(1,3,2,4) fits go] show ?thesis .
  next
    case register
    obtain f where f: "register_step i (m_regs s) = Some f" and dst: "general_register ?dst"
      using register(1) by (auto simp: register_instruction86_def Let_def split: if_split_asm option.split_asm)
    have "ins_kind i = k_move_immediate \<or> ins_kind i = k_move \<or> ins_kind i = k_arithmetic"
      using register_step_none(1) f by fastforce
    moreover have "ins_kind i \<noteq> k_arithmetic"
      using fits by (auto simp: straight_instruction_fits_def Let_def)
    ultimately consider "ins_kind i = k_move_immediate" | "ins_kind i = k_move" by blast
    then show ?thesis
    proof cases
      case 1
      then have "s' = written86 ?dst as_constant (s\<lparr>m_regs := f\<rparr>)"
        using register(1) f dst by (simp add: register_instruction86_def Let_def)
      with immediate_executed [OF rel wf 1 dst f fits go] show ?thesis by simp
    next
      case 2
      then have "s' = written86 ?dst as_computed (s\<lparr>m_regs := f\<rparr>)"
        using register(1) f dst by (simp add: register_instruction86_def Let_def)
      with copy_executed [OF rel wf 2 dst f fits go] show ?thesis by simp
    qed
  qed
qed

section \<open>The walk\<close>

lemma straight_rel_frame [simp]:
  "straight_rel (s\<lparr>m_ip := a\<rparr>) ts = straight_rel s ts"
  "straight_rel s (ts\<lparr>sl_visited_block := visited\<rparr>) = straight_rel s ts"
  by (simp_all add: straight_rel_def file_matches_def known_table_def fresh_halves_def)

lemma first_block_start: "first_block graph target = Some n \<Longrightarrow> n < length graph \<and> bb_start (graph ! n) = target"
  by (induction graph arbitrary: n) (auto split: if_split_asm)

lemma last_block_start: "last_block graph target = Some n \<Longrightarrow> n < length graph \<and> bb_start (graph ! n) = target"
  by (induction graph arbitrary: n) (auto split: if_split_asm option.split_asm)

lemma enter_block_goes:
  "enter_block graph n ts = Inr (p, ts') \<Longrightarrow>
     p = bb_start (graph ! n) \<and> (\<exists>visited. ts' = ts\<lparr>sl_visited_block := visited\<rparr>)"
  by (auto simp: enter_block_def bindE_eq_Inr split: if_split_asm)

text \<open>Jumps and branches: where the walk goes on.\<close>

lemma jump_goes:
  assumes "(case first_block graph target of
      None \<Rightarrow> Some (Inr (goes_on target ts))
    | Some n \<Rightarrow> bindP (Some (enter_block graph n ts)) (\<lambda>(p, ts'). Some (Inr (goes_on p ts')))) = Some (Inr (goes_on p ts'))"
  shows "p = target \<and> (\<exists>visited. ts' = ts\<lparr>sl_visited_block := visited\<rparr>)"
proof (cases "first_block graph target")
  case None
  with assms have "p = target" "ts' = ts\<lparr>sl_visited_block := sl_visited_block ts\<rparr>" by simp_all
  then show ?thesis by blast
next
  case (Some n)
  with assms have "enter_block graph n ts = Inr (p, ts')" by (auto simp: bindP_eq_Inr)
  with enter_block_goes [OF this] first_block_start [OF Some] show ?thesis by simp
qed

lemma branch_goes:
  assumes go: "branch_round graph p i ts = Some (Inr (goes_on p' ts'))"
    and flags: "resolve_compare_flags (sl_table ts) (sl_state ts V_flags) = Some (Inr f)"
  shows "p' = (if condition_of_flags (ins_condition i) f then walk_target p i else p + ins_size i) \<and>
    (\<exists>visited. ts' = ts\<lparr>sl_visited_block := visited\<rparr>)"
proof -
  obtain m n where blocks: "last_block graph (walk_target p i) = Some m" "last_block graph (p + ins_size i) = Some n"
    using go by (auto simp: branch_round_def split: option.split_asm)
  with go flags have "enter_block graph (if condition_of_flags (ins_condition i) f then m else n) ts = Inr (p', ts')"
    by (auto simp: branch_round_def evaluate_condition_def bindP_eq_Inr)
  from enter_block_goes [OF this] last_block_start [OF blocks(1)] last_block_start [OF blocks(2)] show ?thesis
    by auto
qed

lemma branch_never_finishes: "branch_round graph p i ts \<noteq> Some (Inr (finished c ts'))"
  by (auto simp: branch_round_def bindP_eq_Inr split: option.split prod.split)

subsection \<open>Printing\<close>

lemma read_until_text:
  "t \<in> set (map (mem_bytes m) [c..<c + n]) \<Longrightarrow> c + n \<le> memory_size \<Longrightarrow>
     read_until m t c n = Inr (Some (takeWhile (\<lambda>b. b \<noteq> t) (map (mem_bytes m) [c..<c + n])))"
proof (induction n arbitrary: c)
  case (Suc n)
  have split: "[c..<c + Suc n] = c # [Suc c..<Suc c + n]" by (simp add: upt_conv_Cons)
  show ?case
  proof (cases "mem_bytes m c = t")
    case True
    with Suc.prems(2) show ?thesis unfolding split by (simp add: read8_def)
  next
    case False
    with Suc.prems have "t \<in> set (map (mem_bytes m) [Suc c..<Suc c + n])" unfolding split by auto
    with Suc.IH [OF this] Suc.prems(2) False show ?thesis unfolding split by (simp add: read8_def)
  qed
qed simp

lemma print_string:
  assumes rel: "straight_rel s ts" and message: "text86 a s = Some message"
  shows "read_string e1 e2 0x24 ts a = Some (Inr message)"
proof -
  let ?rest = "map (\<lambda>k. m_mem s (word_of_nat k)) [unat a..<0x10000]" and ?m = "sl_memory ts"
  have a: "unat a < 0x10000" using unsigned_less [of a] by simp
  have mem: "mem_bytes ?m k = m_mem s (word_of_nat k)" if "k < 0x10000" for k
  proof -
    have "unat (word_of_nat k :: u16) = k" using that by (simp only: unat_of_nat) simp
    with rel show ?thesis by (metis straight_rel_def)
  qed
  have size: "unat a + (memory_size - unat a) = memory_size" using a by (simp add: memory_size_def)
  have "[unat a..<memory_size] = [unat a..<0x10000] @ [0x10000..<memory_size]"
    using a by (intro upt_split) (simp_all add: memory_size_def)
  moreover have "map (mem_bytes ?m) [unat a..<0x10000] = ?rest" by (simp add: mem)
  ultimately have all: "map (mem_bytes ?m) [unat a..<memory_size] = ?rest @ map (mem_bytes ?m) [0x10000..<memory_size]"
    by simp
  have found: "0x24 \<in> set ?rest" and is_message: "takeWhile (\<lambda>b. b \<noteq> 0x24) ?rest = message"
    using message unfolding text86_def Let_def if_Some_iff by (rule conjunct1, rule conjunct2)
  have "0x24 \<in> set (map (mem_bytes ?m) [unat a..<unat a + (memory_size - unat a)])"
    unfolding size all set_append using found by (rule UnI1)
  from read_until_text [OF this] have
    "read_until ?m 0x24 (unat a) (memory_size - unat a) = Inr (Some message)"
    unfolding size all takeWhile_found [OF found] is_message by simp
  then show ?thesis by (simp add: read_string_def)
qed

lemma straight_rel_print:
  "straight_rel s ts \<Longrightarrow> straight_rel (s\<lparr>m_out := m_out s @ [data]\<rparr>) (add_write data 1 ts)"
  by (simp add: straight_rel_def file_matches_def known_table_def fresh_halves_def add_write_def console_write_def)

text \<open>The interrupt of a faithful instruction.\<close>

lemma interrupt_executed:
  assumes rel: "straight_rel s ts" and fits: "hi8 (m_regs s R_ax) = 0x4c \<or> hi8 (m_regs s R_ax) = 0x09 \<and> known_word s R_dx"
  shows "dos86 s = go86 s' \<Longrightarrow> \<exists>ts'. handle_interrupt host 0x21 ts = Some (Inr (continues ts')) \<and> straight_rel s' ts'"
    and "dos86 s = exit86 e \<Longrightarrow> handle_interrupt host 0x21 ts = Some (Inr (exits e))"
proof -
  have ax: "sl_registers ts R_ax = m_regs s R_ax"
    using rel by (simp add: straight_rel_def file_matches_def is_word_register_def)
  {
    assume step: "dos86 s = go86 s'"
    then obtain message where message: "text86 (m_regs s R_dx) s = Some message"
      "s' = s\<lparr>m_out := m_out s @ [message]\<rparr>" "hi8 (m_regs s R_ax) = 0x09" "known_word s R_dx"
      using fits by (auto simp: dos86_def Let_def split: if_split_asm option.split_asm)
    have "value_at (sl_table ts) (sl_state ts V_dx) (m_regs s R_dx)"
      using known_word_value [of s "sl_table ts" "sl_state ts" R_dx V_dx] rel message(4)
      by (simp add: straight_rel_def is_word_register_def)
    then have "sl_value ts V_dx = Some (Inr (m_regs s R_dx))"
      by (simp add: sl_value_def resolve_exit_code_value)
    then have "handle_interrupt host 0x21 ts = Some (Inr (continues (add_write message 1 ts)))"
      using ax message(3) print_string [OF rel message(1)] by (simp add: handle_interrupt_def handle_print_def Let_def)
    with straight_rel_print [OF rel, of message] message(2)
    show "\<exists>ts'. handle_interrupt host 0x21 ts = Some (Inr (continues ts')) \<and> straight_rel s' ts'" by blast
  next
    assume "dos86 s = exit86 e"
    then show "handle_interrupt host 0x21 ts = Some (Inr (exits e))"
      using ax by (auto simp: dos86_def handle_interrupt_def Let_def split: if_split_asm option.split_asm)
  }
qed

section \<open>The match\<close>

text \<open>\<open>result\<close> is the outcome of the walk, which the relation carries along.\<close>

definition straight_match ::
  "(byte list \<Rightarrow> byte list option) \<Rightarrow> control_flow_graph \<Rightarrow> byte list \<Rightarrow> byte \<times> translation_state \<Rightarrow> nat \<Rightarrow>
     machine86 \<Rightarrow> nat \<times> translation_state \<Rightarrow> bool" where
  "straight_match host graph code result n s = (\<lambda>(p, ts).
     length code < 0xff00 \<and> 0x100 \<le> unat (m_ip s) \<and> p = position86 s \<and> straight_rel s ts \<and>
     walk_blocks host code graph p ts = Some (Inr result))"

definition straight_final ::
  "byte \<times> translation_state \<Rightarrow> nat \<times> translation_state \<Rightarrow> byte \<Rightarrow> byte list list \<Rightarrow> bool" where
  "straight_final result t e out \<longleftrightarrow>
     fst result = e \<and> sl_actions (snd result) = [] \<and> sl_writes (snd result) = map console_write out"

lemma walk_blocks_Inr:
  assumes "walk_blocks host code graph p ts = Some (Inr result)"
  obtains c ts' where "walk_round host code graph p ts = Some (Inr (finished c ts'))" and "result = (c, ts')"
    | p' ts' where "walk_round host code graph p ts = Some (Inr (goes_on p' ts'))"
      and "walk_blocks host code graph p' ts' = Some (Inr result)"
proof -
  obtain r where r: "walk_round host code graph p ts = Some (Inr r)"
    and rest: "(case r of finished code ts' \<Rightarrow> Some (Inr (code, ts')) | goes_on p ts' \<Rightarrow> walk_blocks host code graph p ts') =
      Some (Inr result)"
    using assms by (subst (asm) walk_blocks.simps) (auto simp: bindP_eq_Inr)
  show ?thesis using r rest that by (cases r) auto
qed

lemma straight_fits_instruction:
  assumes "step86 (length code) s \<noteq> stuck86" and "straight_fits code s"
  obtains i where "decode_at code (position86 s) = Inr i" and "straight_instruction_fits i s"
    and "step86 (length code) s = instruction86 i (image86 (length code) s ! position86 s) s"
proof -
  obtain i where i: "decode_at (image86 (length code) s) (position86 s) = Inr i"
    and go: "step86 (length code) s = instruction86 i (image86 (length code) s ! position86 s) s"
    using step86_instruction [OF assms(1)] by blast
  have "decode_at code (position86 s) = Inr i" using assms(2) i by (simp add: straight_fits_def)
  moreover with assms(2) have "straight_instruction_fits i s" by (simp add: straight_fits_def)
  ultimately show ?thesis using go that by blast
qed

lemma interrupt_fits:
  "straight_instruction_fits i s \<Longrightarrow> ins_kind i = k_interrupt \<Longrightarrow>
     hi8 (m_regs s R_ax) = 0x4c \<or> hi8 (m_regs s R_ax) = 0x09 \<and> known_word s R_dx"
  by (simp add: straight_instruction_fits_def Let_def)

lemma calls_unfit:
  "straight_instruction_fits i s \<Longrightarrow> ins_kind i \<noteq> k_call" "straight_instruction_fits i s \<Longrightarrow> ins_kind i \<noteq> k_return"
  by (auto simp: straight_instruction_fits_def Let_def)

text \<open>One round of the walk follows one instruction of the machine.\<close>

lemma round_follows:
  assumes rel: "straight_rel s ts" and ip: "0x100 \<le> unat (m_ip s)" and len: "length code < 0xff00"
    and i: "decode_at code (position86 s) = Inr i" and fits: "straight_instruction_fits i s"
    and step: "instruction86 i opcode s = go86 s'"
    and round: "walk_round host code graph (position86 s) ts = Some (Inr (goes_on p ts'))"
  shows "0x100 \<le> unat (m_ip s') \<and> p = position86 s' \<and> straight_rel s' ts'"
proof -
  let ?p = "position86 s" and ?next = "position86 s + ins_size i" and ?target = "walk_target (position86 s) i"
  have inside: "?p < length code" "?next < 0xff00"
    using dec.dec_inside [OF i] dec.dec_end [OF i] len by simp_all
  have next_is: "m_ip s + word_of_nat (ins_size i) = 0x100 + word_of_nat ?next"
    by (subst ip_of_position [OF ip]) (rule next_ip)
  have target_is: "m_ip s + word_of_nat (ins_size i) + word_of_int (ins_relative_target i) = 0x100 + word_of_nat ?target"
    "?target < 0xff00" if "target_fits ?p i"
    by (subst ip_of_position [OF ip], rule target_ip(2) [OF that]) (rule target_ip(1) [OF that])
  have arrives: "0x100 \<le> unat (m_ip (t\<lparr>m_ip := 0x100 + word_of_nat l\<rparr>)) \<and> position86 (t\<lparr>m_ip := 0x100 + word_of_nat l\<rparr>) = l"
    if "l < 0xff00" for t :: machine86 and l
    using position_at [OF that] by simp
  consider (interrupt) "ins_kind i = k_interrupt" | (jump) "ins_kind i = k_jump"
    | (branch) "ins_kind i = k_conditional_jump"
    | (plain) s1 where "plain86 i opcode s = Some s1" "s' = s1\<lparr>m_ip := m_ip s + word_of_nat (ins_size i)\<rparr>"
    using step calls_unfit [OF fits] by (auto simp: instruction86_def Let_def split: if_split_asm option.split_asm)
  then show ?thesis
  proof cases
    case interrupt
    let ?s1 = "s\<lparr>m_ip := m_ip s + word_of_nat (ins_size i)\<rparr>"
    have number: "ins_interrupt_number i = 0x21" and dos: "dos86 ?s1 = go86 s'"
      using step interrupt by (auto simp: instruction86_def Let_def split: if_split_asm)
    have "straight_rel ?s1 ts" "hi8 (m_regs ?s1 R_ax) = 0x4c \<or> hi8 (m_regs ?s1 R_ax) = 0x09 \<and> known_word ?s1 R_dx"
      using rel interrupt_fits [OF fits interrupt] by (simp_all add: known_word_def)
    from interrupt_executed(1) [OF this dos] obtain t where
      "handle_interrupt host 0x21 ts = Some (Inr (continues t))" "straight_rel s' t" by blast
    with round interrupt number inside(1) i have "p = ?next" "ts' = t"
      by (auto simp: walk_round_def)
    moreover have "m_ip s' = 0x100 + word_of_nat ?next"
      using dos next_is by (auto simp: dos86_def Let_def split: if_split_asm option.split_asm)
    ultimately show ?thesis
      using \<open>straight_rel s' t\<close> unat_image_address [OF inside(2)] by (simp add: position86_def del: of_nat_add)
  next
    case jump
    have "target_fits ?p i" using fits jump by (simp add: straight_instruction_fits_def Let_def)
    note target = target_is [OF this]
    have s': "s' = s\<lparr>m_ip := 0x100 + word_of_nat ?target\<rparr>"
      using step jump target(1) by (auto simp: instruction86_def Let_def split: if_split_asm)
    have "p = ?target \<and> (\<exists>visited. ts' = ts\<lparr>sl_visited_block := visited\<rparr>)"
      by (rule jump_goes) (use round jump i inside(1) in \<open>simp add: walk_round_def\<close>)
    with rel arrives [OF target(2), of s] s' show ?thesis by auto
  next
    case branch
    have fit: "target_fits ?p i" "m_setter s = by_word_compare"
      using fits branch by (simp_all add: straight_instruction_fits_def Let_def)
    note target = target_is [OF fit(1)]
    let ?l = "if condition_of_flags (ins_condition i) (m_flags s) then ?target else ?next"
    have s': "s' = s\<lparr>m_ip := 0x100 + word_of_nat ?l\<rparr>"
      using step branch target(1) next_is by (auto simp: instruction86_def Let_def split: if_split_asm)
    have "flags_at (sl_table ts) (sl_state ts V_flags) (m_flags s)"
      using rel fit(2) by (simp add: straight_rel_def known_table_def)
    from resolve_flags_value [OF this] have
      "resolve_compare_flags (sl_table ts) (sl_state ts V_flags) = Some (Inr (m_flags s))" .
    from branch_goes [OF _ this] have "p = ?l \<and> (\<exists>visited. ts' = ts\<lparr>sl_visited_block := visited\<rparr>)"
      using round branch i inside(1) by (simp add: walk_round_def)
    moreover have "?l < 0xff00" using target(2) inside(2) by simp
    ultimately show ?thesis using rel arrives [of ?l s] s' by auto
  next
    case plain
    have "ins_kind i \<in> {k_nop, k_compare, k_move, k_move_immediate, k_arithmetic}" using plain86_kind [OF plain(1)] .
    then have go: "sl_translate code ?p i ts = Inr ts'" and p: "p = ?next"
      using round i inside(1) by (auto simp: walk_round_def bindP_eq_Inr)
    from plain_executed [OF rel decode_at_operands [OF i] plain(1) fits go] have "straight_rel s1 ts'" .
    with plain(2) p arrives [OF inside(2), of s1] next_is show ?thesis by simp
  qed
qed

lemma straight_step:
  assumes step: "step86 (length code) s = go86 s'" and fits: "straight_fits code s"
    and match: "straight_match host graph code result (Suc n) s t"
  shows "\<exists>t'. straight_match host graph code result n s' t' \<and>
    (\<forall>e out. straight_final result t' e out \<longrightarrow> straight_final result t e out)"
proof -
  obtain ts where t: "t = (position86 s, ts)" and len: "length code < 0xff00" and ip: "0x100 \<le> unat (m_ip s)"
    and rel: "straight_rel s ts" and walk: "walk_blocks host code graph (position86 s) ts = Some (Inr result)"
    using match by (cases t) (auto simp: straight_match_def)
  obtain i where i: "decode_at code (position86 s) = Inr i" "straight_instruction_fits i s"
    and go: "instruction86 i (image86 (length code) s ! position86 s) s = go86 s'"
    using straight_fits_instruction [OF _ fits] step by (metis outcome86.distinct(3))
  from walk show ?thesis
  proof (cases rule: walk_blocks_Inr)
    case (2 p' ts')
    from round_follows [OF rel ip len i go 2(1)] 2(2) len have
      "straight_match host graph code result n s' (p', ts')" by (simp add: straight_match_def)
    then show ?thesis by (auto simp: straight_final_def)
  next
    case (1 c ts')
    have "ins_kind i = k_interrupt"
      using 1(1) i(1) dec.dec_inside [OF i(1)]
      by (auto simp: walk_round_def bindP_eq_Inr branch_never_finishes split: if_split_asm option.split_asm)
    moreover have "handle_interrupt host 0x21 ts \<noteq> Some (Inr (exits e))" for e
    proof -
      let ?s1 = "s\<lparr>m_ip := m_ip s + word_of_nat (ins_size i)\<rparr>"
      have "dos86 ?s1 = go86 s'"
        using go calculation by (auto simp: instruction86_def Let_def split: if_split_asm)
      moreover have "straight_rel ?s1 ts" "hi8 (m_regs ?s1 R_ax) = 0x4c \<or> hi8 (m_regs ?s1 R_ax) = 0x09 \<and> known_word ?s1 R_dx"
        using rel interrupt_fits [OF i(2) \<open>ins_kind i = k_interrupt\<close>] by (simp_all add: known_word_def)
      ultimately show ?thesis using interrupt_executed(1) [of ?s1 ts s' host] by auto
    qed
    moreover have "ins_interrupt_number i = 0x21"
      using go \<open>ins_kind i = k_interrupt\<close> by (auto simp: instruction86_def split: if_split_asm)
    ultimately obtain ts'' where "handle_interrupt host 0x21 ts = Some (Inr (continues ts''))"
      using 1(1) i(1) dec.dec_inside [OF i(1)] walk_step.exhaust
      by (auto simp: walk_round_def bindP_eq_Inr) metis
    then show ?thesis
      using 1(1) i(1) dec.dec_inside [OF i(1)] \<open>ins_kind i = k_interrupt\<close> \<open>ins_interrupt_number i = 0x21\<close>
      by (simp add: walk_round_def)
  qed
qed

lemma straight_exit:
  assumes step: "step86 (length code) s = exit86 e" and fits: "straight_fits code s"
    and match: "straight_match host graph code result (Suc n) s t"
  shows "straight_final result t e (m_out s)"
proof -
  obtain ts where t: "t = (position86 s, ts)"
    and rel: "straight_rel s ts" and walk: "walk_blocks host code graph (position86 s) ts = Some (Inr result)"
    using match by (cases t) (auto simp: straight_match_def)
  obtain i where i: "decode_at code (position86 s) = Inr i" "straight_instruction_fits i s"
    and go: "instruction86 i (image86 (length code) s ! position86 s) s = exit86 e"
    using straight_fits_instruction [OF _ fits] step by (metis outcome86.distinct(5))
  let ?s1 = "s\<lparr>m_ip := m_ip s + word_of_nat (ins_size i)\<rparr>"
  have kind: "ins_kind i = k_interrupt" and number: "ins_interrupt_number i = 0x21" and dos: "dos86 ?s1 = exit86 e"
    using go calls_unfit [OF i(2)] by (auto simp: instruction86_def Let_def split: if_split_asm option.split_asm)
  have "straight_rel ?s1 ts" "hi8 (m_regs ?s1 R_ax) = 0x4c \<or> hi8 (m_regs ?s1 R_ax) = 0x09 \<and> known_word ?s1 R_dx"
    using rel interrupt_fits [OF i(2) kind] by (simp_all add: known_word_def)
  from interrupt_executed(2) [OF this dos] have
    "walk_round host code graph (position86 s) ts = Some (Inr (finished e ts))"
    using kind number i(1) dec.dec_inside [OF i(1)] by (simp add: walk_round_def)
  with walk have "result = (e, ts)" by (subst (asm) walk_blocks.simps) simp
  with rel show ?thesis by (simp add: straight_final_def straight_rel_def)
qed

interpretation straight: compiled86 "length code" "straight_fits code" "straight_match host graph code result"
    "straight_final result"
  for host :: "byte list \<Rightarrow> byte list option" and graph :: control_flow_graph and code :: "byte list"
    and result :: "byte \<times> translation_state"
  by unfold_locales (fact straight_step, fact straight_exit)

section \<open>Correctness\<close>

text \<open>The walk of a COM image starts at its first byte, in the machine's state.\<close>

lemma first_block_entry:
  assumes "build code 0 = Inr graph"
  shows "graph \<noteq> [] \<and> bb_start (graph ! 0) = 0"
proof -
  have starts: "sorted (block_starts graph)" "0 \<in> set (block_starts graph)"
    using build_good [OF assms] by (auto simp: good_graph_def sound_starts_def strict_sorted_iff)
  then obtain b rest where graph: "graph = b # rest" by (cases graph) (auto simp: block_starts_def)
  with starts have "bb_start b = 0" by (auto simp: block_starts_def)
  with graph show ?thesis by simp
qed

lemma start_executed:
  assumes "length code < 0xff00"
  shows "straight_rel (start86 code) (initial_state (com_image code) blocks
    (real_mode_memory_init\<lparr>mem_bytes := copy_to (mem_bytes real_mode_memory_init) 0x100 code\<rparr>))"
proof -
  have "file_matches (start86 code) (initial_registers (com_image code))"
    unfolding file_matches_def
  proof (intro conjI allI impI)
    fix r
    show "initial_registers (com_image code) r = m_regs (start86 code) r"
      by (simp add: initial_registers_def start86_def)
    assume "\<not> is_word_register r"
    then show "initial_registers (com_image code) r = arch_read (m_regs (start86 code)) r"
      by (cases r) (simp_all add: initial_registers_def start86_def is_word_register_def lo8_def hi8_def)
  qed
  moreover have "flags_at builder_init (entry_state V_flags) no_flags"
    by (simp add: flags_at_def builder_init_def entry_state_def register_ids_def entry_value_def)
  then have "known_table (start86 code) builder_init entry_state"
    by (simp add: known_table_def start86_def)
  ultimately show ?thesis
    by (simp add: straight_rel_def initial_state_def start86_def copy_to_apply real_mode_memory_init_def)
qed

lemma straight_walk_follows:
  assumes walk: "straight_line_walk host (com_image code) = Some (Inr (c, ts))" and len: "length code < 0xff00"
    and run: "run86 (length code) n (start86 code) = Some (e, out)"
    and fits: "always86 (straight_fits code) (length code) n (start86 code)"
  shows "c = e \<and> sl_actions ts = [] \<and> sl_writes ts = map console_write out"
proof -
  let ?memory = "real_mode_memory_init\<lparr>mem_bytes := copy_to (mem_bytes real_mode_memory_init) 0x100 code\<rparr>"
  have memory: "load_memory (com_image code) = (Inr ?memory :: (straight_line_error, _) res)"
    using len by (simp add: load_memory_def write_range_def memory_size_def)
  obtain graph where graph: "build code 0 = Inr graph"
    and start: "translate_block host code graph 0 (initial_state (com_image code) (length graph) ?memory) = Some (Inr (c, ts))"
    using walk memory by (auto simp: straight_line_walk_def bindP_eq_Inr split: if_split_asm)
  then obtain p ts0 where enter: "enter_block graph 0 (initial_state (com_image code) (length graph) ?memory) = Inr (p, ts0)"
    and blocks: "walk_blocks host code graph p ts0 = Some (Inr (c, ts))"
    by (auto simp: translate_block_def bindP_eq_Inr)
  have p: "p = 0" and "straight_rel (start86 code) ts0"
    using enter_block_goes [OF enter] first_block_entry [OF graph] start_executed [OF len, of "length graph"] by auto
  with blocks len have "straight_match host graph code (c, ts) n (start86 code) (0, ts0)"
    by (simp add: straight_match_def position86_def start86_def)
  from straight.translation_correct [OF run fits this] show ?thesis by (simp add: straight_final_def)
qed

text \<open>The events of an executable made of console writes.\<close>

lemma console_events: "action_events p (map act_write (map console_write out)) = map (ev_write 1) out"
  by (induction out arbitrary: p) (simp_all add: event_of_def console_write_def)

lemma straight_compiled:
  assumes compile: "straight_line_compile host (com_image code) = Some (Inr elf)" and size: "length elf < 2 ^ 31"
    and len: "length code < 0xff00" and run: "run86 (length code) n (start86 code) = Some (e, out)"
    and fits: "always86 (straight_fits code) (length code) n (start86 code)"
  shows "x86_run os elf (6 * length out + 3) start_state = Some (map (ev_write 1) out @ [ev_exit (ucast e)])"
proof -
  let ?acts = "map act_write (map console_write out)"
  obtain c ts where walk: "straight_line_walk host (com_image code) = Some (Inr (c, ts))"
    and emit: "(if sl_actions ts \<noteq> [] then emit_action_program_executable (sl_actions ts) c
          else if sl_writes ts = [] then emit_exit_executable c
          else emit_multi_write_exit_executable (sl_writes ts) c) = Inr elf"
    using compile by (auto simp: straight_line_compile_def bindP_eq_Inr)
  from straight_walk_follows [OF walk len run fits] emit have
    "elf = action_image ?acts e"
    using emit_syscall_program_actions [of "map console_write out" "[]" e] emit_action_program_image [of ?acts e]
      emit_exit_image [of e]
    by (auto simp: emit_multi_write_exit_executable_def split: if_split_asm)
  with run_program [of ?acts e os] size show ?thesis by (simp add: console_events del: map_map)
qed

end
