(* ===== verification/ExitCorrect.thy ===== *)
theory ExitCorrect
  imports Dos8086 ExitFacts
begin

text \<open>
  The exit compiler against the machine of \<open>Dos8086\<close>. The compiler recognises the programs that it can
  compile by their instructions; the proofs here let the machine run along that recognition. One condition
  is left: the compiler takes the immediate of an arithmetic instruction even where its source is a register.
\<close>

definition exit_fits :: "byte list \<Rightarrow> machine86 \<Rightarrow> bool" where
  "exit_fits code s \<longleftrightarrow>
     (case decode_at code (position86 s) of
        Inl _ \<Rightarrow> True
      | Inr i \<Rightarrow> \<not> (ins_kind i = k_arithmetic \<and> op_kind (snd (ins_operands i)) = o_reg))"

section \<open>Steps\<close>

text \<open>The machine is at a position of the unchanged program, and will end with \<open>r\<close>.\<close>

definition at_code :: "byte list \<Rightarrow> nat \<Rightarrow> machine86 \<Rightarrow> bool" where
  "at_code code p s \<longleftrightarrow> m_ip s = 0x100 + word_of_nat p \<and> m_mem s = m_mem (start86 code)"

definition ends_with :: "byte list \<Rightarrow> machine86 \<Rightarrow> byte \<times> byte list list \<Rightarrow> bool" where
  "ends_with code s r \<longleftrightarrow>
     (\<exists>n. run86 (length code) n s = Some r \<and> always86 (exit_fits code) (length code) n s)"

lemma at_code_step:
  assumes at: "at_code code p s" and p: "p < 0xff00" and len: "length code < 0xff00" and go: "ends_with code s r"
  obtains i where "p < length code" and "decode_at code p = Inr i" and "\<not> is_prefix (code ! p)"
    and "\<not> (ins_kind i = k_arithmetic \<and> op_kind (snd (ins_operands i)) = o_reg)"
    and "(\<exists>s'. instruction86 i (code ! p) s = go86 s' \<and> ends_with code s' r) \<or>
      (\<exists>e. instruction86 i (code ! p) s = exit86 e \<and> r = (e, m_out s))"
proof -
  obtain n where n: "run86 (length code) n s = Some r" "always86 (exit_fits code) (length code) n s"
    using go by (auto simp: ends_with_def)
  then obtain k where k: "n = Suc k" by (cases n) auto
  have pos: "position86 s = p" and ip: "0x100 \<le> unat (m_ip s)"
    using at unat_image_address [OF p] by (simp_all add: at_code_def position86_def)
  have image: "image86 (length code) s = code"
    using image86_start [of code] at len by (simp add: image86_def at_code_def)
  have run: "step86 (length code) s \<noteq> stuck86" using n(1) k by auto
  then obtain i where i: "decode_at code p = Inr i" "step86 (length code) s = instruction86 i (code ! p) s"
    using step86_instruction by (metis image pos)
  have inside: "p < length code" "\<not> is_prefix (code ! p)"
    using run by (auto simp: step86_def image pos Let_def split: if_split_asm)
  have "exit_fits code s" using n(2) k by simp
  then have fits: "\<not> (ins_kind i = k_arithmetic \<and> op_kind (snd (ins_operands i)) = o_reg)"
    using i(1) by (simp add: exit_fits_def pos)
  have "(\<exists>s'. instruction86 i (code ! p) s = go86 s' \<and> ends_with code s' r) \<or>
      (\<exists>e. instruction86 i (code ! p) s = exit86 e \<and> r = (e, m_out s))"
    using n k i(2) by (auto simp: ends_with_def split: outcome86.split_asm)
  with that inside i(1) fits show ?thesis by blast
qed

lemma at_code_runs:
  assumes "at_code code p s" and "p < 0xff00" and "length code < 0xff00" and "ends_with code s r"
    and i: "decode_at code p = Inr i"
  shows "\<not> (ins_kind i = k_arithmetic \<and> op_kind (snd (ins_operands i)) = o_reg)"
    and "(\<exists>s'. instruction86 i (code ! p) s = go86 s' \<and> ends_with code s' r) \<or>
      (\<exists>e. instruction86 i (code ! p) s = exit86 e \<and> r = (e, m_out s))"
  by (rule at_code_step [OF assms(1-4)], simp add: i)+

text \<open>A plain instruction that changes registers only.\<close>

lemma at_code_next:
  assumes "at_code code p s" and "m_mem s' = m_mem s" and "m_ip s' = m_ip s + word_of_nat k"
  shows "at_code code (p + k) s'"
  using assms by (simp add: at_code_def add.assoc)

lemma move_immediate_goes:
  assumes at: "at_code code p s" and p: "p < 0xff00" and len: "length code < 0xff00" and go: "ends_with code s r"
    and i: "decode_at code p = Inr i" and kind: "ins_kind i = k_move_immediate"
  obtains s' where "op_kind (snd (ins_operands i)) = o_immediate" "at_code code (p + ins_size i) s'"
    and "ends_with code s' r" "m_out s' = m_out s"
    and "m_regs s' = name_write (op_reg (fst (ins_operands i)))
      (if op_width (fst (ins_operands i)) = w_byte then op_immediate (snd (ins_operands i)) AND 0xff
       else op_immediate (snd (ins_operands i))) (m_regs s)"
proof -
  let ?dst = "fst (ins_operands i)" and ?src = "snd (ins_operands i)"
  let ?v = "if op_width ?dst = w_byte then op_immediate ?src AND 0xff else op_immediate ?src"
  note step = at_code_runs(2) [OF at p len go i]
  have plain: "instruction86 i (code ! p) s =
      (case register_instruction86 i (code ! p) s of
         None \<Rightarrow> stuck86 | Some s' \<Rightarrow> go86 (s'\<lparr>m_ip := m_ip s + word_of_nat (ins_size i)\<rparr>))"
    using kind by (simp add: instruction86_def plain86_def Let_def)
  obtain s1 where s1: "register_instruction86 i (code ! p) s = Some s1"
    and next_state: "ends_with code (s1\<lparr>m_ip := m_ip s + word_of_nat (ins_size i)\<rparr>) r"
    using step unfolding plain by (auto split: option.split_asm)
  have dst: "general_register ?dst"
    by (rule ccontr) (use s1 in \<open>simp add: register_instruction86_def Let_def\<close>)
  obtain f where f: "register_step i (m_regs s) = Some f"
    using s1 dst by (cases "register_step i (m_regs s)") (simp_all add: register_instruction86_def Let_def)
  have s1_is: "s1 = written86 ?dst as_constant (s\<lparr>m_regs := f\<rparr>)"
    using s1 kind by (simp add: register_instruction86_def Let_def f dst)
  have "op_kind ?src = o_immediate" "f = name_write (op_reg ?dst) ?v (m_regs s)"
    using f kind by (simp_all add: register_step_def Let_def split: if_split_asm)
  with that [of "s1\<lparr>m_ip := m_ip s + word_of_nat (ins_size i)\<rparr>"] next_state at show ?thesis
    by (simp add: s1_is at_code_next)
qed

lemma skip_nops_goes:
  assumes "skip_nops code p = Inr q" and "at_code code p s" and "p < 0xff00" and "length code < 0xff00"
    and "ends_with code s r"
  shows "q < length code \<and> (\<exists>s'. at_code code q s' \<and> ends_with code s' r \<and> m_regs s' = m_regs s \<and> m_out s' = m_out s)"
  using assms
proof (induction code p arbitrary: s rule: skip_nops.induct)
  case (1 code p)
  have inside: "p < length code" using 1(2) by (subst (asm) skip_nops.simps) (simp split: if_split_asm)
  with 1(2) obtain i where i: "decode_at code p = Inr i"
    by (subst (asm) skip_nops.simps) (auto simp: bindE_eq_Inr)
  show ?case
  proof (cases "ins_kind i = k_nop")
    case False
    with i inside 1 show ?thesis by (subst (asm) (2) skip_nops.simps) auto
  next
    case True
    let ?s = "s\<lparr>m_ip := m_ip s + word_of_nat (ins_size i)\<rparr>"
    have "instruction86 i (code ! p) s = go86 ?s" using True by (simp add: instruction86_def plain86_def Let_def)
    with at_code_runs(2) [OF 1(3,4,5,6) i] have ends: "ends_with code ?s r" by simp
    have at: "at_code code (p + ins_size i) ?s" using at_code_next [OF 1(3)] by simp
    have small: "p + ins_size i < 0xff00" using dec.dec_end [OF i] 1(5) by simp
    have skip: "skip_nops code (p + ins_size i) = Inr q"
      using 1(2) i inside True by (subst (asm) skip_nops.simps) simp
    have decoded: "wrapE EntryUndecodable (decode_at code p) = Inr i" using i by simp
    have "\<not> ins_kind i \<noteq> k_nop" using True by simp
    from 1(1) [OF inside decoded this skip at small 1(5) ends] show ?thesis by simp
  qed
qed

text \<open>An interrupt that ends the program, and one that prints.\<close>

lemma interrupt_goes:
  assumes at: "at_code code p s" and p: "p < 0xff00" and len: "length code < 0xff00" and go: "ends_with code s r"
    and i: "decode_at code p = Inr i" and kind: "ins_kind i = k_interrupt"
  shows "hi8 (m_regs s R_ax) = 0x4c \<Longrightarrow> r = (lo8 (m_regs s R_ax), m_out s)"
    and "hi8 (m_regs s R_ax) = 0x09 \<Longrightarrow> \<exists>message s'. text86 (m_regs s R_dx) s = Some message \<and>
      at_code code (p + 2) s' \<and> ends_with code s' r \<and> m_out s' = m_out s @ [message]"
proof -
  let ?s = "s\<lparr>m_ip := m_ip s + word_of_nat (ins_size i)\<rparr>"
  have step: "(\<exists>s'. dos86 ?s = go86 s' \<and> ends_with code s' r) \<or> (\<exists>e. dos86 ?s = exit86 e \<and> r = (e, m_out s))"
    using at_code_runs(2) [OF at p len go i] kind by (auto simp: instruction86_def Let_def split: if_split_asm)
  have "code ! p = 0xcd" "p + 1 < length code"
  proof -
    show cd: "code ! p = 0xcd"
      using at_code_runs(2) [OF at p len go i] kind by (auto simp: instruction86_def Let_def split: if_split_asm)
    show "p + 1 < length code"
    proof (rule ccontr)
      assume "\<not> p + 1 < length code"
      with dec.dec_inside [OF i] have "length code - p < 2" by simp
      then have "decode_control code p 0xcd = Some (truncated p)"
        by (simp add: decode_control_def need_def)
      with i cd dec.dec_inside [OF i] show False
        by (simp add: decode_at_plain is_prefix_def decode_opcode_def opcode_groups_def skipped_before_int truncated_def)
    qed
  qed
  then have two: "ins_size i = 2" using decode_int [of p code] i by (auto simp: basic_def)
  show "r = (lo8 (m_regs s R_ax), m_out s)" if "hi8 (m_regs s R_ax) = 0x4c"
    using step that by (simp add: dos86_def)
  show "\<exists>message s'. text86 (m_regs s R_dx) s = Some message \<and>
      at_code code (p + 2) s' \<and> ends_with code s' r \<and> m_out s' = m_out s @ [message]"
    if "hi8 (m_regs s R_ax) = 0x09"
  proof -
    have text_ip: "text86 (m_regs s R_dx) ?s = text86 (m_regs s R_dx) s" by (simp add: text86_def)
    have dos: "dos86 ?s = (case text86 (m_regs s R_dx) s of
        None \<Rightarrow> stuck86 | Some message \<Rightarrow> go86 (?s\<lparr>m_out := m_out s @ [message]\<rparr>))"
      using that by (simp add: dos86_def text_ip split: option.split)
    obtain message where message: "text86 (m_regs s R_dx) s = Some message"
      and "ends_with code (?s\<lparr>m_out := m_out s @ [message]\<rparr>) r"
      using step unfolding dos by (auto split: option.split_asm)
    moreover have "at_code code (p + 2) (?s\<lparr>m_out := m_out s @ [message]\<rparr>)"
      using at_code_next [OF at, of "?s\<lparr>m_out := m_out s @ [message]\<rparr>" 2] by (simp add: two)
    ultimately show ?thesis by fastforce
  qed
qed

lemma is_exit_interrupt_True:
  assumes "is_exit_interrupt code p = Inr True"
  obtains i where "decode_at code p = Inr i" and "ins_kind i = k_interrupt"
  using assms that
  by (cases "decode_at code p" rule: attempt.cases) (auto simp: is_exit_interrupt_def)

section \<open>The word form\<close>

lemma hi8_lo8_name_write:
  "name_write R_ax v f R_ax = v" "hi8 (name_write R_ah (ucast b) f R_ax) = b" "lo8 (name_write R_ah (ucast b) f R_ax) = lo8 (f R_ax)"
  "lo8 (name_write R_al (ucast b) f R_ax) = b" "hi8 (name_write R_al (ucast b) f R_ax) = hi8 (f R_ax)"
  by (simp_all add: name_write_def is_word_register_def set_low_def set_high_def)

text \<open>The interrupt that the compiler has found ends the program.\<close>

lemma finish_goes:
  assumes finish: "finish_exit code p v = Inr e" and at: "at_code code p s" and p: "p < 0xff00"
    and len: "length code < 0xff00" and go: "ends_with code s r" and ax: "m_regs s R_ax = v"
  shows "r = (e, m_out s)"
proof -
  have exits: "is_exit_interrupt code p = Inr True" and v: "hi8 v = 0x4c" "e = lo8 v"
    using finish by (auto simp: finish_exit_def bindE_eq_Inr split: if_split_asm)
  obtain i where "decode_at code p = Inr i" "ins_kind i = k_interrupt"
    using is_exit_interrupt_True [OF exits] .
  from interrupt_goes(1) [OF at p len go this] ax v show ?thesis by simp
qed

lemma exit_arithmetic_result: "exit_arithmetic alu x y = Inr v \<Longrightarrow> alu_result alu x y = Some v"
  by (cases alu) (simp_all add: exit_arithmetic_def alu_result_def)

lemma arithmetic_goes:
  assumes at: "at_code code p s" and p: "p < 0xff00" and len: "length code < 0xff00" and go: "ends_with code s r"
    and i: "decode_at code p = Inr i" and arith: "is_exit_arithmetic i"
    and v: "exit_arithmetic (ins_alu i) (m_regs s R_ax) (op_immediate (snd (ins_operands i))) = Inr v"
  obtains s' where "at_code code (p + ins_size i) s'" and "ends_with code s' r" and "m_out s' = m_out s"
    and "m_regs s' R_ax = v"
proof -
  let ?dst = "fst (ins_operands i)" and ?src = "snd (ins_operands i)"
  have kind: "ins_kind i = k_arithmetic" and ax: "op_reg ?dst = R_ax"
    using arith by (simp_all add: is_exit_arithmetic_def)
  note fits = at_code_runs(1) [OF at p len go i] and step = at_code_runs(2) [OF at p len go i]
  have plain: "instruction86 i (code ! p) s =
      (case register_instruction86 i (code ! p) s of
         None \<Rightarrow> stuck86 | Some s' \<Rightarrow> go86 (s'\<lparr>m_ip := m_ip s + word_of_nat (ins_size i)\<rparr>))"
    using kind fits by (simp add: instruction86_def plain86_def Let_def)
  obtain s1 where s1: "register_instruction86 i (code ! p) s = Some s1"
    and next_state: "ends_with code (s1\<lparr>m_ip := m_ip s + word_of_nat (ins_size i)\<rparr>) r"
    using step unfolding plain by (auto split: option.split_asm)
  have dst: "general_register ?dst"
    by (rule ccontr) (use s1 in \<open>simp add: register_instruction86_def Let_def\<close>)
  obtain f where f: "register_step i (m_regs s) = Some f"
    using s1 dst by (cases "register_step i (m_regs s)") (simp_all add: register_instruction86_def Let_def)
  have "m_regs s1 = f" "m_mem s1 = m_mem s" "m_out s1 = m_out s"
    using s1 kind by (auto simp: register_instruction86_def Let_def f dst)
  moreover have "f = name_write R_ax v (m_regs s)"
    using f kind exit_arithmetic_result [OF v] ax by (auto simp: register_step_def Let_def split: if_split_asm)
  ultimately show ?thesis
    using that [of "s1\<lparr>m_ip := m_ip s + word_of_nat (ins_size i)\<rparr>"] next_state at_code_next [OF at]
    by (simp add: hi8_lo8_name_write)
qed

lemma word_form_goes:
  assumes form: "word_form_exit code p v = Inr e" and at: "at_code code p s" and p: "p < length code"
    and len: "length code < 0xff00" and go: "ends_with code s r" and ax: "m_regs s R_ax = v"
  shows "r = (e, m_out s)"
proof -
  have small: "p < 0xff00" using p len by simp
  obtain exits where exits: "is_exit_interrupt code p = Inr exits"
    using form by (auto simp: word_form_exit_def bindE_eq_Inr)
  show ?thesis
  proof (cases exits)
    case True
    with form exits have "finish_exit code p v = Inr e" by (simp add: word_form_exit_def)
    from finish_goes [OF this at small len go ax] show ?thesis .
  next
    case False
    with form exits obtain i w q where i: "decode_at code p = Inr i" "is_exit_arithmetic i"
      and w: "exit_arithmetic (ins_alu i) v (op_immediate (snd (ins_operands i))) = Inr w"
      and q: "skip_nops code (p + ins_size i) = Inr q" and finish: "finish_exit code q w = Inr e"
      by (cases "decode_at code p" rule: attempt.cases)
        (auto simp: word_form_exit_def bindE_eq_Inr split: if_split_asm)
    obtain s1 where s1: "at_code code (p + ins_size i) s1" "ends_with code s1 r" "m_out s1 = m_out s"
      "m_regs s1 R_ax = w"
      using arithmetic_goes [OF at small len go i] w ax by metis
    have "p + ins_size i < 0xff00" using dec.dec_end [OF i(1)] len by simp
    from skip_nops_goes [OF q s1(1) this len s1(2)] obtain s2 where
      s2: "at_code code q s2" "ends_with code s2 r" "m_regs s2 = m_regs s1" "m_out s2 = m_out s1" and "q < length code"
      by blast
    with finish_goes [OF finish s2(1) _ len s2(2)] s1(3,4) len show ?thesis by simp
  qed
qed

section \<open>The byte form\<close>

text \<open>The halves that the compiler has seen are those of AX.\<close>

definition byte_exit_of :: "byte_exit \<Rightarrow> machine86 \<Rightarrow> bool" where
  "byte_exit_of b s \<longleftrightarrow> (be_saw_ah b \<longrightarrow> hi8 (m_regs s R_ax) = be_ah b) \<and>
     (be_saw_al b \<longrightarrow> lo8 (m_regs s R_ax) = be_al b)"

lemma byte_move_goes:
  assumes "at_code code p s" and "p < 0xff00" and "length code < 0xff00" and "ends_with code s r"
    and "decode_at code p = Inr i" and move: "is_byte_move i"
  shows "\<exists>s'. at_code code (p + ins_size i) s' \<and> ends_with code s' r \<and> m_out s' = m_out s \<and>
    m_regs s' = name_write (op_reg (fst (ins_operands i))) (ucast (lo8 (op_immediate (snd (ins_operands i))))) (m_regs s)"
proof -
  have kind: "ins_kind i = k_move_immediate" and width: "op_width (fst (ins_operands i)) = w_byte"
    using move by (simp_all add: is_byte_move_def)
  show ?thesis
    by (rule move_immediate_goes [OF assms(1-5) kind]) (auto simp: width and_ff_byte)
qed

lemma combine_goes:
  assumes "combine_byte_exit code c b = Inr v" and "at_code code c s" and "c < 0xff00" and "length code < 0xff00"
    and "ends_with code s r" and "byte_exit_of b s" and "hi8 v = 0x4c"
  shows "r = (lo8 v, m_out s)"
  using assms
proof (induction code c b arbitrary: s rule: combine_byte_exit.induct)
  case (1 code c b)
  note at = 1(4) and small = 1(5) and len = 1(6) and go = 1(7) and halves = 1(8)
  have inside: "c < length code" by (rule at_code_step [OF at small len go])
  with 1(3) obtain i where i: "decode_at code c = Inr i"
    by (subst (asm) combine_byte_exit.simps) (auto simp: bindE_eq_Inr)
  show ?case
  proof (cases "ins_kind i = k_interrupt")
    case True
    with 1(3) i inside have "byte_exit_done b = Inr v" by (subst (asm) combine_byte_exit.simps) simp
    then have "hi8 (m_regs s R_ax) = hi8 v" "lo8 (m_regs s R_ax) = lo8 v"
      using halves by (auto simp: byte_exit_done_def byte_exit_of_def split: if_split_asm)
    with interrupt_goes(1) [OF at small len go i True] 1(9) show ?thesis by simp
  next
    case False
    let ?reg = "op_reg (fst (ins_operands i))" and ?imm = "lo8 (op_immediate (snd (ins_operands i)))"
    have move: "is_byte_move i" and regs: "?reg = R_ah \<or> ?reg = R_al"
      using 1(3) i inside False by (subst (asm) combine_byte_exit.simps, simp add: Let_def split: if_split_asm)+
    obtain s' where s': "at_code code (c + ins_size i) s'" "ends_with code s' r" "m_out s' = m_out s"
      "m_regs s' = name_write ?reg (ucast ?imm) (m_regs s)"
      using byte_move_goes [OF at small len go i move] by blast
    have next_small: "c + ins_size i < 0xff00" using dec.dec_end [OF i] len by simp
    have decoded: "wrapE ByteEntryUndecodable (decode_at code c) = Inr i" using i by simp
    show ?thesis
    proof (cases "?reg = R_ah")
      case True
      let ?b = "b\<lparr>be_ah := ?imm, be_saw_ah := True\<rparr>"
      have rest: "combine_byte_exit code (c + ins_size i) ?b = Inr v"
        using 1(3) i inside False move True by (subst (asm) combine_byte_exit.simps) (simp add: Let_def)
      have "byte_exit_of ?b s'" using halves s'(4) True by (simp add: byte_exit_of_def hi8_lo8_name_write)
      from 1(1) [OF inside decoded False _ _ _ True rest s'(1) next_small len s'(2) this 1(9)] move s'(3)
      show ?thesis by simp
    next
      case other: False
      with regs have al: "?reg = R_al" by simp
      let ?b = "b\<lparr>be_al := ?imm, be_saw_al := True\<rparr>"
      have rest: "combine_byte_exit code (c + ins_size i) ?b = Inr v"
        using 1(3) i inside False move other al by (subst (asm) combine_byte_exit.simps) (simp add: Let_def)
      have "byte_exit_of ?b s'" using halves s'(4) al by (simp add: byte_exit_of_def hi8_lo8_name_write)
      from 1(2) [OF inside decoded False _ _ _ other al rest s'(1) next_small len s'(2) this 1(9)] move s'(3)
      show ?thesis by simp
    qed
  qed
qed

section \<open>The entry instruction\<close>

text \<open>Without registers and memory only a move of an immediate has an effect that is known.\<close>

lemma known_effect:
  assumes "translate code i exit_machine 0 = Inr (e, m)" and "ef_destination e = V_ax" and "ef_immediate e = Some v"
  shows "ins_kind i = k_move_immediate \<or> ins_kind i = k_move" and "op_kind (fst (ins_operands i)) = o_reg"
    and "op_kind (snd (ins_operands i)) = o_immediate" and "op_immediate (snd (ins_operands i)) = v"
    and "register_for (op_reg (fst (ins_operands i))) = Some V_ax"
proof -
  have none: "mc_registers exit_machine = None" by (simp add: exit_machine_def)
  have "\<not> is_register_arithmetic i"
  proof
    assume "is_register_arithmetic i"
    with assms(1) have "translate_arithmetic i exit_machine = Inr (e, m)"
      by (simp add: translate_def failed_def split: if_split_asm)
    with assms(3) show False
      by (auto simp: translate_arithmetic_def Let_def bindE_eq_Inr failed_def split: prod.split_asm option.split_asm)
  qed
  then have move: "translate_move i exit_machine 0 = Inr (e, m)"
    and kind: "ins_kind i = k_move_immediate \<or> ins_kind i = k_move"
    using assms(1) none
    by (auto simp: translate_def failed_def translate_call_def translate_return_def translate_stack_def with_concrete_def
        split: if_split_asm)
  obtain d where d: "register_for (op_reg (fst (ins_operands i))) = Some d" "op_kind (fst (ins_operands i)) = o_reg"
    using move none by (auto simp: translate_move_def case_prod_unfold Let_def failed_def translate_store_def
        with_concrete_def split: if_split_asm option.split_asm)
  have "op_kind (snd (ins_operands i)) = o_immediate"
  proof (rule ccontr)
    assume "op_kind (snd (ins_operands i)) \<noteq> o_immediate"
    with move d none have "copy_register d (snd (ins_operands i)) exit_machine = Inr (e, m)"
      by (auto simp: translate_move_def case_prod_unfold Let_def failed_def translate_load_def with_concrete_def
          split: if_split_asm)
    with assms(3) show False
      by (auto simp: copy_register_def bindE_eq_Inr failed_def split: option.split_asm)
  qed
  moreover from this move d have "define_effect exit_machine d (op_immediate (snd (ins_operands i))) None
      (map_option (store_concrete d (op_immediate (snd (ins_operands i)))) (mc_registers exit_machine))
      (mc_memory exit_machine) = Inr (e, m)"
    by (simp add: translate_move_def case_prod_unfold Let_def)
  then have "ef_destination e = d" "ef_immediate e = Some (op_immediate (snd (ins_operands i)))"
    by (auto simp: define_effect_def bindE_eq_Inr)
  ultimately show "ins_kind i = k_move_immediate \<or> ins_kind i = k_move" "op_kind (fst (ins_operands i)) = o_reg"
    "op_kind (snd (ins_operands i)) = o_immediate" "op_immediate (snd (ins_operands i)) = v"
    "register_for (op_reg (fst (ins_operands i))) = Some V_ax"
    using assms(2,3) kind d by simp_all
qed

lemma register_for_ax: "register_for r = Some V_ax \<Longrightarrow> r = R_ax"
  by (cases r) simp_all

text \<open>A byte move has an effect.\<close>

lemma byte_move_effect:
  assumes i: "decode_at code p = Inr i" and move: "is_byte_move i" and imm: "op_kind (snd (ins_operands i)) = o_immediate"
    and reg: "op_reg (fst (ins_operands i)) = R_ah \<or> op_reg (fst (ins_operands i)) = R_al"
  shows "\<exists>x. translate code i exit_machine 0 = Inr x"
proof -
  have kind: "ins_kind i = k_move_immediate" using move by (simp add: is_byte_move_def)
  then have "ins_operand_count i = 2" using decode_at_operands [OF i] by (simp add: operands_wf_def)
  moreover have "ins_offset i \<le> length code" "\<not> length code - ins_offset i < ins_size i"
    using decode_at_fits [OF i] by (auto simp: fits_def)
  moreover obtain d where d: "register_for (op_reg (fst (ins_operands i))) = Some d" "d \<noteq> V_count"
    using reg by auto
  ultimately show ?thesis
    using kind move imm
    by (auto simp: translate_def is_register_arithmetic_def is_stack_register_def is_byte_move_def translate_move_def
        case_prod_unfold Let_def define_effect_def define_constant_def push_value_def set_register_def exit_machine_def)
qed

text \<open>A word move at the entry.\<close>

lemma word_move_goes:
  assumes at: "at_code code p s" and p: "p < 0xff00" and len: "length code < 0xff00" and go: "ends_with code s r"
    and i: "decode_at code p = Inr i" and effect: "translate code i exit_machine 0 = Inr (e, m)"
    and known: "ef_destination e = V_ax" "ef_immediate e = Some v"
  shows "\<exists>s'. at_code code (p + ins_size i) s' \<and> ends_with code s' r \<and> m_out s' = m_out s \<and> m_regs s' R_ax = v"
proof -
  note k = known_effect [OF effect known]
  have kind: "ins_kind i = k_move_immediate"
  proof (rule ccontr)
    assume "ins_kind i \<noteq> k_move_immediate"
    with k(1) have "ins_kind i = k_move" by simp
    moreover from this k(3) have "register_step i (m_regs s) = None" by (intro register_step_none(2)) simp_all
    ultimately have "instruction86 i (code ! p) s = stuck86"
      using k(2,3) by (simp add: instruction86_def plain86_def register_instruction86_def Let_def)
    with at_code_runs(2) [OF at p len go i] show False by simp
  qed
  have ax: "op_reg (fst (ins_operands i)) = R_ax" using register_for_ax [OF k(5)] .
  have "operand_wf (fst (ins_operands i))" using decode_at_operands [OF i] by (simp add: operands_wf_def)
  with ax k(2) have width: "op_width (fst (ins_operands i)) \<noteq> w_byte"
    by (auto simp: operand_wf_def registers_of_def byte_registers_def)
  show ?thesis
    by (rule move_immediate_goes [OF at p len go i kind]) (auto simp: width ax k(4) hi8_lo8_name_write)
qed

lemma extract_goes:
  assumes found: "exit_extract_code (com_image code) = Inr e" and at: "at_code code 0 s"
    and len: "length code < 0xff00" and go: "ends_with code s r"
  shows "r = (e, m_out s)"
proof -
  obtain entry where entry: "skip_nops code 0 = Inr entry"
    using found by (auto simp: exit_extract_code_def Let_def bindE_eq_Inr)
  obtain s1 where s1: "at_code code entry s1" "ends_with code s1 r" "m_out s1 = m_out s" and inside: "entry < length code"
    using skip_nops_goes [OF entry at _ len go] by auto
  have small: "entry < 0xff00" using inside len by simp
  obtain i where i: "decode_at code entry = Inr i"
    using found entry by (auto simp: exit_extract_code_def Let_def bindE_eq_Inr wrapE_eq_Inr)
  obtain q where q: "skip_nops code (entry + ins_size i) = Inr q"
    using found entry i by (auto simp: exit_extract_code_def Let_def bindE_eq_Inr)
  have byte_form: "r = (lo8 v, m_out s)" if "combine_byte_exit code entry combine_start = Inr v" "hi8 v = 0x4c" for v
    using combine_goes [OF that(1) s1(1) small len s1(2) _ that(2)] s1(3)
    by (simp add: byte_exit_of_def combine_start_def)
  show ?thesis
  proof (cases "translate code i exit_machine 0" rule: attempt.cases)
    case (1 x)
    obtain ef m where x: "x = (ef, m)" by (cases x)
    show ?thesis
    proof (cases "ins_kind i = k_move_immediate \<and> op_width (fst (ins_operands i)) = w_byte")
      case True
      with found entry i q 1 x have "byte_form_exit code entry q = Inr e"
        by (simp add: exit_extract_code_def Let_def)
      then obtain v where v: "combine_byte_exit code entry combine_start = Inr v" and "\<exists>p. finish_exit code p v = Inr e"
        by (auto simp: byte_form_exit_def bindE_eq_Inr split: if_split_asm)
      then have "hi8 v = 0x4c" "e = lo8 v"
        by (auto simp: finish_exit_def bindE_eq_Inr split: if_split_asm)
      with byte_form [OF v] show ?thesis by simp
    next
      case False
      with found entry i q 1 x obtain v where v: "ef_destination ef = V_ax" "ef_immediate ef = Some v"
        and form: "word_form_exit code q v = Inr e"
        by (auto simp: exit_extract_code_def Let_def split: register_id.split_asm option.split_asm)
      from word_move_goes [OF s1(1) small len s1(2) i 1 [unfolded x] v] obtain s2 where
        s2: "at_code code (entry + ins_size i) s2" "ends_with code s2 r" "m_out s2 = m_out s1" "m_regs s2 R_ax = v"
        by blast
      have "entry + ins_size i < 0xff00" using dec.dec_end [OF i] len by simp
      from skip_nops_goes [OF q s2(1) this len s2(2)] obtain s3 where
        s3: "at_code code q s3" "ends_with code s3 r" "m_regs s3 = m_regs s2" "m_out s3 = m_out s2" and "q < length code"
        by blast
      with word_form_goes [OF form s3(1) _ len s3(2)] s2(3,4) s1(3) show ?thesis by simp
    qed
  next
    case (2 err)
    with found entry i q obtain v where v: "combine_byte_exit code entry combine_start = Inr v"
      by (auto simp: exit_extract_code_def Let_def bindE_eq_Inr)
    have "ins_kind i \<noteq> k_interrupt"
      using v i inside by (auto simp: combine_byte_exit.simps [of code entry] byte_exit_done_def combine_start_def)
    with v i inside have move: "is_byte_move i"
      and reg: "op_reg (fst (ins_operands i)) = R_ah \<or> op_reg (fst (ins_operands i)) = R_al"
      by (simp_all add: combine_byte_exit.simps [of code entry] Let_def split: if_split_asm)
    have kind: "ins_kind i = k_move_immediate" using move by (simp add: is_byte_move_def)
    have "op_kind (snd (ins_operands i)) = o_immediate"
      by (rule move_immediate_goes [OF s1(1) small len s1(2) i kind])
    with byte_move_effect [OF i move _ reg] 2 show ?thesis by auto
  next
    case 3
    with found entry i q show ?thesis by (simp add: exit_extract_code_def Let_def)
  qed
qed

section \<open>The console pattern\<close>

lemma extract_at_goes:
  assumes found: "extract_exit_code_at code p = Inr e" and at: "at_code code p s" and p: "p < length code"
    and len: "length code < 0xff00" and go: "ends_with code s r"
  shows "r = (e, m_out s)"
proof -
  let ?v = "le16 (code ! (p + 1)) (code ! (p + 2))"
  have small: "p < 0xff00" using p len by simp
  obtain i where i: "decode_at code p = Inr i"
    using found by (auto simp: extract_exit_code_at_def bindE_eq_Inr wrapE_eq_Inr)
  have b8: "code ! p = 0xb8" "p + 3 \<le> length code"
    using found i by (simp_all add: extract_exit_code_at_def split: if_split_asm)
  then have i_is: "i = mov_ax_instruction p ?v" using decode_mov_ax [of p code] i by simp
  obtain q where q: "skip_nops code (p + 3) = Inr q" "is_exit_interrupt code q = Inr True"
    and v: "hi8 ?v = 0x4c" "e = lo8 ?v"
    using found i b8 by (cases "skip_nops code (p + 3)" rule: attempt.cases)
      (auto simp: extract_exit_code_at_def i_is Let_def bindE_eq_Inr split: if_split_asm)
  have "ins_kind i = k_move_immediate" by (simp add: i_is)
  then obtain s1 where s1: "at_code code (p + 3) s1" "ends_with code s1 r" "m_out s1 = m_out s" "m_regs s1 R_ax = ?v"
    by (rule move_immediate_goes [OF at small len go i])
      (auto simp: i_is mov_ax_instruction_def with_operands_def basic_def immediate_operand_def default_operand_def
        hi8_lo8_name_write)
  have "p + 3 < 0xff00" using b8 len by simp
  from skip_nops_goes [OF q(1) s1(1) this len s1(2)] obtain s2 where
    s2: "at_code code q s2" "ends_with code s2 r" "m_regs s2 = m_regs s1" "m_out s2 = m_out s1" and "q < length code"
    by blast
  moreover obtain j where "decode_at code q = Inr j" "ins_kind j = k_interrupt"
    using is_exit_interrupt_True [OF q(2)] .
  ultimately show ?thesis
    using interrupt_goes(1) [OF s2(1) _ len s2(2)] s1(3,4) v len by simp
qed

text \<open>The string as the compiler reads it and as DOS does.\<close>

lemma dollar_text:
  assumes "dollar_string (drop k code) = Some message" and "m_mem s = m_mem (start86 code)" and "length code < 0xff00"
  shows "text86 (word_of_nat (0x100 + k)) s = Some message"
  using assms(1)
proof (induction "drop k code" arbitrary: k message)
  case Nil
  from Nil(1) [symmetric] Nil(2) show ?case by simp
next
  case (Cons c cs)
  have k: "k < length code" using Cons(2) by (cases "k < length code") simp_all
  have cs: "cs = drop (Suc k) code" "c = code ! k"
    using Cons(2) Cons_nth_drop_Suc [OF k] by (metis list.inject)+
  have a: "unat (word_of_nat (0x100 + k) :: u16) = 0x100 + k"
    using k assms(3) by (simp only: unat_of_nat) simp
  have here: "m_mem s (word_of_nat (0x100 + k)) = code ! k"
    using k assms(2) a by (simp add: start86_def)
  have not_last: "(word_of_nat (0x100 + k) :: u16) \<noteq> 0xffff"
  proof
    assume "(word_of_nat (0x100 + k) :: u16) = 0xffff"
    with a have "0x100 + k = unat (0xffff :: u16)" by (simp only:)
    with k assms(3) show False by simp
  qed
  have next_is: "(word_of_nat (0x100 + k) :: u16) + 1 = word_of_nat (0x100 + Suc k)" by simp
  have step: "text86 (word_of_nat (0x100 + k)) s = (if code ! k = 0x24 then Some []
      else map_option (Cons (code ! k)) (text86 (word_of_nat (0x100 + Suc k)) s))"
    unfolding text86_code by (subst string86.simps) (simp only: here not_last next_is if_False)
  have message: "dollar_string (c # cs) = Some message" using Cons(2,3) by simp
  show ?case
  proof (cases "c = 0x24")
    case True
    with message step cs show ?thesis by simp
  next
    case False
    with message obtain rest where rest: "dollar_string cs = Some rest" "message = c # rest" by auto
    with Cons(1) [OF cs(1)] cs have "text86 (word_of_nat (0x100 + Suc k)) s = Some rest" by simp
    with step False rest cs show ?thesis by simp
  qed
qed

lemma console_goes:
  assumes found: "compile_console_program (com_image code) = Inr elf" and at: "at_code code 0 s"
    and len: "length code < 0xff00" and go: "ends_with code s r"
  shows "\<exists>message e. r = (e, m_out s @ [message]) \<and> emitted (emit_write_exit_executable message e) = Inr elf \<and>
    length message \<le> length code"
proof -
  obtain p where p: "skip_nops code 0 = Inr p"
    using found by (auto simp: compile_console_program_def Let_def bindE_eq_Inr split: if_split_asm)
  let ?dx = "le16 (code ! (p + 1)) (code ! (p + 2))"
  have bytes: "5 \<le> length code - p" "code ! p = 0xba" "code ! (p + 3) = 0xb4" "code ! (p + 4) = 0x09"
    and dx: "0x100 \<le> unat ?dx"
    using found p by (simp_all add: compile_console_program_def Let_def split: if_split_asm)
  obtain q where q: "skip_nops code (p + 5) = Inr q" "is_exit_interrupt code q = Inr True"
    and rest: "bindE (skip_nops code (q + 2)) (\<lambda>exit_offset.
      bindE (extract_exit_code_at code exit_offset) (\<lambda>exit_code.
        case dollar_string (drop (unat ?dx - 0x100) code) of
          None \<Rightarrow> Inl (Fail StringUnterminated)
        | Some message \<Rightarrow> emitted (emit_write_exit_executable message exit_code))) = Inr elf"
    using found p bytes dx
    by (cases "skip_nops code (p + 5)" rule: attempt.cases)
      (auto simp: compile_console_program_def Let_def bindE_eq_Inr [of "is_exit_interrupt _ _"] split: if_split_asm bool.split_asm)
  obtain x e message where x: "skip_nops code (q + 2) = Inr x" "extract_exit_code_at code x = Inr e"
    and message: "dollar_string (drop (unat ?dx - 0x100) code) = Some message"
    and emit: "emitted (emit_write_exit_executable message e) = Inr elf"
    using rest by (auto simp: bindE_eq_Inr split: option.split_asm)
  obtain s1 where s1: "at_code code p s1" "ends_with code s1 r" "m_out s1 = m_out s"
    using skip_nops_goes [OF p at _ len go] by auto
  have small: "p < 0xff00" "p + 3 < 0xff00" "p + 5 < 0xff00" using bytes(1) len by simp_all
  have nine: "code ! (4 + p) = 0x09" using bytes(4) by (simp only: add.commute)
  have i: "decode_at code p = Inr (mov_dx_instruction p ?dx)" "decode_at code (p + 3) = Inr (mov_ah_instruction (p + 3) 9)"
    using decode_mov_dx [of p code] decode_mov_ah [of "p + 3" code] bytes nine by simp_all
  have kinds: "ins_kind (mov_dx_instruction p ?dx) = k_move_immediate"
    "ins_kind (mov_ah_instruction (p + 3) 9) = k_move_immediate" by simp_all
  obtain s2 where s2: "at_code code (p + 3) s2" "ends_with code s2 r" "m_out s2 = m_out s1" "m_regs s2 R_dx = ?dx"
    by (rule move_immediate_goes [OF s1(1) small(1) len s1(2) i(1) kinds(1)])
      (auto simp: mov_dx_instruction_def with_operands_def basic_def immediate_operand_def default_operand_def
        name_write_def is_word_register_def)
  have five: "5 + p = p + 5" and nine_low: "lo8 9 = 9" by (simp_all add: lo8_def)
  obtain s3 where s3: "at_code code (p + 5) s3" "ends_with code s3 r" "m_out s3 = m_out s2"
    "m_regs s3 R_dx = ?dx" "hi8 (m_regs s3 R_ax) = 9"
    by (rule move_immediate_goes [OF s2(1) small(2) len s2(2) i(2) kinds(2)])
      (auto simp: mov_ah_instruction_def with_operands_def basic_def immediate_operand_def default_operand_def
        name_write_def is_word_register_def s2(4) set_high_def five nine_low)
  obtain s4 where s4: "at_code code q s4" "ends_with code s4 r" "m_regs s4 = m_regs s3" "m_out s4 = m_out s3"
    and q_in: "q < length code"
    using skip_nops_goes [OF q(1) s3(1) small(3) len s3(2)] by blast
  obtain j where j: "decode_at code q = Inr j" "ins_kind j = k_interrupt"
    using is_exit_interrupt_True [OF q(2)] .
  have "q < 0xff00" "hi8 (m_regs s4 R_ax) = 9" using q_in len s4(3) s3(5) by simp_all
  from interrupt_goes(2) [OF s4(1) this(1) len s4(2) j this(2)] obtain shown s5 where
    shown: "text86 (m_regs s4 R_dx) s4 = Some shown"
    and s5: "at_code code (q + 2) s5" "ends_with code s5 r" "m_out s5 = m_out s4 @ [shown]" by blast
  have "word_of_nat (0x100 + (unat ?dx - 0x100)) = ?dx" using dx by simp
  with dollar_text [OF message _ len, of s4] shown s4(1,3) s3(4) have "shown = message"
    by (simp add: at_code_def)
  moreover have "x < length code \<and> (\<exists>s'. at_code code x s' \<and> ends_with code s' r \<and> m_regs s' = m_regs s5 \<and> m_out s' = m_out s5)"
  proof (rule skip_nops_goes [OF x(1) s5(1) _ len s5(2)])
    have "q + 2 < length code"
      using x(1) by (subst (asm) skip_nops.simps) (simp split: if_split_asm)
    with len show "q + 2 < 0xff00" by simp
  qed
  then obtain s6 where "at_code code x s6" "ends_with code s6 r" "m_out s6 = m_out s5" "x < length code" by blast
  with extract_at_goes [OF x(2) _ _ len] have "r = (e, m_out s5)" by metis
  moreover have "length message \<le> length code"
  proof -
    have "dollar_string xs = Some m \<Longrightarrow> length m \<le> length xs" for xs m
      by (induction xs arbitrary: m) (auto split: if_split_asm)
    from this [OF message] show ?thesis by simp
  qed
  ultimately show ?thesis using emit s5(3) s4(4) s3(3) s2(3) s1(3) by auto
qed

section \<open>Correctness\<close>

text \<open>What is written, without empty writes.\<close>

definition visible :: "byte list list \<Rightarrow> byte list list" where
  "visible out = filter (\<lambda>data. data \<noteq> []) out"

lemma exit_compiled:
  assumes compile: "exit_compile (com_image code) = Inr elf" and len: "length code < 0xff00"
    and run: "run86 (length code) n (start86 code) = Some (e, out)"
    and fits: "always86 (exit_fits code) (length code) n (start86 code)"
  shows "x86_run os elf (6 * length (visible out) + 3) start_state =
    Some (map (ev_write 1) (visible out) @ [ev_exit (ucast e)])"
proof -
  have at: "at_code code 0 (start86 code)" by (simp add: at_code_def start86_def)
  have go: "ends_with code (start86 code) (e, out)" using run fits by (auto simp: ends_with_def)
  have start: "m_out (start86 code) = []" by (simp add: start86_def)
  have exits: ?thesis if "elf = action_image [] e" "visible out = []"
  proof -
    have "length (action_image [] e) < 2 ^ 31"
      by (simp add: action_image_def Let_def layout_defs)
    from run_program [OF this, of os] that show ?thesis by simp
  qed
  show ?thesis
  proof (cases "compile_console_program (com_image code)" rule: attempt.cases)
    case (1 elf')
    then have "compile_console_program (com_image code) = Inr elf" using compile by (simp add: exit_compile_def)
    from console_goes [OF this at len go] start obtain message where
      out: "out = [message]" and emit: "emitted (emit_write_exit_executable message e) = Inr elf"
      and short: "length message \<le> length code" by auto
    show ?thesis
    proof (cases "message = []")
      case True
      with emit out show ?thesis
        by (intro exits) (simp_all add: emitted_def emit_write_exit_executable_def emit_exit_image visible_def)
    next
      case False
      let ?call = "\<lparr>wc_payload = message, wc_file_descriptor = 1\<rparr>"
      let ?acts = "[act_write ?call]"
      have "elf = action_image ?acts e"
        using emit False emit_syscall_program_actions [of "[?call]" "[]" e] emit_action_program_image [of ?acts e]
        by (simp add: emitted_def emit_write_exit_executable_def emit_multi_write_exit_executable_def)
      moreover have "length (action_image ?acts e) < 2 ^ 31"
        using short len by (simp add: action_image_def Let_def layout_defs action_code_size_def)
      from run_program [OF this, of os] have
        "x86_run os (action_image ?acts e) 9 start_state = Some [ev_write 1 message, ev_exit (ucast e)]"
        by (simp add: event_of_def)
      ultimately show ?thesis using out False by (simp add: visible_def)
    qed
  next
    case (2 err)
    with compile obtain c where c: "exit_extract_code (com_image code) = Inr c"
      and emit: "emitted (emit_exit_executable c) = Inr elf"
      by (auto simp: exit_compile_def bindE_eq_Inr)
    from extract_goes [OF c at len go] start have "c = e" "out = []" by simp_all
    with emit show ?thesis by (intro exits) (simp_all add: emitted_def emit_exit_image visible_def)
  next
    case 3
    with compile show ?thesis by (simp add: exit_compile_def)
  qed
qed

end
