(* ===== verification/Greeting.thy ===== *)
theory Greeting
  imports BranchingCorrect StraightCorrect ExitCorrect
begin

text \<open>
  Programs to try the correctness theorems on. \<open>greeting_program\<close> compares and branches over an exit that is
  not taken, prints "Hi" and exits with 7: MOV CX, 2; CMP CX, 2; JZ L; MOV AX, 4C01h; INT 21h; L: MOV DX, 119h;
  MOV AH, 9; INT 21h; MOV AX, 4C07h; INT 21h; "Hi$". \<open>calling_program\<close> prints in a subroutine: JMP L;
  S: MOV DX, 112h; MOV AH, 9; INT 21h; RET; L: CALL S; MOV AX, 4C07h; INT 21h; "Hi$". \<open>adding_program\<close> is
  NOP; MOV AX, 4C02h; NOP; ADD AX, 5; NOP; INT 21h.
\<close>

definition greeting_program :: "byte list" where
  "greeting_program = [0xb9, 0x02, 0x00, 0x83, 0xf9, 0x02, 0x74, 0x05, 0xb8, 0x01, 0x4c, 0xcd, 0x21,
     0xba, 0x19, 0x01, 0xb4, 0x09, 0xcd, 0x21, 0xb8, 0x07, 0x4c, 0xcd, 0x21, 0x48, 0x69, 0x24]"

lemma greeting_length: "length greeting_program = 28"
  by (simp add: greeting_program_def)

lemma greeting_run: "run86 28 9 (start86 greeting_program) = Some (7, [[0x48, 0x69]])"
  by code_simp

lemma greeting_straight_fits: "always86 (straight_fits greeting_program) 28 9 (start86 greeting_program)"
  by code_simp

definition calling_program :: "byte list" where
  "calling_program = [0xeb, 0x08, 0xba, 0x12, 0x01, 0xb4, 0x09, 0xcd, 0x21, 0xc3, 0xe8, 0xf5, 0xff,
     0xb8, 0x07, 0x4c, 0xcd, 0x21, 0x48, 0x69, 0x24]"

lemma calling_length: "length calling_program = 21"
  by (simp add: calling_program_def)

lemma calling_run: "run86 21 8 (start86 calling_program) = Some (7, [[0x48, 0x69]])"
  by code_simp

lemma calling_branching_fits: "always86 (branching_fits calling_program) 21 8 (start86 calling_program)"
  by code_simp

lemma calling_emitted:
  "case emit_c_source (com_image calling_program) of
     Inr prog \<Rightarrow> list_all (\<lambda>b. cb_loop b = None) (cp_blocks prog) | _ \<Rightarrow> False"
  by code_simp

lemma calling_printed:
  obtains prog where "emit_c_source (com_image calling_program) = Inr prog"
    and "\<forall>b \<in> set (cp_blocks prog). cb_loop b = None"
  using calling_emitted that by (auto split: sum.split_asm simp: list_all_iff)

definition adding_program :: "byte list" where
  "adding_program = [0x90, 0xb8, 0x02, 0x4c, 0x90, 0x05, 0x05, 0x00, 0x90, 0xcd, 0x21]"

lemma adding_length: "length adding_program = 11"
  by (simp add: adding_program_def)

lemma adding_run: "run86 11 6 (start86 adding_program) = Some (7, [])"
  by code_simp

lemma adding_exit_fits: "always86 (exit_fits adding_program) 11 6 (start86 adding_program)"
  by code_simp

lemma adding_compiled: "exit_compile (com_image adding_program) = Inr (action_image [] 7)"
proof -
  have "compile_console_program (com_image adding_program) = Inl (Fail NotConsoleEntry)" by code_simp
  moreover have "exit_extract_code (com_image adding_program) = Inr 7" by code_simp
  ultimately show ?thesis by (simp add: exit_compile_def emitted_def emit_exit_image)
qed

end
