(* ===== verification/GreetingWalk.thy ===== *)
theory GreetingWalk
  imports Greeting LlvmPrograms "HOL-Library.Code_Target_Nat"
begin

text \<open>
  The straight-line compiler on the program of \<open>Greeting\<close>, and its LLVM text for a program with an
  arithmetic instruction, evaluated with binary natural numbers, since addresses are compared with the size of
  the guest's memory.
\<close>

declare walk_blocks.simps [code] resolve_exit_code.simps [code] resolve_constant.simps [code]
  resolve_compare_flags.simps [code]

lemma greeting_walk:
  "map_option (map_sum id (\<lambda>(c, ts). (c, sl_writes ts, sl_actions ts)))
     (straight_line_walk (\<lambda>_. None) (com_image greeting_program)) =
   Some (Inr (7, [console_write [0x48, 0x69]], []))"
  by code_simp

lemma option_map_Inr:
  assumes "map_option (map_sum id f) x = Some (Inr y)"
  obtains z where "x = Some (Inr z)" and "f z = y"
  using assms that by (cases x; cases "the x") auto

lemma greeting_compiled:
  "straight_line_compile (\<lambda>_. None) (com_image greeting_program) =
     Some (Inr (action_image [act_write (console_write [0x48, 0x69])] 7))"
proof -
  obtain ts where "straight_line_walk (\<lambda>_. None) (com_image greeting_program) = Some (Inr (7, ts))"
    "sl_writes ts = [console_write [0x48, 0x69]]" "sl_actions ts = []"
    using greeting_walk
    by (elim option_map_Inr) (auto split: prod.split_asm)
  then show ?thesis
    using emit_syscall_program_actions [of "[console_write [0x48, 0x69]]" "[]" 7]
      emit_action_program_image [of "[act_write (console_write [0x48, 0x69])]" 7]
    by (simp add: straight_line_compile_def emit_multi_write_exit_executable_def)
qed

section \<open>The LLVM text\<close>

text \<open>MOV AX, 4C02h; ADD AX, 5; INT 21h.\<close>

declare llvm_trace.simps [code] first_constant.simps [code]

definition sum_program :: "byte list" where
  "sum_program = [0xb8, 0x02, 0x4c, 0x05, 0x05, 0x00, 0xcd, 0x21]"

lemma sum_walk:
  "map_option (map_sum id (\<lambda>(trace, v).
      (map snd trace, map (\<lambda>(i, lines). op_kind (snd (ins_operands i))) trace, v)))
     (straight_line_llvm (com_image sum_program)) =
   Some (Inr ([[ll_constant (V_ax, 17) 0x4c02], [ll_operation (V_ax, 19) op_add (V_ax, 17) (V_ax, 18)]],
     [o_immediate, o_immediate], 7))"
  by code_simp

lemma sum_printed:
  obtains i j where "straight_line_llvm (com_image sum_program) =
      Some (Inr ([(i, [ll_constant (V_ax, 17) 0x4c02]), (j, [ll_operation (V_ax, 19) op_add (V_ax, 17) (V_ax, 18)])], 7))"
    and "op_kind (snd (ins_operands j)) = o_immediate"
proof -
  obtain trace v where t: "straight_line_llvm (com_image sum_program) = Some (Inr (trace, v))"
    and "map snd trace = [[ll_constant (V_ax, 17) 0x4c02], [ll_operation (V_ax, 19) op_add (V_ax, 17) (V_ax, 18)]]"
      "map (\<lambda>(i, lines). op_kind (snd (ins_operands i))) trace = [o_immediate, o_immediate]" "v = 7"
    using sum_walk by (elim option_map_Inr) (auto split: prod.split_asm)
  then obtain i j where "trace = [(i, [ll_constant (V_ax, 17) 0x4c02]), (j, [ll_operation (V_ax, 19) op_add (V_ax, 17) (V_ax, 18)])]"
    "op_kind (snd (ins_operands j)) = o_immediate"
    by (auto simp: map_eq_Cons_conv)
  with that t \<open>v = 7\<close> show thesis by blast
qed
end
