(* ===== verification/Spec2Isabelle.thy ===== *)
theory Spec2Isabelle
  imports DecoderSafety Recovery DirectFlow DescriptorThreading ControlFlowIr
    DosServices BiosServices KeyedStores ExitFacts StraightPrograms
    TranslatorFacts FileFacts BranchingConsole BranchingLoops CommandLine
    LlvmPrograms BranchingCorrect StraightCorrect GreetingWalk
begin

text \<open>
  DOSRecomp: a verification library for the static recompiler of DOS programs under \<open>src/\<close>
  (\<open>src/src/\<close> and \<open>src/include/dosrecomp/\<close>).

  The program. \<open>loader/\<close> reads a COM or MZ file into a \<open>program_image\<close>. \<open>decoder/\<close> decodes one 8086
  instruction at an offset of the image; \<open>cfg/\<close> builds the graph of basic blocks from the entry by
  direct control flow; \<open>ir/control_flow_ir\<close> lowers the graph to dense ids; \<open>analysis/\<close> recovers loops
  and functions from it. \<open>semantics/\<close> translates one instruction into values of the SSA table of
  \<open>ir/register_ssa\<close>, and, where a concrete register file and memory are known, executes it on them;
  \<open>optimizer/\<close> analyses that table. \<open>compiler/exit_program_compiler\<close> and
  \<open>compiler/straight_line_compiler\<close> run a program at compile time up to its exit, collecting what it
  writes, reads, opens and closes, and \<open>backend/elf_writer\<close> prints an x86-64 executable that makes the
  same system calls. \<open>compiler/branching_compiler\<close> prints a C++ program with one function per block and
  has the host's compiler translate it; \<open>compiler/cpp_backend\<close> and the \<open>emit_llvm\<close> functions print text
  only. \<open>cli/main\<close> drives all of them: the branching compiler first, the straight-line one where that
  fails. \<open>runtime/\<close> holds the DOS and BIOS services that recompiled programs call, and \<open>plugins/\<close> the
  registry of extensions.

  The theories.
  \<^item> \<open>Prelude\<close>: integer types, little-endian words, results. A function of the source that returns
    \<open>std::expected\<close> returns \<open>(e, 'a) res\<close>: \<open>Inr\<close> the value, \<open>Inl (Fail e)\<close> the error with its message as
    a constructor, and \<open>Inl Undefined\<close> where the C++ code has undefined behaviour (a read or write
    outside a vector or array). That \<open>Undefined\<close> is not reached is a theorem, never an assumption.
  \<^item> \<open>InstructionDecoder\<close>: \<open>instruction_decoder::decode_at\<close>, one definition per group of opcodes in the
    order of the code. \<open>DecoderFacts\<close>, \<open>DecoderOperands\<close> and \<open>DecoderSafety\<close> prove sizes, the shape of the
    operands, and the one place where the decoder reads outside the image.
  \<^item> \<open>EffectiveAddress\<close>: \<open>effective_address_resolver\<close>, against the addressing modes of the 8086.
  \<^item> \<open>CfgBuilder\<close>: \<open>cfg_builder::build\<close> with its termination (block starts only grow and stay below the
    code size). \<open>CfgFacts\<close> shows what its blocks are and that they cover what the code follows.
    \<open>DirectFlow\<close> states this with direct control flow, defined apart from the code: the code takes an indirect CALL or JMP
    for one to the next instruction, so that the two agree on programs that reach none (\<open>direct_only\<close>).
  \<^item> \<open>ControlFlowIr\<close>: \<open>control_flow_lowerer\<close>, which cannot fail on built graphs and keeps all of them but the ends of the blocks.
    \<open>Recovery\<close>: \<open>loop_recovery\<close> and \<open>function_recovery\<close>.
  \<^item> \<open>RegisterSsa\<close>: the SSA builder, \<open>resolve_constant\<close> and \<open>resolve_compare_flags\<close>; the two resolvers recurse
    through the table and are \<open>partial_function (option)\<close>, so \<open>None\<close> is non-termination. \<open>Conditions\<close>:
    \<open>evaluate_condition\<close>. \<open>Optimizer\<close>: constant propagation and liveness, each with the specification
    it is the only solution of.
  \<^item> \<open>BinaryLoader\<close>: \<open>binary_loader\<close>, parsing and relocation.
  \<^item> \<open>RealModeMemory\<close>: the memory of \<open>runtime/real_mode_memory\<close>. \<open>InstructionTranslator\<close>:
    \<open>instruction_translator::translate\<close> over the machine of SSA table, register state, optional concrete
    registers and optional memory. \<open>TranslatorFacts\<close>: its invariants, and the architecture's register
    file to which the translator's is compared.
  \<^item> \<open>ElfWriter\<close>: the emitters of \<open>elf_writer\<close> as patches of a zeroed vector, and the closed form of the
    image. \<open>ElfRun\<close>: the semantics of the x86-64 instructions that occur in the images, a processor that
    runs an image from its entry, and the proof that an image runs its actions.
    \<open>DescriptorThreading\<close> compares them with what the header says of descriptors that an open returns.
  \<^item> \<open>ExitCompiler\<close>, \<open>ExitFacts\<close>: \<open>exit_program_compiler\<close>. \<open>StraightLine\<close>: \<open>straight_line_compiler\<close>, with the
    loops of \<open>translate_block\<close> as \<open>partial_function (option)\<close>; \<open>StraightFacts\<close> proves that it returns under a
    condition on the jumps of the program, \<open>StraightPrograms\<close> follows it on concrete programs.
  \<^item> \<open>BranchingCompiler\<close>: \<open>branching_compiler\<close>. The printed C++ text is a syntax tree, one constructor of
    \<open>c_stmt\<close> for each form of line; block starts, blocks, dispatch and \<open>main\<close> are built as the code
    prints them. \<open>BranchingRun\<close>: what such a program does, with the run-time functions it contains
    (comparison flags, string operations, INT 21h, 10h and 16h) translated from the text that is printed
    for them, over a host given as the record \<open>c_host\<close>; accesses outside its arrays are \<open>cr_undefined\<close>.
    \<open>BranchingFacts\<close>: conditions, register instructions and addresses against the 8086.
    \<open>BranchingPrograms\<close>: labels, loading, the segment that is never set, unsupported instructions.
    \<open>BranchingConsole\<close> and \<open>BranchingLoops\<close> follow two families of programs from image to exit.
  \<^item> \<open>Dos8086\<close>: the reference for the three compilers, an 8086 in one segment that fetches from memory and
    has near calls and the DOS services 02h, 09h and 4Ch. It is not translated from the source: it is the
    architecture that the source implements. Two of its fields record what set the flags and how a register
    was written last; the machine never reads them, and the conditions on runs are stated with them. Its
    locale \<open>compiled86\<close> is a step-by-step match of a translation with the machine. \<open>BranchingCorrect\<close>
    interprets it with printed programs, which keep return addresses in an array of their own, so that
    \<open>CallStack\<close> hides the machine's stack; \<open>StraightCorrect\<close> interprets it with the walk of the straight-line
    compiler. \<open>ExitCorrect\<close> lets the machine run along the instructions that the exit compiler recognises.
    Every run whose states satisfy \<open>branching_fits\<close>, \<open>straight_fits\<close> or \<open>exit_fits\<close> is reproduced. Those
    conditions name where the compilers differ from the architecture or the documents: signed conditions after
    overflow, NOP and arithmetic between registers in printed programs, all arithmetic, byte comparisons and
    AH=02h (which goes to descriptor 2) in the straight-line compiler, text after the last DOS call, stale
    halves of registers, the exit code after the last RET. \<open>Greeting\<close> and \<open>GreetingWalk\<close> evaluate a
    program for each.
  \<^item> \<open>CppBackend\<close>: \<open>cpp_backend::emit\<close> as the lines it prints and the names they use. \<open>LlvmText\<close>: the
    \<open>emit_llvm\<close> functions as the lines they print and the code they return; \<open>LlvmPrograms\<close> compares that
    code with the straight-line compiler's.
  \<^item> \<open>CommandLine\<close>: \<open>main\<close> as a function from arguments and a host to exit code and effects, the
    temporary files of the branching compiler included.
  \<^item> \<open>ConventionalMemory\<close>: the allocator and its INT 21h dispatcher, through the locale of memory pools.
    \<open>DosServices\<close>: INT 21h console, clock and directory services. \<open>BiosServices\<close>: INT 10h, 13h, 16h, 1Ah
    and the speaker. \<open>KeyedStores\<close>: Mode 13h pixels, environment variables and plugins, through one
    locale of keyed stores.
  \<^item> \<open>VirtualDrive\<close>: \<open>virtual_drive::resolve\<close> over lexical paths, with the host's canonicalisation as a
    parameter. \<open>FileSystem\<close>: \<open>virtual_file_system\<close> and the INT 21h file dispatcher over a record of stream
    operations. \<open>FileFacts\<close>: the confinement of guests, through the locale of confined streams, and the
    handle table; its interpretation is \<open>std::fstream\<close> on a map of regular files.

  Bounds. Offsets and sizes (\<open>std::size_t\<close>) are \<open>nat\<close>: they are bounded by the length of a vector, so
  that they cannot wrap; differences the code takes are guarded as in the code. Registers, immediates,
  flags and segments are words of their width. The emitted displacements are 32-bit, so \<open>ElfRun\<close> needs
  images below 2 GiB. The processor of \<open>x86_run\<close> takes a number of steps, and the theorems give the
  exact number after which the program has exited. Calls between the functions of a printed C++ program
  are run with fuel, which also bounds its input loops: the theorems on runs hold for every fuel from an
  explicit bound on (2 for programs without a loop, 2^16 + 2 for a loop that counts a 16-bit register).
\<close>

text \<open>
  Not modelled, and why. The host's C++ compiler and the operating system are not part of the program:
  what they give is a parameter (\<open>build_host\<close> of \<open>branching_compile\<close>, \<open>os\<close> of \<open>x86_run\<close>, \<open>c_host\<close> of
  \<open>run_c_program\<close>, the host files and directories of the services). Texts are modelled up to their
  spelling: error messages are constructors, printed programs are lists of lines. The fixed preamble of
  the printed C++ programs (includes, forward declarations) appears only as what it declares.
\<close>

section \<open>Properties\<close>

text \<open>A host that records what is written and has nothing else.\<close>

definition recording_host :: "(int \<times> byte list) list c_host" where
  "recording_host = \<lparr>ch_read = (\<lambda>fd n h. (Some [], h)), ch_write = (\<lambda>fd data h. h @ [(fd, data)]),
     ch_open = (\<lambda>name flags h. (- 1, h)), ch_close = (\<lambda>fd h. h),
     ch_time = (\<lambda>h. \<lparr>tm_year = 126, tm_mon = 0, tm_mday = 1, tm_hour = 0, tm_min = 0, tm_sec = 0\<rparr>),
     ch_chdir = (\<lambda>name h. (False, h)), ch_getcwd = (\<lambda>h. None)\<rparr>"



text \<open>
  C2: The straight-line compiler is correct on every run of moves, word comparisons, jumps and the DOS calls 09h
  and 4Ch. Let it compile a COM image below FF00h bytes, to below 2 GiB, that the 8086 runs to its exit within
  \<open>n\<close> instructions, all satisfying \<open>straight_fits\<close>: each is as in the image and is a MOV, a CMP of words, a
  jump in the segment, a conditional one on flags from no CMP or a word CMP, or INT 21h with AH=09h or 4Ch; so
  no arithmetic, NOP, call, byte CMP or AH=02h (which writes to descriptor 2). Registers compared or holding a
  text's address were last written as words, those copied are words last loaded from a constant or memory, a
  half is written only if its word was not, addresses stay in the segment. Then the executable makes exactly
  the writes of the 8086 on descriptor 1, in order, and exits with its code, in three x86-64 instructions for
  the exit and six for each write.
\<close>

theorem straight_line_correct:
  assumes "straight_line_compile host (com_image code) = Some (Inr elf)" and "length elf < 2 ^ 31"
    and "length code < 0xff00" and "run86 (length code) n (start86 code) = Some (e, out)"
    and "always86 (straight_fits code) (length code) n (start86 code)"
  shows "x86_run os elf (6 * length out + 3) start_state = Some (map (ev_write 1) out @ [ev_exit (ucast e)])"
  by (rule straight_compiled [OF assms])

theorem straight_line_correct_witness:
  "\<exists>elf. straight_line_compile (\<lambda>_. None) (com_image greeting_program) = Some (Inr elf) \<and>
    x86_run (\<lambda>_. 0) elf 9 start_state = Some [ev_write 1 [0x48, 0x69], ev_exit (ucast (7 :: byte))]"
proof -
  have "length (action_image [act_write (console_write [0x48, 0x69])] 7) < 2 ^ 31"
    by (simp add: action_image_def console_write_def Let_def layout_defs action_code_size_def)
  from straight_line_correct [OF greeting_compiled this, of 9 7 "[[0x48, 0x69]]" "\<lambda>_. 0"] show ?thesis
    using greeting_run greeting_straight_fits greeting_compiled by (simp add: greeting_length)
qed



text \<open>
  C4: A console program compiles to an executable that behaves like it. For every COM program
  MOV DX, 10Ch; MOV AH, 9; INT 21h; MOV AX, 4Cxxh; INT 21h followed by a non-empty string, its '$' and
  any further bytes, \<open>exit_program_compiler::compile\<close> returns an ELF image, and running that image
  writes exactly the string to file descriptor 1 and exits with the program's exit code.
\<close>

theorem console_program_end_to_end:
  assumes "0x24 \<notin> set message" and "message \<noteq> []" and "length message < 2 ^ 30"
  shows "\<exists>elf. exit_compile (com_image (console_program message e rest)) = Inr elf \<and>
    x86_run os elf 9 start_state = Some [ev_write 1 message, ev_exit (ucast e)]"
proof -
  let ?call = "\<lparr>wc_payload = message, wc_file_descriptor = 1\<rparr>" and ?acts = "[act_write \<lparr>wc_payload = message, wc_file_descriptor = 1\<rparr>]"
  have "emit_write_exit_executable message e = Inr (action_image ?acts e)"
    using assms(2) emit_syscall_program_actions [of "[?call]" "[]" e] emit_action_program_image
    by (simp add: emit_write_exit_executable_def emit_multi_write_exit_executable_def)
  moreover have "length (action_image ?acts e) < 2 ^ 31"
    using assms(3) by (simp add: action_image_def Let_def layout_defs action_code_size_def)
  from run_program [OF this, of os] have
    "x86_run os (action_image ?acts e) 9 start_state = Some [ev_write 1 message, ev_exit (ucast e)]"
    by (simp add: event_of_def)
  ultimately show ?thesis
    by (simp add: exit_compile_def compile_console [OF assms(1)] emitted_def)
qed

theorem console_program_end_to_end_witness:
  "\<exists>elf. exit_compile (com_image (console_program [0x68, 0x69] 7 [])) = Inr elf \<and>
    x86_run (\<lambda>_. 0) elf 9 start_state = Some [ev_write 1 [0x68, 0x69], ev_exit (ucast (7 :: byte))]"
  by (rule console_program_end_to_end) simp_all

text \<open>
  C5: An emitted executable makes the system calls of the actions it was emitted from, each with the
  descriptor that the action gives. For every list of write, read, open and close calls whose image is
  below 2 GiB, \<open>emit_action_program_executable\<close> stays inside its vector, and the image makes these calls in
  order, with the given payloads, names, flags and descriptors, and exits with the given code. That is not
  all the header promises: it says that the descriptor that an open returns is threaded into the next write
  or close, which the code does not do. The run is the one that the header describes if and only if every
  such write or close was given the very descriptor that the open returns.
\<close>

theorem action_program_runs:
  assumes "length (action_image actions e) < 2 ^ 31"
  shows "\<exists>elf. emit_action_program_executable actions e = Inr elf \<and>
    x86_run os elf (6 * length actions + 3) start_state =
      Some (action_events (program_payload_start actions) actions @ [ev_exit (ucast e)]) \<and>
    (x86_run os elf (6 * length actions + 3) start_state =
      Some (threaded_events os [] None (program_payload_start actions) actions @ [ev_exit (ucast e)]) \<longleftrightarrow>
     descriptors_agree os [] None (program_payload_start actions) actions)"
  using emit_action_program_image run_program [OF assms] threaded_events_iff
  by (metis append_same_eq option.inject)

definition open_close :: "syscall_action list" where
  "open_close = [act_open \<lparr>oc_filename = [0x61], oc_flags = 0x41, oc_mode = 0x1ff\<rparr>, act_close 3]"

text \<open>The host returns 4 for the open; the executable closes 3.\<close>

theorem action_program_runs_witness:
  "\<exists>elf. emit_action_program_executable open_close 9 = Inr elf \<and>
    x86_run (\<lambda>_. 4) elf 15 start_state = Some [ev_open [0x61] 0x41 0x1ff, ev_close 3, ev_exit (ucast (9 :: byte))] \<and>
    x86_run (\<lambda>_. 4) elf 15 start_state \<noteq>
      Some (threaded_events (\<lambda>_. 4) [] None (program_payload_start open_close) open_close @ [ev_exit (ucast (9 :: byte))])"
proof -
  have size: "length (action_image open_close 9) < 2 ^ 31"
    by (simp add: open_close_def action_image_def Let_def layout_defs action_code_size_def)
  have "action_events p open_close = [ev_open [0x61] 0x41 0x1ff, ev_close 3]"
    and "\<not> descriptors_agree (\<lambda>_. 4) [] None p open_close" for p
    by (simp_all add: open_close_def event_of_def now_opened_def given_descriptor_def)
  with action_program_runs [OF size, of "\<lambda>_. 4"] show ?thesis by (auto simp: open_close_def)
qed

text \<open>
  C6: The graph of \<open>cfg_builder::build\<close> is sound on programs of direct control flow. Where no indirect CALL
  or JMP is reached (the builder's header excludes them), block starts are ascending, distinct, inside the
  code, contain the entry and are reached from it; every block is a run of decoded instructions that meets
  no other start and ends at a transfer, a start or the end of the code; and its successors are start blocks
  of the same graph and exactly where its last instruction goes on inside the code: its target, computed from
  offset, size and displacement, for a jump; target and next instruction for a conditional jump, LOOP or CALL;
  nowhere for a return or an interrupt.
\<close>

theorem build_graph_good:
  assumes "build code entry = Inr graph" and "direct_only code entry"
  shows "direct_graph code entry graph"
  by (rule good_graph_direct [OF build_good [OF assms(1)] assms(2)])

theorem build_graph_good_witness: "direct_graph one_call 0 one_call_graph"
  by (rule build_graph_good [OF one_call_built one_call_direct])

text \<open>
  C7: The graph is complete and holds nothing else: on a program that reaches no indirect CALL or JMP, the
  instruction positions inside its blocks are exactly those that direct control flow reaches from the entry:
  over targets of jumps, LOOPs and calls, and from instruction to instruction. A jump does not go on behind
  itself, and a path ends at a return and, as in the code, at an interrupt.
\<close>

theorem blocks_cover_reachable:
  assumes "build code entry = Inr graph" and "direct_only code entry"
  shows "covered code graph position \<longleftrightarrow> direct_reach code entry position"
  using covered_iff_ireach [OF build_good [OF assms(1)]] direct_reach_ireach ireach_direct_reach [OF assms(2)]
  by blast

theorem blocks_cover_reachable_witness: "direct_reach one_call 0 4"
proof -
  have "covered one_call one_call_graph 4"
    by (rule start_covered) (simp add: one_call_graph_def block_starts_def)
  with blocks_cover_reachable [OF one_call_built one_call_direct] show ?thesis by blast
qed

text \<open>
  C8: Lowering cannot fail on a graph the builder made: ids are dense, successors are ids of blocks and at most
  two, the terminator says how many there are, and block by block the start, the condition and, through the
  ids, the successors in their order are those of the graph. The ends of the blocks are not part of the IR.
\<close>

theorem built_graph_lowers:
  assumes "build code entry = Inr graph"
  shows "\<exists>program. lower graph = Inr program \<and> wf_ir program \<and> ir_of_graph graph program"
  by (rule good_graph_lowers [OF build_good [OF assms]])

theorem built_graph_lowers_witness:
  "\<exists>program. lower [\<lparr>bb_start = 0, bb_end = 2, bb_successors = [0], bb_condition = c_always\<rparr>] = Inr program \<and>
     wf_ir program \<and>
     ir_of_graph [\<lparr>bb_start = 0, bb_end = 2, bb_successors = [0], bb_condition = c_always\<rparr>] program"
  by (rule built_graph_lowers [OF self_jump_graph])

text \<open>
  C9: Decoded operands are well typed. Whatever \<open>decode_at\<close> returns, a register operand names a register of
  the operand's width, a memory operand adds at most two registers, all of them BX, BP, SI or DI, and none
  when its address is direct, and the two operands of an instruction have one width.
\<close>

theorem decoded_operands_typed:
  assumes "decode_at code offset = Inr i"
  shows "operand_wf (fst (ins_operands i)) \<and> operand_wf (snd (ins_operands i)) \<and>
    (ins_operand_count i = 2 \<longrightarrow> op_width (fst (ins_operands i)) = op_width (snd (ins_operands i)))"
  using decode_at_operands [OF assms] by (simp add: operands_wf_def)

theorem decoded_operands_typed_witness:
  "\<exists>i. decode_at [0x8a, 0x42, 0x05] 0 = Inr i \<and> op_kind (snd (ins_operands i)) = o_memory \<and>
    operand_wf (snd (ins_operands i)) \<and> op_width (fst (ins_operands i)) = op_width (snd (ins_operands i))"
proof -
  have "case decode_at [0x8a, 0x42, 0x05] 0 of
      Inr i \<Rightarrow> op_kind (snd (ins_operands i)) = o_memory \<and> ins_operand_count i = 2 | _ \<Rightarrow> False"
    by code_simp
  then obtain i where "decode_at [0x8a, 0x42, 0x05] 0 = Inr i" "op_kind (snd (ins_operands i)) = o_memory"
    "ins_operand_count i = 2"
    by (auto split: sum.split_asm)
  with decoded_operands_typed [OF this(1)] show ?thesis by auto
qed

text \<open>
  C10: Decoded instructions lie in the code: a successful \<open>decode_at\<close> reports the offset it was given and a
  size between 1 and the 15 bytes of the longest 8086 instruction, and the instruction ends inside
  the image.
\<close>

theorem decoded_instruction_fits:
  assumes "decode_at code offset = Inr i"
  shows "ins_offset i = offset \<and> 1 \<le> ins_size i \<and> ins_size i \<le> 15 \<and> offset + ins_size i \<le> length code"
  using decode_at_fits [OF assms] by (simp add: fits_def)

theorem decoded_instruction_fits_witness:
  "ins_offset (basic k_nop 1 1 0 0) = 1 \<and> 1 \<le> ins_size (basic k_nop 1 1 0 0) \<and>
     ins_size (basic k_nop 1 1 0 0) \<le> 15 \<and> 1 + ins_size (basic k_nop 1 1 0 0) \<le> length [0xc3, 0x90 :: byte]"
  by (rule decoded_instruction_fits [of "[0xc3, 0x90]" 1]) (simp add: decode_nop)

text \<open>
  C11: The decoder reads outside the image in one case only: an indirect near CALL or JMP through memory
  (FF /2, FF /4) with a displacement, as the last instruction of the image, whose displacement is
  read one byte too far.
\<close>

theorem decoder_overrun_only_ff:
  "decode_at code offset = Inl Undefined \<Longrightarrow> \<exists>p \<ge> offset. ff_overrun code p"
  by (rule decode_at_undefined)

theorem decoder_overrun_only_ff_witness: "\<exists>p \<ge> 0. ff_overrun [0xff, 0x56, 0x10] p"
proof (rule decoder_overrun_only_ff)
  let ?code = "[0xff, 0x56, 0x10] :: byte list"
  have groups: "decode_fixed ?code 0 0xff = None" "decode_string ?code 0 0xff = None"
    "decode_io ?code 0 0xff = None" "decode_immediate_move ?code 0 0xff = None"
    "decode_accumulator ?code 0 0xff = None" "decode_stack ?code 0 0xff = None"
    "decode_inc_dec ?code 0 0xff = None" "decode_modrm_arithmetic ?code 0 0xff = None"
    "decode_move_modrm ?code 0 0xff = None" "decode_group_immediate ?code 0 0xff = None"
    by (simp_all add: decode_fixed_def decode_string_def is_string_opcode_def decode_io_def
        decode_immediate_move_def decode_accumulator_def accumulator_opcodes_def decode_stack_def
        decode_inc_dec_def decode_modrm_arithmetic_def is_modrm_arithmetic_def decode_move_modrm_def
        decode_group_immediate_def group_immediate_opcodes_def)
  have "drop_bit 6 (0x56 :: byte) = 1" "(0x56 :: byte) AND 7 = 6" "modrm_extension (0x56 :: byte) = 2"
    by (simp_all add: modrm_extension_def)
  then have "decode_ff ?code 0 0xff = Some (Inl Undefined)"
    by (simp add: decode_ff_def modrm_size_def byte_at_def rm_operand_def Let_def
        modrm_displacement_size_def at_def)
  then show "decode_at ?code 0 = Inl Undefined"
    by (simp add: decode_at_plain is_prefix_def decode_opcode_def opcode_groups_def groups)
qed

text \<open>
  C12: A COM or MZ file of any content loads without a read outside the file, and an image that loads is well
  formed: it is not empty, every relocation entry addresses a word inside it, a COM image has at most
  65535 bytes and no relocations, an MZ entry offset is inside the load module.
\<close>

theorem loader_safe_and_wf:
  "load_bytes input \<noteq> Inl Undefined \<and> (\<forall>img. load_bytes input = Inr img \<longrightarrow> image_wf img)"
  using parse_mz_safe [of input] parse_mz_wf [of input]
  by (auto simp: load_bytes_def com_image_def image_wf_def)

theorem loader_safe_and_wf_witness:
  "image_wf (com_image [0xb8, 0, 0x4c, 0xcd, 0x21])"
  using loader_safe_and_wf [of "[0xb8, 0, 0x4c, 0xcd, 0x21]"] by (simp add: load_bytes_def)

text \<open>
  C13: Relocation adds the load segment to exactly the words of the relocation table. On a loaded MZ image
  whose table names distinct, non-overlapping words, \<open>apply_relocations\<close> succeeds, every named word is
  increased by the segment modulo 65536, every byte outside the named words is unchanged, and nothing
  but the bytes of the image changes.
\<close>

theorem relocation_exact:
  assumes "image_wf img" and "img_format img = mz"
    and "distinct (map linear_offset (img_relocations img))"
    and "\<forall>p \<in> set (map linear_offset (img_relocations img)).
      \<forall>q \<in> set (map linear_offset (img_relocations img)). apart p q"
  shows "\<exists>bytes. apply_relocations img s = Inr (img\<lparr>img_bytes := bytes\<rparr>) \<and>
    length bytes = length (img_bytes img) \<and>
    (\<forall>p \<in> set (map linear_offset (img_relocations img)).
       le16 (bytes ! p) (bytes ! Suc p) = le16 (img_bytes img ! p) (img_bytes img ! Suc p) + s) \<and>
    (\<forall>q. (\<forall>p \<in> set (map linear_offset (img_relocations img)). q \<noteq> p \<and> q \<noteq> Suc p) \<longrightarrow>
       bytes ! q = img_bytes img ! q)"
proof -
  have "\<forall>p \<in> set (map linear_offset (img_relocations img)). Suc p < length (img_bytes img)"
    using assms(1) by (simp add: image_wf_def)
  with assms relocated_all_word [OF assms(3)] show ?thesis
    by (intro exI [of _ "relocated_all s (img_bytes img) (map linear_offset (img_relocations img))"])
      (auto simp: apply_relocations_ok relocated_all_other simp del: set_map)
qed

definition mz_example :: program_image where
  "mz_example = \<lparr>img_format = mz, img_bytes = [0xb8, 0, 0, 0x8e, 0xd8, 1, 0],
     img_entry_point = \<lparr>sa_segment = 0, sa_offset = 0\<rparr>, img_initial_stack = \<lparr>sa_segment = 0, sa_offset = 0x100\<rparr>,
     img_header_paragraphs = 2,
     img_relocations = [\<lparr>sa_segment = 0, sa_offset = 1\<rparr>, \<lparr>sa_segment = 0, sa_offset = 5\<rparr>]\<rparr>"

theorem relocation_exact_witness:
  "\<exists>bytes. apply_relocations mz_example 0x10 = Inr (mz_example\<lparr>img_bytes := bytes\<rparr>) \<and>
    length bytes = length (img_bytes mz_example) \<and>
    (\<forall>p \<in> set (map linear_offset (img_relocations mz_example)).
       le16 (bytes ! p) (bytes ! Suc p) = le16 (img_bytes mz_example ! p) (img_bytes mz_example ! Suc p) + 0x10) \<and>
    (\<forall>q. (\<forall>p \<in> set (map linear_offset (img_relocations mz_example)). q \<noteq> p \<and> q \<noteq> Suc p) \<longrightarrow>
       bytes ! q = img_bytes mz_example ! q)"
  by (rule relocation_exact)
    (simp_all add: mz_example_def image_wf_def linear_offset_def apart_def)

text \<open>
  C14: The allocator keeps its invariant through any run of INT 21h memory requests: blocks tile the pool,
  no two neighbours are free, and the extents handed out never overlap.
\<close>

theorem memory_service_invariant:
  fixes paragraphs :: u16
  shows "pool_wf (serve int21_memory_dispatch (conventional_memory_init paragraphs) requests) \<and>
    separate (live_extents (serve int21_memory_dispatch (conventional_memory_init paragraphs) requests))"
proof -
  have "pool_wf (conventional_memory_init paragraphs)"
    using unsigned_less [of paragraphs, where ?'a = nat]
    by (auto simp: conventional_memory_init_def pool_wf_def)
  then show ?thesis
    unfolding int21_memory_dispatch_def
    using pool.serve_inv pool.serve_separate by blast
qed

text \<open>
  C15: Allocation is exact: a request fails precisely when it asks for nothing or for more than the largest
  free block, and otherwise hands out an extent that was not in use, keeping all others.
\<close>

theorem allocation_exact:
  assumes "pool_wf blocks"
  shows "(case allocate blocks n of
      Inl e \<Rightarrow> n = 0 \<or> largest_free_block blocks < n
    | Inr (s, blocks') \<Rightarrow> n \<noteq> 0 \<and> n \<le> largest_free_block blocks \<and> pool_wf blocks' \<and>
        live_extents blocks s = None \<and> live_extents blocks' = (live_extents blocks)(s \<mapsto> n))"
proof (cases "allocate blocks n")
  case (Inl e)
  then show ?thesis
    by (auto simp: allocate_def largest_free_block_def allocate_in_None largest_from_less word_neq_0_conv
        split: if_split_asm option.split_asm)
next
  case (Inr r)
  obtain s blocks' where r: "r = (s, blocks')" by fastforce
  have "n \<noteq> 0" "allocate_in blocks n \<noteq> None"
    using Inr by (auto simp: allocate_def split: if_split_asm option.split_asm)
  moreover from this have "\<not> largest_free_block blocks < n"
    by (simp add: largest_free_block_def allocate_in_None largest_from_less)
  ultimately show ?thesis
    using allocate_wf [OF Inr [unfolded r] assms] Inr r by (simp add: not_less)
qed

theorem allocation_exact_witness:
  "(case allocate (conventional_memory_init 16) 4 of
      Inl e \<Rightarrow> (4 :: u16) = 0 \<or> largest_free_block (conventional_memory_init 16) < 4
    | Inr (s, blocks') \<Rightarrow> (4 :: u16) \<noteq> 0 \<and> 4 \<le> largest_free_block (conventional_memory_init 16) \<and> pool_wf blocks' \<and>
        live_extents (conventional_memory_init 16) s = None \<and>
        live_extents blocks' = (live_extents (conventional_memory_init 16))(s \<mapsto> 4))"
  by (rule allocation_exact) (simp add: conventional_memory_init_def pool_wf_def)

text \<open>
  C16: Releasing what was just allocated gives back the pool, block for block: the split is undone by
  coalescing.
\<close>

theorem release_undoes_allocate:
  assumes "pool_wf blocks" and "allocate blocks n = Inr (s, blocks')"
  shows "release blocks' s = Inr blocks"
proof -
  have a: "allocate_in blocks n = Some (s, blocks')"
    using assms(2) by (auto simp: allocate_def split: if_split_asm option.split_asm)
  have wf: "pool_wf blocks'" and "live_extents blocks' s = Some n"
    using allocate_wf [OF assms(2,1)] by auto
  then have "release blocks' s = Inr (coalesce (mark_free s blocks'))"
    using release_Inr [of 0 blocks' s] by (simp add: pool_wf_def)
  with release_allocate_in [OF a] assms(1) show ?thesis by (auto simp: pool_wf_def)
qed

theorem release_undoes_allocate_witness:
  "release [\<lparr>blk_start = 0, blk_size = 4, blk_free = False\<rparr>, \<lparr>blk_start = 4, blk_size = 12, blk_free = True\<rparr>] 0 =
     Inr (conventional_memory_init 16)"
  by (rule release_undoes_allocate [where n = 4])
    (simp_all add: conventional_memory_init_def pool_wf_def allocate_def)

text \<open>
  C17: Every translated instruction keeps the SSA table well formed: ids stay dense, inputs refer to earlier
  values, operations have their operator and two operands, every register names a value, the table
  only grows at its end, and the reported effect names a value of the table.
\<close>

theorem translation_keeps_ssa:
  assumes "machine_wf m" and "translate code i m segment = Inr (effect, m')"
  shows "machine_wf m' \<and> extends (mc_table m) (mc_table m') \<and> ef_ssa_value effect < length (mc_table m')"
  using translate_translated [OF assms(2,1)] by (simp add: translated_def)

definition start_machine :: machine where
  "start_machine = \<lparr>mc_table = builder_init, mc_state = entry_state, mc_registers = Some (\<lambda>_. 0),
     mc_memory = Some real_mode_memory_init\<rparr>"

lemma start_machine_wf: "machine_wf start_machine"
  using builder_init_wf
  by (auto simp: machine_wf_def start_machine_def operations_wf_def builder_init_def entry_value_def)

theorem translation_keeps_ssa_witness:
  "machine_wf (snd (case translate [0xb8, 1, 0] (mov_ax_instruction 0 1) start_machine 0 of Inr r \<Rightarrow> r))"
proof -
  obtain e m where "translate [0xb8, 1, 0] (mov_ax_instruction 0 1) start_machine 0 = Inr (e, m)"
    by (simp add: translate_def is_register_arithmetic_def is_stack_register_def translate_move_def
        mov_ax_instruction_def immediate_operand_def default_operand_def define_effect_def with_operands_def
        basic_def define_constant_def push_value_def set_register_def start_machine_def)
  with translation_keeps_ssa [OF start_machine_wf this] show ?thesis by simp
qed

text \<open>
  C18: Translating a decoded instruction is memory safe except for MOV to memory: on a well-formed machine
  no other instruction that \<open>decode_at\<close> produced makes the translator index outside the SSA table, the
  register array, the source bytes or an operand's address registers.
\<close>

theorem translation_memory_safe:
  assumes "decode_at code offset = Inr i" and "machine_wf m" and "\<not> is_memory_store i"
  shows "translate source i m segment \<noteq> Inl Undefined"
  by (rule translate_safe [OF assms(2) decode_at_operands [OF assms(1)] assms(3)])

theorem translation_memory_safe_witness:
  "translate [0x90] (basic k_nop 0 1 0 0) start_machine 0 \<noteq> Inl Undefined"
  by (rule translation_memory_safe [OF _ start_machine_wf, of "[0x90]" 0])
    (simp_all add: decode_nop is_memory_store_def basic_def)

text \<open>
  C19: Handles are handed out as DOS does. Opening a file for reading fails without changing the table, or
  returns the lowest unused handle from 5 on and enters the file there and nothing else; the error for a full
  table occurs only when all handles from 5 to FFFFh are in use; and every entry of the table stays open for
  exactly one of reading and writing.
\<close>

theorem open_returns_lowest_handle:
  assumes "handles_wf (vfs_files v)" and "open_read canonical api dos_path v = (r, v')"
  shows "handles_wf (vfs_files v') \<and> (case r of
      Inr handle \<Rightarrow> 5 \<le> handle \<and> vfs_files v handle = None \<and>
        (\<forall>k. 5 \<le> k \<and> k < handle \<longrightarrow> vfs_files v k \<noteq> None) \<and>
        (\<exists>stream. vfs_files v' = (vfs_files v)(handle \<mapsto>
           \<lparr>fh_stream = stream, fh_readable = True, fh_writable = False\<rparr>))
    | Inl e \<Rightarrow> vfs_files v' = vfs_files v \<and>
        (e = Fail HandlesExhausted \<longrightarrow> (\<forall>k. 5 \<le> k \<longrightarrow> vfs_files v k \<noteq> None)))"
proof -
  have wf: "handles_wf (vfs_files v')"
    using open_handles_wf(1) [OF assms(1), of canonical api dos_path] assms(2) by simp
  show ?thesis
  proof (cases "resolve canonical (vfs_drive v) dos_path")
    case (Inl e)
    with assms(2) wf path_error_not_exhausted [of "Inl e :: (path_error, host_path) res"] show ?thesis
      by (auto simp: open_read_def)
  next
    case (Inr path)
    obtain s h where opened: "api_open_in api path (vfs_host v) = (s, h)" by fastforce
    show ?thesis
    proof (cases s)
      case None
      with assms(2) wf opened Inr show ?thesis by (auto simp: open_read_def)
    next
      case (Some stream)
      with assms(2) opened Inr have r: "(r, v') = add_handle api stream True False (v\<lparr>vfs_host := h\<rparr>)"
        by (simp add: open_read_def)
      show ?thesis
      proof (cases "lowest_free (vfs_files v) 5")
        case None
        with r wf lowest_free_None [OF None] show ?thesis by (simp add: add_handle_def)
      next
        case (Some handle)
        with r wf lowest_free_Some [OF Some] show ?thesis by (auto simp: add_handle_def)
      qed
    qed
  qed
qed

theorem open_returns_lowest_handle_witness:
  "\<exists>stream. vfs_files (snd (open_read drop_dots (plain_api (\<lambda>_. True) (\<lambda>_. True) (\<lambda>_. False)) example_path
      (virtual_file_system_init example_drive
        [\<lparr>hp_absolute = True, hp_names = [''d'', ''A'']\<rparr> \<mapsto> [1]]))) =
    [5 \<mapsto> \<lparr>fh_stream = stream, fh_readable = True, fh_writable = False\<rparr>]"
proof -
  let ?v = "virtual_file_system_init example_drive [\<lparr>hp_absolute = True, hp_names = [''d'', ''A'']\<rparr> \<mapsto> [1]]"
  let ?run = "open_read drop_dots (plain_api (\<lambda>_. True) (\<lambda>_. True) (\<lambda>_. False)) example_path ?v"
  have wf: "handles_wf (vfs_files ?v)" by (simp add: virtual_file_system_init_def handles_wf_def)
  have empty: "vfs_files ?v = Map.empty" by (simp add: virtual_file_system_init_def)
  obtain h v' where run: "?run = (Inr h, v')"
    using example_resolve(1) by (cases ?run) (auto simp: file_service_defs plain_defs virtual_file_system_init_def)
  from open_returns_lowest_handle [OF wf run, unfolded empty]
  have "5 \<le> h" "\<forall>k. 5 \<le> k \<longrightarrow> \<not> k < h"
    and "\<exists>stream. vfs_files v' = [h \<mapsto> \<lparr>fh_stream = stream, fh_readable = True, fh_writable = False\<rparr>]"
    by simp_all
  moreover from this have "h = 5" by force
  ultimately show ?thesis using run by simp
qed

text \<open>
  C20: PUSH then POP moves a register through the stack. With concrete registers and memory, neither
  instruction can fail, POP reports the value that PUSH stored, the popped word register holds it, and
  SP is back where it was, at any SP and segment (SP wraps modulo 65536).
\<close>

theorem push_pop_round_trip:
  assumes "mc_registers m = Some values" and "mc_memory m = Some memory"
    and "\<not> ins_stack_pop i" and "register_for (op_reg (fst (ins_operands i))) = Some r"
    and "ins_stack_pop j" and "register_for (op_reg (fst (ins_operands j))) = Some s"
    and "s \<noteq> V_sp" and "halves_of s = None"
  shows "\<exists>e1 m1 e2 m2 values'. translate_stack i m segment = Inr (e1, m1) \<and>
    translate_stack j m1 segment = Inr (e2, m2) \<and> ef_immediate e2 = Some (concrete_value r values) \<and>
    mc_memory m2 = mc_memory m1 \<and> mc_registers m2 = Some values' \<and>
    concrete_value s values' = concrete_value r values \<and>
    concrete_value V_sp values' = concrete_value V_sp values"
proof -
  let ?sp = "concrete_value V_sp values - 2"
  obtain memory' where w: "write16_at memory segment ?sp (concrete_value r values) = Inr memory'"
    using write16_at_ok [of memory segment ?sp] by (auto simp: is_ok_iff)
  obtain e1 m1 where push: "translate_stack i m segment = Inr (e1, m1)"
    and m1: "mc_registers m1 = Some (store_concrete V_sp ?sp values)" "mc_memory m1 = Some memory'"
    using assms w by (simp add: translate_stack_def with_concrete_def translate_push_def Let_def
        define_effect_def define_constant_def push_value_def set_register_def)
  have r: "read16_at memory' segment (concrete_value V_sp (store_concrete V_sp ?sp values)) =
      Inr (concrete_value r values)"
    using read16_at_write16_at [OF w] by simp
  have s: "s \<noteq> V_count" "name_of s \<noteq> None"
    using assms(6,8) register_for_not_count by (cases s; force)+
  obtain e2 m2 where pop: "translate_stack j m1 segment = Inr (e2, m2)"
    and m2: "mc_registers m2 = Some (store_concrete V_sp (?sp + 2)
        (store_concrete s (concrete_value r values) (store_concrete V_sp ?sp values)))"
      "mc_memory m2 = Some memory'" "ef_immediate e2 = Some (concrete_value r values)"
    using assms(5,6) m1 r s(1) by (simp add: translate_stack_def with_concrete_def translate_pop_def Let_def
        define_effect_def define_constant_def push_value_def set_register_def)
  have "concrete_value s (store_concrete V_sp x vals) = concrete_value s vals" for x vals
    using assms(7) by (cases s) (simp_all add: concrete_value_def store_concrete_def)
  then have "concrete_value s (store_concrete V_sp (?sp + 2)
      (store_concrete s (concrete_value r values) (store_concrete V_sp ?sp values))) = concrete_value r values"
    using s(2) assms(8) by (simp add: concrete_value_store)
  moreover have "concrete_value V_sp (store_concrete V_sp (?sp + 2) vals) = concrete_value V_sp values" for vals
    by (simp add: concrete_value_store)
  ultimately show ?thesis using push pop m1(2) m2 by (metis (no_types))
qed

definition push_or_pop :: "bool \<Rightarrow> register_name \<Rightarrow> instruction" where
  "push_or_pop pop reg =
     (with_operands (basic k_stack 0 1 0 0)
        (default_operand\<lparr>op_kind := o_reg, op_width := w_word, op_reg := reg\<rparr>) default_operand 1 a_none)
     \<lparr>ins_stack_pop := pop\<rparr>"

theorem push_pop_round_trip_witness:
  "\<exists>e1 m1 e2 m2 values'. translate_stack (push_or_pop False R_bx) start_machine 0 = Inr (e1, m1) \<and>
    translate_stack (push_or_pop True R_si) m1 0 = Inr (e2, m2) \<and>
    ef_immediate e2 = Some (concrete_value V_bx (\<lambda>_. 0)) \<and>
    mc_memory m2 = mc_memory m1 \<and> mc_registers m2 = Some values' \<and>
    concrete_value V_si values' = concrete_value V_bx (\<lambda>_. 0) \<and>
    concrete_value V_sp values' = concrete_value V_sp (\<lambda>_. 0)"
  by (rule push_pop_round_trip [where memory = real_mode_memory_init])
    (simp_all add: start_machine_def push_or_pop_def with_operands_def basic_def)

text \<open>
  C21: The translator's register file follows the 8086 except for one case. Byte writes and writes to SI,
  DI, BP and SP keep the flat file in step with the architecture, where AX is AH:AL; a write to AX, BX,
  CX or DX leaves the byte halves stale, so the two agree afterwards only if the value did not change.
\<close>

theorem register_file_follows_8086:
  assumes "agrees values f"
  shows "agrees (store_concrete r v values) (arch_write r v f) \<longleftrightarrow>
    (paired r \<longrightarrow> v = concrete_value r values)"
  using store_concrete_agrees [OF assms] store_concrete_paired [OF assms] by blast

theorem register_file_follows_8086_witness:
  "agrees (store_concrete V_ax 0x4c05 (\<lambda>_. 0)) (arch_write V_ax 0x4c05 (\<lambda>_. 0)) \<longleftrightarrow>
    (paired V_ax \<longrightarrow> 0x4c05 = concrete_value V_ax (\<lambda>_. 0))"
  by (rule register_file_follows_8086) (simp add: agrees_def all_names lo8_def hi8_def)

text \<open>
  C22: A conditional jump after CMP is decided correctly. Where a flags value is a comparison whose two
  operands resolve to constants, and the condition is one of the signed, unsigned, sign, overflow or equality
  tests, \<open>evaluate_condition\<close> says whether it holds for the two 16-bit numbers, wrap-around and overflow
  included. (Parity and the LOOP family are no such tests; the code does not take them.)
\<close>

theorem branch_condition_correct:
  assumes "n < length vs" and "sv_operation (vs ! n) = Some op_compare" and "sv_inputs (vs ! n) = [a, b]"
    and "resolve_constant vs a = Some (Inr (Some l))" and "resolve_constant vs b = Some (Inr (Some r))"
    and "compares c l r = Some holds"
  shows "evaluate_condition c vs n = Some (Inr holds)"
  using resolve_compare_flags_compare [OF assms(1-5)] condition_of_compare [of c l r] assms(6)
  by (auto simp: evaluate_condition_def)

definition compare_table :: ssa_table where
  "compare_table = [constant_value 0 V_ax 0x8000, constant_value 1 V_bx 1,
     \<lparr>sv_id = 2, sv_reg = V_flags, sv_kind = v_operation, sv_inputs = [0, 1], sv_constant = None,
      sv_operation = Some op_compare\<rparr>]"

theorem branch_condition_correct_witness: "evaluate_condition c_less compare_table 2 = Some (Inr True)"
proof -
  have less: "compares c_less 0x8000 1 = Some True" by (simp add: sint_uint)
  show ?thesis
    by (rule branch_condition_correct [OF _ _ _ _ _ less, where a = 0 and b = 1])
      (simp_all add: compare_table_def constant_value_def resolve_constant.simps)
qed

text \<open>
  C23: Constant propagation is exact and sound. On a table the builder made it returns the one solution of
  the data-flow equations, and every constant it reports is the value in every run of the table, whatever
  the entry registers hold and whichever input each phi takes.
\<close>

theorem constant_propagation_correct:
  assumes "ssa_wf vs" and "operations_wf vs"
  shows "\<exists>known. propagate_constants vs = Inr known \<and> exact_upto vs (length vs) known \<and>
    (\<forall>known'. exact_upto vs (length vs) known' \<longrightarrow> known' = known) \<and>
    (\<forall>val i c. consistent vs val \<and> i < length vs \<and> known ! i = Some c \<longrightarrow> val i = c)"
proof -
  obtain known where k: "propagate_constants vs = Inr known" "exact_upto vs (length vs) known"
    using propagate_constants_solves [OF assms] .
  with exact_unique [OF assms(1)] exact_sound [OF assms(1) k(2)] show ?thesis by blast
qed

theorem constant_propagation_correct_witness:
  "\<exists>known. propagate_constants builder_init = Inr known \<and> exact_upto builder_init (length builder_init) known \<and>
    (\<forall>known'. exact_upto builder_init (length builder_init) known' \<longrightarrow> known' = known) \<and>
    (\<forall>val i c. consistent builder_init val \<and> i < length builder_init \<and> known ! i = Some c \<longrightarrow> val i = c)"
  by (rule constant_propagation_correct)
    (use start_machine_wf in \<open>simp_all add: machine_wf_def start_machine_def\<close>)

text \<open>
  C24: Dead value elimination is exact: on a well-formed table it succeeds, and a value is marked live if and
  only if some root depends on it through the inputs of values.
\<close>

theorem liveness_exact:
  assumes "ssa_wf vs" and "set roots \<subseteq> {..<length vs}"
  shows "\<exists>live. live_values vs roots = Inr live \<and> length live = length vs \<and>
    live_set live = needed_from vs (set roots)"
proof -
  have "settled vs (replicate (length vs) False) (rev roots)" "live_set (replicate (length vs) False) = {}"
    by (auto simp: settled_def live_set_def)
  with live_loop_exact [OF assms(1), of "replicate (length vs) False" "rev roots"] assms(2)
  show ?thesis by (simp add: live_values_def)
qed

theorem liveness_exact_witness:
  "\<exists>live. live_values compare_table [2] = Inr live \<and> length live = length compare_table \<and>
    live_set live = needed_from compare_table (set [2])"
  by (rule liveness_exact)
    (auto simp: compare_table_def ssa_wf_def constant_value_def less_Suc_eq nth_Cons')

text \<open>
  C25: The effective address resolver inverts the decoder: the operand that \<open>rm_operand\<close> builds from a ModR/M
  byte with a memory mode resolves to the offset the 8086 addressing mode stands for, modulo 65536.
\<close>

theorem modrm_address_correct:
  assumes "rm_operand code offset width modrm = Inr operand" and "drop_bit 6 modrm \<noteq> 3"
  shows "effective_address operand registers = Inr (mode_address code offset modrm registers)"
  by (rule rm_operand_address [OF assms])

theorem modrm_address_correct_witness:
  "effective_address (memory_operand w_word 0x40 2 (scast (0xff :: byte)) False) (\<lambda>_. 0x10) =
     Inr (mode_address [0x40, 0xff] 0 0x40 (\<lambda>_. 0x10))"
  by (rule modrm_address_correct [of _ _ w_word])
    (simp_all add: rm_operand_def Let_def byte_at_def)

text \<open>
  C26: Loop recovery finds exactly the back edges: on a built graph it succeeds, and a pair of header and
  latch is reported if and only if the latch block ends in a jump, conditional jump or LOOP with a
  successor at or before its own start.
\<close>

theorem loop_recovery_exact:
  assumes "build code entry = Inr graph"
  shows "\<exists>loops. recover_loops code graph = Inr loops \<and>
    (\<forall>l. l \<in> set loops \<longleftrightarrow>
       (\<exists>b \<in> set graph. back_edge code (block_starts graph) b (rl_header l) \<and> rl_latch l = bb_start b))"
  using build_good [OF assms] by (intro recover_loops_spec) (simp add: good_graph_def)

theorem loop_recovery_exact_witness:
  "\<exists>loops. recover_loops self_jump [\<lparr>bb_start = 0, bb_end = 2, bb_successors = [0], bb_condition = c_always\<rparr>] = Inr loops \<and>
    (\<forall>l. l \<in> set loops \<longleftrightarrow>
       (\<exists>b \<in> set [\<lparr>bb_start = 0, bb_end = 2, bb_successors = [0], bb_condition = c_always\<rparr>].
          back_edge self_jump (block_starts [\<lparr>bb_start = 0, bb_end = 2, bb_successors = [0], bb_condition = c_always\<rparr>])
            b (rl_header l) \<and> rl_latch l = bb_start b))"
  by (rule loop_recovery_exact [OF self_jump_graph])

text \<open>
  C27: Function recovery is exact. On the graph of a program that reaches no indirect CALL or JMP it succeeds
  and returns, in ascending order and without repetition, the entry and every target of a direct CALL that
  direct control flow reaches (a path ends at a return or an interrupt), each with exactly its call sites;
  jumps create no functions.
\<close>

theorem function_recovery_exact:
  assumes "build code entry = Inr graph" and "direct_only code entry"
  shows "\<exists>functions. recover_functions code graph entry = Inr functions \<and>
    sorted (map fst functions) \<and> distinct (map fst functions) \<and>
    fst ` set functions = insert entry {target. \<exists>site. direct_call code entry target site} \<and>
    (\<forall>target site. site_of functions target site \<longleftrightarrow> direct_call code entry target site)"
proof -
  have good: "good_graph code entry graph" by (rule build_good [OF assms(1)])
  have calls: "(\<exists>b \<in> set graph. \<exists>s. calls_at code (block_starts graph) b k s) \<longleftrightarrow>
      (\<exists>s. direct_call code entry k s)" for k
    using calls_at_direct [OF good assms(2), of k] by blast
  from recover_blocks_spec [of graph code "block_starts graph" "[(entry, [])]"] good
  show ?thesis
    by (auto simp: recover_functions_def good_graph_def site_of_def calls calls_at_direct [OF good assms(2)])
qed

theorem function_recovery_exact_witness:
  "recover_functions one_call one_call_graph 0 = Inr [(0, []), (4, [0])] \<and> direct_call one_call 0 4 0"
proof -
  have run: "recover_functions one_call one_call_graph 0 = Inr [(0, []), (4, [0])]" by code_simp
  moreover have "site_of [(0, []), (4, [0])] 4 0" by (auto simp: site_of_def)
  ultimately show ?thesis
    using function_recovery_exact [OF one_call_built one_call_direct] by auto
qed

text \<open>
  C28: The straight-line compiler returns on every image in which each jump that decodes at some position
  targets the start of a basic block: with a value or an error, whatever host files it reads.
\<close>

theorem straight_line_returns:
  assumes "\<And>graph. build (img_bytes img) (entry_offset img) = Inr graph \<Longrightarrow>
    jumps_to_blocks (img_bytes img) graph"
  shows "(\<exists>r. straight_line_exit_code host img = Some r) \<and> (\<exists>r. straight_line_compile host img = Some r)"
proof -
  obtain r where "straight_line_walk host img = Some r"
    using straight_line_walk_returns [OF assms] by blast
  then show ?thesis
    by (cases r) (auto simp: straight_line_exit_code_def straight_line_compile_def)
qed

theorem straight_line_returns_witness:
  "(\<exists>r. straight_line_exit_code (\<lambda>_. None) (com_image self_jump) = Some r) \<and>
   (\<exists>r. straight_line_compile (\<lambda>_. None) (com_image self_jump) = Some r)"
  by (rule straight_line_returns) (simp add: self_jump_graph self_jump_to_blocks)

text \<open>
  C29: The straight-line compiler does not return on MOV AH, 2; INT 21h; JMP $. The builder ends the block at
  the interrupt and gives it no successor, so the jump behind it has no block, and the walk follows it
  forever instead of reporting a loop.
\<close>

theorem straight_line_diverges:
  "straight_line_exit_code host (com_image spinning_program) = None \<and>
   straight_line_compile host (com_image spinning_program) = None"
  by (simp add: straight_line_exit_code_def straight_line_compile_def spinning_program_diverges)

text \<open>
  C30: Nothing after a counted loop runs in the branching compiler's program. MOV CX, n; L: DEC CX; JNZ L;
  MOV AX, 4Cxxh; INT 21h exits with xx on the 8086; the emitted program terminates for every n, but
  exits with xx only for n = 1, where the jump is not taken, and with 0 for every other n, because the
  function of the loop's block returns after its \<open>do\<close> loop without calling the following block.
\<close>

theorem branching_loop_loses_exit:
  assumes "2 ^ 16 + 2 \<le> n"
  shows "\<exists>prog s. emit_c_source (com_image (countdown_program lo hi v)) = Inr prog \<and>
    run_c_program host n prog h = cr_exit (if le16 lo hi = 1 then v else 0) s \<and> cs_host s = h"
  by (rule countdown_runs [OF assms])

theorem branching_loop_loses_exit_witness:
  "\<exists>prog s. emit_c_source (com_image (countdown_program 3 0 7)) = Inr prog \<and>
    run_c_program recording_host (2 ^ 16 + 2) prog [] = cr_exit 0 s \<and> cs_host s = []"
proof -
  have "le16 3 0 \<noteq> (1 :: u16)" by (simp add: le16_def)
  with branching_loop_loses_exit [of "2 ^ 16 + 2" 3 0 7 recording_host "[]"] show ?thesis
    by (simp del: run_block.simps)
qed

text \<open>
  C31: The conditions in the branching compiler's programs, exactly. After a comparison of two words each
  printed condition has the value it has on the 8086 if and only if \<open>condition_sound\<close> holds: always for the
  unsigned, equality and sign conditions; for JL and JGE when the operands differ and their difference
  does not overflow; for JLE and JG when it does not overflow; for JO and JNO when the sign of the
  difference happens to be the overflow.
\<close>

theorem branching_conditions_exact:
  assumes "compares c a b = Some t"
  shows "branch_taken (emit_conditional c) (update_flags_cmp a b False s) = t \<longleftrightarrow> condition_sound c a b"
  by (rule condition_after_compare [OF assms])

theorem branching_conditions_exact_witness:
  "\<not> branch_taken (emit_conditional c_greater_or_equal) (update_flags_cmp 5 5 False (c_init [0 :: nat])) \<and>
   branch_taken (emit_conditional c_less) (update_flags_cmp 5 6 False (c_init [0 :: nat]))"
  using branching_conditions_exact [of c_greater_or_equal 5 5 True "c_init [0 :: nat]"]
    branching_conditions_exact [of c_less 5 6 True "c_init [0 :: nat]"]
  by (simp add: condition_sound_def overflows_def)

text \<open>
  C32: The emitted \<open>main\<close> loads an MZ image as the loader relocates it, or overruns its array. On a
  well-formed MZ image whose load address plus size is at most \<open>mem_size\<close>, the bytes in memory at the load
  address are those that \<open>apply_relocations\<close> gives for the same segment; on every larger one the program
  writes outside the array, which has 100000 elements and not the 1 MiB of the 8086.
\<close>

theorem branching_main_loads:
  assumes "image_wf img" and "img_format img = mz"
  shows "if cm_base (write_main img) + length (img_bytes img) \<le> mem_size
    then \<exists>bytes s. apply_relocations img (0x1000 + img_header_paragraphs img) = Inr (img\<lparr>img_bytes := bytes\<rparr>) \<and>
      load_main (write_main img) (c_init h) = cr_next s \<and> holds_bytes (cm_base (write_main img)) bytes s
    else load_main (write_main img) (c_init h) = cr_undefined"
proof -
  have "\<forall>p \<in> set (map linear_offset (img_relocations img)). Suc p < length (img_bytes img)"
    using assms(1) by (simp add: image_wf_def)
  moreover have "cm_image (write_main img) = img_bytes img"
    and "cm_load_segment (write_main img) = 0x1000 + img_header_paragraphs img"
    using assms(2) by (simp_all add: write_main_def Let_def)
  ultimately show ?thesis
    using load_main_holds [OF write_main_relocations [OF assms(2)], of "c_init h"]
      load_main_outside [of "write_main img" "c_init h"] assms
    by (auto simp: apply_relocations_ok simp del: set_map)
qed

theorem branching_main_loads_witness:
  "\<exists>bytes s. apply_relocations mz_example 0x1002 = Inr (mz_example\<lparr>img_bytes := bytes\<rparr>) \<and>
    load_main (write_main mz_example) (c_init (0 :: nat)) = cr_next s \<and> holds_bytes 0x10020 bytes s"
proof -
  have "image_wf mz_example" "img_format mz_example = mz"
    by (simp_all add: mz_example_def image_wf_def linear_offset_def)
  from branching_main_loads [OF this, of "0 :: nat"] show ?thesis
    by (simp add: mz_example_def write_main_def mem_size_def)
qed

text \<open>
  C33: The command line writes what the compilers gave. A run that ends with 0 and does not inspect loaded the
  file and got an executable from the branching compiler or, where that fails, from the straight-line one.
  The files that it opened for writing are, in order: the printed source as \<open>dosrecomp_branching.cpp\<close> in the directory for
  temporary files, exactly if the branching compiler can print one; the bytes of the executable at the output
  path; the source next to it, only with --keep-cpp. Where the branching compiler succeeded, the host's compiler
  ran exactly once, from that temporary source to \<open>dosrecomp_branching.elf\<close> beside it. Without -o the output path
  of an input without extension is the input itself.
\<close>

theorem cli_writes_executable:
  assumes "cli_main host args = Some (Inr (events, 0))" and "option_of args \<notin> set inspection_options"
  shows "\<exists>img data from_branching extra. load_file (cli_file host (args ! 1)) = Inr img \<and>
    cli_executable host img = Some (Inr (data, from_branching)) \<and>
    files_written events = temporary_files (cli_temporary host) img @ (output_path args, fd_bytes data) # extra \<and>
    (\<forall>f \<in> set extra. fst f = replace_extension (output_path args) ''.cpp'' \<and> option_of args = ''--keep-cpp'') \<and>
    (from_branching \<longrightarrow> host_compilations events =
       [(temporary_source (cli_temporary host), temporary_executable (cli_temporary host))]) \<and>
    (\<not> explicit_output args \<and> CHR ''.'' \<notin> set (file_part (args ! 1)) \<longrightarrow> output_path args = args ! 1)"
  using cli_main_files [OF assms] replace_nothing [of "args ! 1"] by (auto simp: output_path_def)

text \<open>A host with one input file, on which the host compiler gives a fixed executable.\<close>

definition small_host :: cli_host where
  "small_host = \<lparr>cli_file = (\<lambda>_. contents (exit_program 5)), cli_build = (\<lambda>_. executable [0x7f]), cli_temporary = ''/tmp'',
     cli_host_file = (\<lambda>_. None), cli_writable = (\<lambda>_. True), cli_executable_bit = (\<lambda>_. True)\<rparr>"

lemma small_host_runs:
  "\<exists>prog. emit_c_source (com_image (exit_program 5)) = Inr prog \<and>
     cli_main small_host [''dosrecomp'', ''GAME''] =
       Some (Inr ([ce_build (be_remove ''/tmp/dosrecomp_branching.elf''),
          ce_build (be_write ''/tmp/dosrecomp_branching.cpp'' prog True),
          ce_build (be_host_compiler ''/tmp/dosrecomp_branching.cpp'' ''/tmp/dosrecomp_branching.elf''),
          ce_file ''GAME'' (fd_bytes [0x7f]) True, ce_wrote ''GAME''], 0))"
proof -
  obtain prog where "emit_c_runtime (com_image (exit_program 5)) = Inr prog"
    using exit_program_emitted [of 5] by blast
  then show ?thesis
    by (auto simp: cli_main_def wrong_usage_def on_result_def small_host_def load_bytes_def exit_program_def
        cli_image_def option_of_def cli_compile_def then_run_def ends_def output_path_def explicit_output_def
        replace_extension_def directory_part_def file_part_def stem_def cli_executable_def branching_compile_def
        branching_effects_def temporary_source_def temporary_executable_def append_path_def emit_c_source_def
        write_executable_def com_image_def)
qed

theorem cli_writes_executable_witness:
  "\<exists>events prog. cli_main small_host [''dosrecomp'', ''GAME''] = Some (Inr (events, 0)) \<and>
    files_written events =
      [(''/tmp/dosrecomp_branching.cpp'', fd_c prog), (''GAME'', fd_bytes [0x7f])] \<and>
    output_path [''dosrecomp'', ''GAME''] = ''GAME''"
proof -
  have "option_of [''dosrecomp'', ''GAME''] \<notin> set inspection_options"
    by (simp add: option_of_def inspection_options_def)
  moreover obtain events prog where run: "cli_main small_host [''dosrecomp'', ''GAME''] = Some (Inr (events, 0))"
    and files: "files_written events = [(''/tmp/dosrecomp_branching.cpp'', fd_c prog), (''GAME'', fd_bytes [0x7f])]"
    using small_host_runs by auto
  ultimately have "output_path [''dosrecomp'', ''GAME''] = ''GAME''"
    using cli_writes_executable [OF run] by (auto simp: explicit_output_def file_part_def)
  with run files show ?thesis by blast
qed

text \<open>
  C34: Exit codes and purity of the command line. A run that returns ends with 2 exactly for a wrong usage,
  with 0 or 1 otherwise, and a run with an inspecting option writes no file, whatever the input and the host.
\<close>

theorem cli_exit_codes:
  assumes "cli_main host args = Some (Inr (events, code))"
  shows "code \<le> 2 \<and> (code = 2 \<longleftrightarrow> wrong_usage args) \<and>
    (option_of args \<in> set inspection_options \<longrightarrow> files_written events = [])"
  using cli_main_code [OF assms] cli_inspection_pure [OF assms] by blast

theorem cli_exit_codes_witness:
  "\<not> wrong_usage [''dosrecomp'', ''GAME'']"
proof -
  obtain events where "cli_main small_host [''dosrecomp'', ''GAME''] = Some (Inr (events, 0))"
    using small_host_runs by auto
  from cli_exit_codes [OF this] show ?thesis by simp
qed

text \<open>
  C35: What the C++ backend prints. The lines are those of the instructions of a linear run that starts at the
  lowest block of the graph (at or before the entry, not at the entry) and ends at the first interrupt or
  return. A line uses only names that the program declares, as what they are declared, exactly if it is a
  comment or the line of a return. So the program declares all it uses exactly if the run has no interrupt and
  no move, arithmetic or comparison of a register with an immediate; with any of these it cannot compile.
\<close>

theorem cpp_output_ill_formed:
  assumes "cpp_emit img = Inr lines"
  shows "\<exists>graph. build (img_bytes img) (entry_offset img) = Inr graph \<and>
    bb_start (hd graph) \<le> entry_offset img \<and>
    lines = map (\<lambda>(p, i). emit_instruction (img_bytes img) p i) (linear_run (img_bytes img) (bb_start (hd graph))) \<and>
    (\<forall>line \<in> set lines. line_declared line \<longleftrightarrow> line = cl_return \<or> (\<exists>b. line = cl_unsupported b)) \<and>
    ((\<forall>line \<in> set lines. line_declared line) \<longleftrightarrow>
     (\<forall>(p, i) \<in> set (linear_run (img_bytes img) (bb_start (hd graph))). \<not> prints_code i))"
proof -
  obtain graph where "build (img_bytes img) (entry_offset img) = Inr graph" "bb_start (hd graph) \<le> entry_offset img"
    "lines = map (\<lambda>(p, i). emit_instruction (img_bytes img) p i) (linear_run (img_bytes img) (bb_start (hd graph)))"
    using cpp_emit_lines [OF assms] by blast
  then show ?thesis
    using line_declared_iff declared_emitted by (intro exI [of _ graph]) fastforce
qed

theorem cpp_output_ill_formed_witness:
  "cpp_emit (com_image (exit_program 5)) = Inr [cl_move w_word R_ax (le16 5 0x4c), cl_interrupt] \<and>
   \<not> line_declared cl_interrupt"
proof -
  let ?code = "exit_program 5"
  have d0: "decode_at ?code 0 = Inr (mov_ax_instruction 0 (le16 5 0x4c))"
    using decode_mov_ax [where off = 0 and code = ?code] by (simp add: exit_program_def)
  have d3: "decode_at ?code 3 = Inr (basic k_interrupt 3 2 0 0x21)"
    using decode_int [where off = 3 and code = ?code] by (simp add: exit_program_def)
  have g: "build ?code 0 = Inr [\<lparr>bb_start = 0, bb_end = 3 + 2, bb_successors = [], bb_condition = c_always\<rparr>]"
    using build_move_int [OF d0, where n = "0x21"] d3 by (simp add: ends_block_def)
  have run: "cpp_emit (com_image ?code) = Inr [cl_move w_word R_ax (le16 5 0x4c), cl_interrupt]"
    using d0 d3 g dec.dec_inside [OF d0] dec.dec_inside [OF d3]
    by (simp add: cpp_emit_def cpp_lines.simps [of ?code 0] cpp_lines.simps [of ?code 3] cpp_ends_def basic_def
        emit_instruction_def mov_ax_instruction_def with_operands_def immediate_operand_def default_operand_def)
  from cpp_output_ill_formed [OF run] run show ?thesis by auto
qed

text \<open>
  C36: The LLVM text. \<open>emit_llvm\<close> returns on every image; the values that its text defines have ascending ids, so
  no name is defined twice; and the line that is printed for an arithmetic, logical or comparing instruction
  with an immediate operand uses a name that no line of the text defines, because the constant of the operand
  is entered into the SSA table and not printed. (A MOV of an immediate prints a line that uses no name.)
\<close>

theorem llvm_text_names:
  "straight_line_llvm img \<noteq> None \<and>
   (\<forall>trace v. straight_line_llvm img = Some (Inr (trace, v)) \<longrightarrow>
     sorted_wrt (<) (line_ids (text_of trace)) \<and>
     (\<forall>i x operation l r. (i, [ll_operation x operation l r]) \<in> set trace \<and>
        op_kind (snd (ins_operands i)) = o_immediate \<longrightarrow> snd r \<notin> set (line_ids (text_of trace))))"
  using straight_line_llvm_total llvm_text_facts by blast

theorem llvm_text_names_witness:
  "\<exists>trace. straight_line_llvm (com_image sum_program) = Some (Inr (trace, 7)) \<and>
    text_of trace = [ll_constant (V_ax, 17) 0x4c02, ll_operation (V_ax, 19) op_add (V_ax, 17) (V_ax, 18)] \<and>
    18 \<notin> set (line_ids (text_of trace))"
proof -
  obtain i j where run: "straight_line_llvm (com_image sum_program) =
      Some (Inr ([(i, [ll_constant (V_ax, 17) 0x4c02]),
        (j, [ll_operation (V_ax, 19) op_add (V_ax, 17) (V_ax, 18)])], 7))"
    and "op_kind (snd (ins_operands j)) = o_immediate"
    by (rule sum_printed)
  then have "snd (V_ax, 18 :: nat) \<notin> set (line_ids (text_of
      [(i, [ll_constant (V_ax, 17) 0x4c02]), (j, [ll_operation (V_ax, 19) op_add (V_ax, 17) (V_ax, 18)])]))"
    using llvm_text_names [of "com_image sum_program"] by (simp del: text_of_simps)
  with run show ?thesis by simp
qed

text \<open>
  C37: The exit code of the LLVM text is stale. On MOV AL, a; MOV AX, 4Cxxh; INT 21h the straight-line compiler
  finds the exit code xx, but \<open>emit_llvm\<close> returns a for every a but 0: it asks for the value of AL before
  that of AX, and a write to AX leaves the value of AL untouched. On MOV AX, 4Cxxh; INT 21h both agree.
\<close>

theorem llvm_exit_code_stale:
  "straight_line_exit_code host (com_image (stale_program a v)) = Some (Inr v) \<and>
   (\<exists>trace. straight_line_llvm (com_image (stale_program a v)) = Some (Inr (trace, if a \<noteq> 0 then a else v))) \<and>
   straight_line_exit_code host (com_image (exit_program v)) = Some (Inr v) \<and>
   (\<exists>trace. straight_line_llvm (com_image (exit_program v)) = Some (Inr (trace, v)))"
  using stale_program_exit_code stale_program_llvm exit_program_llvm exit_program_walk [of host v]
  by (auto simp: straight_line_exit_code_def)

text \<open>
  C38: The virtual drive is a sandbox. Whatever DOS path a guest gives, and whatever links the host has, a
  path that \<open>resolve\<close> returns is the canonical root of the drive followed by names, none of them dot-dot.
  The hypothesis is what \<open>weakly_canonical\<close> documents: its results are in normal form.
\<close>

theorem drive_is_sandbox:
  assumes "resolve canonical drive dos_path = Inr p" and "normalizing canonical"
    and "canonical (vd_root drive) = Some root"
  shows "below root p"
  by (rule resolve_below [OF assms])

theorem drive_is_sandbox_witness:
  "below \<lparr>hp_absolute = True, hp_names = [''d'']\<rparr> \<lparr>hp_absolute = True, hp_names = [''d'', ''A'']\<rparr>"
  by (rule drive_is_sandbox [OF example_resolve(1) drop_dots_normalizing example_resolve(2)])

text \<open>
  C39: A guest is confined to its drive. Run any sequence of INT 21h file requests against two hosts with the
  same files below the root of the drive: the guest gets the same answers from both and leaves the same
  files below the root, and no file outside the root is created, truncated or written.
\<close>

theorem guest_confined_to_drive:
  assumes "normalizing canonical" and "canonical (vd_root drive) = Some root"
    and "\<forall>p. below root p \<longrightarrow> host p = host' p"
    and "run_files canonical (plain_api may_read may_write faulty) requests
      (virtual_file_system_init drive host) = (replies, v)"
    and "run_files canonical (plain_api may_read may_write faulty) requests
      (virtual_file_system_init drive host') = (replies', v')"
  shows "replies = replies' \<and> (\<forall>p. below root p \<longrightarrow> vfs_host v p = vfs_host v' p) \<and>
    (\<forall>p. \<not> below root p \<longrightarrow> vfs_host v p = host p)"
proof -
  have a: "alike fs_path (\<lambda>host. host) root drive (virtual_file_system_init drive host)
      (virtual_file_system_init drive host')"
    using assms(3) by (simp add: alike_def virtual_file_system_init_def)
  have "confined fs_path (\<lambda>host. host) root drive
      (run_files canonical (plain_api may_read may_write faulty) requests)"
    by (rule plain.run_files_confined) (rule resolve_below [OF _ assms(1,2)])
  from this [unfolded confined_def, rule_format, OF a] show ?thesis
    by (simp add: assms(4,5) alike_def outside_kept_def)
qed

definition file_request :: "byte \<Rightarrow> string \<Rightarrow> nat \<Rightarrow> byte list \<Rightarrow> int21_file_request" where
  "file_request ah path count data =
     \<lparr>rf_ah = ah, rf_path = path, rf_handle = 5, rf_count = count, rf_data = data, rf_offset = 0, rf_origin = 0\<rparr>"

theorem guest_confined_to_drive_witness:
  "vfs_host (snd (run_files drop_dots (plain_api (\<lambda>_. True) (\<lambda>_. True) (\<lambda>_. False))
      [file_request 0x3c example_path 0 []] (virtual_file_system_init example_drive Map.empty)))
    \<lparr>hp_absolute = True, hp_names = [''e'']\<rparr> = None"
proof -
  let ?run = "run_files drop_dots (plain_api (\<lambda>_. True) (\<lambda>_. True) (\<lambda>_. False))
      [file_request 0x3c example_path 0 []] (virtual_file_system_init example_drive Map.empty)"
  have run: "?run = (fst ?run, snd ?run)" by simp
  have "\<not> below \<lparr>hp_absolute = True, hp_names = [''d'']\<rparr> \<lparr>hp_absolute = True, hp_names = [''e'']\<rparr>"
    by (simp add: below_def)
  with guest_confined_to_drive [OF drop_dots_normalizing example_resolve(2) _ run run] show ?thesis by simp
qed

text \<open>
  C40: What a guest writes it reads back. Creating a file, writing data, closing it, opening it and reading
  succeeds where the host allows it; both opens return handle 5, the write reports all bytes, and the
  read returns the data, cut at the count asked for.
\<close>

theorem file_round_trip:
  assumes "resolve canonical drive path = Inr p" and "may_write p" and "may_read p" and "\<not> faulty p"
  shows "fst (run_files canonical (plain_api may_read may_write faulty)
      [file_request 0x3c path 0 [], file_request 0x40 [] 0 data, file_request 0x3e [] 0 [],
       file_request 0x3d path 0 [], file_request 0x3f [] n []] (virtual_file_system_init drive host)) =
    [Inr (no_result\<lparr>rs_handle := Some 5\<rparr>), Inr (no_result\<lparr>rs_bytes_transferred := length data\<rparr>),
     Inr no_result, Inr (no_result\<lparr>rs_handle := Some 5\<rparr>),
     Inr (no_result\<lparr>rs_data := take n data, rs_bytes_transferred := min (length data) n\<rparr>)]"
  using assms by (simp add: file_service_defs plain_defs file_request_def Let_def)

theorem file_round_trip_witness:
  "fst (run_files drop_dots (plain_api (\<lambda>_. True) (\<lambda>_. True) (\<lambda>_. False))
      [file_request 0x3c example_path 0 [], file_request 0x40 [] 0 [1, 2, 3], file_request 0x3e [] 0 [],
       file_request 0x3d example_path 0 [], file_request 0x3f [] 2 []]
      (virtual_file_system_init example_drive Map.empty)) =
    [Inr (no_result\<lparr>rs_handle := Some 5\<rparr>), Inr (no_result\<lparr>rs_bytes_transferred := length [1, 2, 3 :: byte]\<rparr>),
     Inr no_result, Inr (no_result\<lparr>rs_handle := Some 5\<rparr>),
     Inr (no_result\<lparr>rs_data := take 2 [1, 2, 3], rs_bytes_transferred := min (length [1, 2, 3 :: byte]) 2\<rparr>)]"
  by (rule file_round_trip [OF example_resolve(1)]) simp_all

section \<open>Further facts\<close>

text \<open>
  The exit code of a program that sets it in one instruction is found. Where the entry of an image is
  any number of NOPs, MOV AX, 4Cxxh, any number of NOPs and INT 21h, \<open>extract_exit_code\<close> returns xx.
\<close>

theorem exit_code_of_sequence:
  assumes "\<forall>k < k0. entry_offset img + k < length (img_bytes img) \<and>
      img_bytes img ! (entry_offset img + k) = 0x90"
    and "exit_sequence_at (img_bytes img) (entry_offset img + k0) n v"
  shows "exit_extract_code img = Inr v"
  by (rule exit_extract_sequence [OF assms])

text \<open>
  Relocation can be undone: applying the table with a segment and then with its negation gives back the
  image, so a relocated image determines the original.
\<close>

theorem relocation_round_trip:
  assumes "image_wf img" and "img_format img = mz"
    and "\<forall>p \<in> set (map linear_offset (img_relocations img)).
      \<forall>q \<in> set (map linear_offset (img_relocations img)). apart p q"
  shows "bindE (apply_relocations img s) (\<lambda>img'. apply_relocations img' (- s)) = Inr img"
proof -
  let ?ps = "map linear_offset (img_relocations img)"
  have inside: "\<forall>p \<in> set ?ps. Suc p < length (img_bytes img)"
    using assms(1) by (simp add: image_wf_def)
  let ?img' = "img\<lparr>img_bytes := relocated_all s (img_bytes img) ?ps\<rparr>"
  have "image_wf ?img'"
    using assms(1,2) by (auto simp: image_wf_def simp flip: length_greater_0_conv)
  moreover have "relocated_all (- s) (relocated_all s (img_bytes img) ?ps) ?ps = relocated_all 0 (img_bytes img) ?ps"
    using relocated_all_twice [of ?ps "img_bytes img" "- s" s] inside assms(3) by (simp del: set_map)
  moreover have "relocated_all 0 (img_bytes img) ps = img_bytes img"
    if "\<forall>p \<in> set ps. Suc p < length (img_bytes img)" for ps
    using that by (induction ps) (simp_all add: relocated_zero)
  ultimately show ?thesis
    using assms(1,2) inside by (simp add: apply_relocations_ok del: set_map)
qed

text \<open>
  CALL and RET balance: a near CALL writes the offset of the following instruction below the stack top,
  and a RET on the resulting machine brings SP back to its value before the call.
\<close>

theorem call_return_balanced:
  assumes "mc_registers m = Some values" and "mc_memory m = Some memory" and "ins_size j \<noteq> 3"
  shows "\<exists>e1 m1 memory' e2 m2 values'. translate_call i m segment = Inr (e1, m1) \<and>
    mc_memory m1 = Some memory' \<and>
    read16_at memory' segment (concrete_value V_sp values - 2) =
      Inr (word_of_nat (ins_offset i + ins_size i)) \<and>
    translate_return code j m1 segment = Inr (e2, m2) \<and> mc_memory m2 = Some memory' \<and>
    mc_registers m2 = Some values' \<and> concrete_value V_sp values' = concrete_value V_sp values"
proof -
  let ?sp = "concrete_value V_sp values - 2" and ?ip = "word_of_nat (ins_offset i + ins_size i) :: u16"
  obtain memory' where w: "write16_at memory segment ?sp ?ip = Inr memory'"
    using write16_at_ok [of memory segment ?sp] by (auto simp: is_ok_iff)
  note r = read16_at_write16_at [OF w]
  obtain e1 m1 where call: "translate_call i m segment = Inr (e1, m1)"
    and m1: "mc_registers m1 = Some (store_concrete V_sp ?sp values)" "mc_memory m1 = Some memory'"
    using assms(1,2) w by (simp add: translate_call_def with_concrete_def Let_def
        define_effect_def define_constant_def push_value_def set_register_def)
  obtain e2 m2 where "translate_return code j m1 segment = Inr (e2, m2)"
    and "mc_registers m2 = Some (store_concrete V_sp (?sp + 2) (store_concrete V_sp ?sp values))"
      "mc_memory m2 = Some memory'"
    using assms(3) m1 r by (simp add: translate_return_def with_concrete_def Let_def
        define_effect_def define_constant_def push_value_def set_register_def)
  moreover have "concrete_value V_sp (store_concrete V_sp (?sp + 2) vals) = concrete_value V_sp values" for vals
    by (simp add: concrete_value_store)
  ultimately show ?thesis using call m1 r by blast
qed

text \<open>
  Segmented memory access is total and consistent: a word written at any segment and offset is inside the
  0x110000 bytes of memory, is read back as a word and as its two bytes in little-endian order, and
  changes no other byte.
\<close>

theorem segmented_word_round_trip:
  "\<exists>m'. write16_at m segment offset v = Inr m' \<and> read16_at m' segment offset = Inr v \<and>
    read8 m' (physical_address segment offset) = Inr (lo8 v) \<and>
    read8 m' (physical_address segment offset + 1) = Inr (hi8 v) \<and>
    (\<forall>a. a \<noteq> physical_address segment offset \<and> a \<noteq> physical_address segment offset + 1 \<longrightarrow>
       read8 m' a = read8 m a)"
  using physical_address_bound [of segment offset]
  by (auto simp: segmented_defs memory_defs)

text \<open>
  The BIOS timer counts. After any sequence of advances the timer shows the total number of ticks modulo
  the ticks of a day, and the rollover counter the number of midnights passed, capped at 255; 64-bit
  sums do not wrap.
\<close>

theorem timer_counts_ticks:
  "foldl (\<lambda>t ticks. advance ticks t) (bios_timer_init start) steps =
     timer_of (unat start mod ticks_per_day + sum_list (map unat steps))"
proof -
  have "foldl (\<lambda>t ticks. advance ticks t) (timer_of n) steps = timer_of (n + sum_list (map unat steps))" for n
    by (induction steps arbitrary: n) (simp_all add: advance_timer_of add.assoc)
  moreover have "bios_timer_init start = timer_of (unat start mod ticks_per_day)"
  proof -
    have "unat start mod ticks_per_day < ticks_per_day" by (simp add: ticks_per_day_def)
    then show ?thesis by (simp add: bios_timer_init_def timer_of_def)
  qed
  ultimately show ?thesis by simp
qed

text \<open>
  Teletype output through INT 10h function 0Eh. Printing a text character by character appends exactly
  the text, moves the row down by the number of line feeds, and leaves the column at the length of the last
  line, counted from the old column where the text breaks no line; row and column wrap modulo 256.
\<close>

theorem teletype_text:
  "foldl (\<lambda>s c. case int10_dispatch \<lparr>r10_ah = 0x0e, r10_al = c, r10_dh = dh, r10_dl = dl\<rparr> s of
      Inr s' \<Rightarrow> s' | Inl _ \<Rightarrow> s) s text =
   \<lparr>tv_output = tv_output s @ text,
    tv_row = tv_row s + word_of_nat (length (filter ((=) newline) text)),
    tv_column = (if breaks_line text then 0 else tv_column s) + word_of_nat (length (last_line text))\<rparr>"
  using print_text_exact [of "text" s] by (simp add: print_text_def int10_dispatch_def)

text \<open>
  INT 13h sector reads. Cylinder, head and sector numbers of a geometry are mapped to distinct block
  numbers below the sector count.
\<close>

theorem disk_addresses_distinct:
  assumes "in_geometry c h s g" and "in_geometry c' h' s' g"
  shows "lba c h s g < sector_count g \<and>
    (lba c h s g = lba c' h' s' g \<longleftrightarrow> c = c' \<and> h = h' \<and> s = s')"
proof -
  have "c = c' \<and> h = h' \<and> s = s'" if "lba c h s g = lba c' h' s' g"
  proof -
    note a = lba_inverse [OF assms(1)] and b = lba_inverse [OF assms(2)]
    have base: "c * unat (geo_heads g) + h = c' * unat (geo_heads g) + h'"
      using a(1) b(1) that by simp
    have "s - 1 = s' - 1" using a(2) b(2) that by simp
    moreover have "c = c'" "h = h'" using a(3,4) b(3,4) base by simp_all
    ultimately show ?thesis using assms by (auto simp: in_geometry_def)
  qed
  with lba_less [OF assms(1)] show ?thesis by auto
qed

text \<open>
  INT 21h function 09h prints the string at the given offset up to its '$': it fails only if the offset
  is outside the memory or no '$' follows, and then the output still holds what was printed before the
  end of memory.
\<close>

theorem print_string_service:
  assumes "rq_ah request = 0x09" and "rq_string_offset request < length memory"
  shows "int21_dispatch request memory s =
    (let rest = drop (rq_string_offset request) memory
     in if dollar \<in> set rest
        then (Inr (), s\<lparr>dp_console_output := dp_console_output s @ takeWhile (\<lambda>c. c \<noteq> dollar) rest\<rparr>)
        else (Inl (Fail StringNotTerminated), s\<lparr>dp_console_output := dp_console_output s @ rest\<rparr>))"
  using assms by (simp add: int21_dispatch_def print_string_exact Let_def)

text \<open>
  The current directory stays on the drive: after any sequence of INT 21h directory requests it is the
  initial one or a path that the virtual drive resolves to an existing directory below its root.
\<close>

theorem current_directory_on_drive:
  assumes "normalizing canonical" and "canonical (vd_root drive) = Some root"
    and "path = run_directory (resolve canonical drive) is_directory initial_path requests"
  shows "path = initial_path \<or>
    (\<exists>p. resolve canonical drive path = Inr p \<and> is_directory p \<and> below root p)"
  using run_directory_entered [of "resolve canonical drive" is_directory initial_path requests]
    resolve_below [OF _ assms(1,2), of path] assms(3)
  by (auto simp: entered_def split: sum.split_asm)

text \<open>
  The two emitters agree: a list of writes followed by a list of reads gives the same image through
  \<open>emit_syscall_program_executable\<close>, with its closed-form layout, as through the general
  \<open>emit_action_program_executable\<close>.
\<close>

theorem syscall_program_is_action_program:
  "emit_syscall_program_executable writes reads e =
     emit_action_program_executable (map act_write writes @ map act_read reads) e"
  by (rule emit_syscall_program_actions)

text \<open>
  The functions that the emitted blocks call exist. In a program that the branching compiler prints,
  every label that a block found by the fixpoint of \<open>collect_block_starts\<close> calls is the label of a block,
  or the position behind the last byte of the image.
\<close>

theorem branching_labels_defined:
  assumes "emit_c_source img = Inr prog" and "fix_starts (img_bytes img) [entry_offset img] = Inr fixed"
    and "b \<in> set (cp_blocks prog)" and "cb_label b \<in> set fixed"
  shows "body_labels (cb_body b) \<subseteq> insert (length (img_bytes img)) (cb_label ` set (cp_blocks prog))"
  using emitted_labels_defined [OF _ assms(2-4)] assms(1) by (simp add: emit_c_source_def)

text \<open>
  The Mode 13h framebuffer is a store: after any sequence of pixel writes that succeeds, every pixel on
  the 320 by 200 screen shows the last colour written to it, or its old one.
\<close>

theorem framebuffer_last_write_wins:
  assumes "framebuffer_wf fb" and "x < fb_width" and "y < fb_height"
    and "store_all (\<lambda>fb (x, y) c. set_pixel fb x y c) fb writes = Inr fb'"
  shows "res_option (get_pixel fb' x y) =
    (case find (\<lambda>w. fst w = (x, y)) (rev writes) of
       Some w \<Rightarrow> Some (snd w) | None \<Rightarrow> res_option (get_pixel fb x y))"
proof -
  have canon: "on_screen (fst kv) = on_screen (x, y) \<longleftrightarrow> fst kv = (x, y)" for kv :: "(nat \<times> nat) \<times> byte"
    using assms(2,3) by (auto simp: on_screen_def)
  show ?thesis
    using screen.store_all_get [OF assms(1,4), of "(x, y)"] unfolding canon by (simp split: option.split)
qed

text \<open>
  The DOS environment is a case-insensitive store: after any sequence of assignments that succeeds, a
  valid name reads the value last assigned to any spelling of it, or its old value.
\<close>

theorem environment_last_write_wins:
  assumes "env_key name \<noteq> None" and "store_all env_set variables assignments = Inr variables'"
  shows "env_get variables' name =
    (case find (\<lambda>a. map toupper (fst a) = map toupper name) (rev assignments) of
       Some a \<Rightarrow> Some (snd a) | None \<Rightarrow> env_get variables name)"
proof -
  have valid: "\<forall>a \<in> set assignments. env_key (fst a) \<noteq> None"
    using env.store_all_ok [of variables assignments] assms(2) by (auto simp: is_ok_iff)
  have "find (\<lambda>a. env_key (fst a) = env_key name) xs = find (\<lambda>a. map toupper (fst a) = map toupper name) xs"
    if "\<forall>a \<in> set xs. env_key (fst a) \<noteq> None" for xs :: "(string \<times> string) list"
    using that assms(1) by (induction xs) (auto simp: env_key_eq split: if_split_asm)
  then show ?thesis
    using env.store_all_get [OF TrueI assms(2), of name] valid by simp
qed

text \<open>
  A console program runs through the branching compiler. For every COM program MOV DX, 10Ch; MOV AH, 9;
  INT 21h; MOV AX, 4Cxxh; INT 21h followed by a string, its '$' and further bytes, in which no byte pair
  CD 21 follows the code and which fits the emitted array, the compiler prints a program, and that program,
  run on any host, writes exactly the string to file descriptor 1 and exits with the program's exit code.
\<close>

theorem branching_console_end_to_end:
  assumes "0x24 \<notin> set message" and "no_interrupt_in (message @ 0x24 # rest)"
    and "269 + length message + length rest \<le> mem_size" and "2 \<le> n"
  shows "\<exists>prog s. emit_c_source (com_image (console_program message e rest)) = Inr prog \<and>
    run_c_program host n prog h = cr_exit e s \<and> cs_host s = ch_write host 1 message h"
proof -
  from assms(4) obtain m where "n = Suc (Suc m)" by (metis Suc_le_D numeral_2_eq_2 Suc_le_mono)
  with console_program_runs [OF assms(1-3), where e = e and os = host and n = m and h = h] show ?thesis
    by (auto simp del: run_block.simps)
qed

text \<open>
  Register instructions are printed correctly. Where \<open>register_step\<close> says what the 8086 does to its
  registers (immediate and register moves of both widths, and ADD, SUB, AND, OR, XOR of a word register
  with an immediate), the printed statements run without leaving the program's arrays, change nothing but
  registers and flags, and leave exactly those register values.
\<close>

theorem branching_register_instructions:
  assumes "register_step i (guest s) = Some f"
  shows "\<exists>s'. exec_stmts (exec_stmt host n call dispatch) (emit_plain code position i) s = cr_next s' \<and>
    same_rest s s' \<and> guest s' = f"
  by (rule register_step_emitted [OF assms])

text \<open>
  The segment of memory operands is never set. The emitted address of a memory operand without BP adds
  16 times \<open>regs[11]\<close>, while \<open>main\<close> and the run-time functions keep DS in \<open>regs[19]\<close>: whatever image the
  branching compiler accepts, and however its program runs, \<open>regs[11]\<close> is 0 in every state in which
  it stops, so such operands always address the first 64 KiB.
\<close>

theorem branching_data_segment_zero:
  assumes "emit_c_source img = Inr prog"
  shows "keeps_11 0 (run_c_program host n prog h)"
  using assms by (simp add: emit_c_source_def run_c_program_keeps)

text \<open>
  The three compilers agree on MOV AX, 4Cxxh; INT 21h, for every exit code and whatever host files exist:
  all find the code, the straight-line and the exit compiler produce the same executable, which does
  nothing but exit with it, and the program that the branching compiler prints does the same.
\<close>

theorem compilers_agree_on_exit:
  "straight_line_exit_code host (com_image (exit_program v)) = Some (Inr v) \<and>
   exit_extract_code (com_image (exit_program v)) = Inr v \<and>
   (\<exists>elf. straight_line_compile host (com_image (exit_program v)) = Some (Inr elf) \<and>
      exit_compile (com_image (exit_program v)) = Inr elf \<and>
      x86_run os elf 3 start_state = Some [ev_exit (ucast v)]) \<and>
   branching_exit_code host (com_image (exit_program v)) = Some (Inr v) \<and>
   (\<exists>prog s. emit_c_source (com_image (exit_program v)) = Inr prog \<and>
      run_c_program c_os (Suc n) prog h = cr_exit v s \<and> cs_host s = h)"
proof -
  obtain ts where ts: "straight_line_walk host (com_image (exit_program v)) = Some (Inr (v, ts))"
    "sl_actions ts = []" "sl_writes ts = []"
    using exit_program_walk by blast
  have code: "exit_extract_code (com_image (exit_program v)) = Inr v"
    by (rule exit_extract_sequence [where ?k0.0 = 0 and n = 0])
      (simp_all add: exit_sequence_at_def exit_program_def)
  have "skip_nops (exit_program v) 0 = Inr 0"
    using decode_mov_ax [where off = 0 and code = "exit_program v"]
    by (simp add: skip_nops_here exit_program_def)
  then have "compile_console_program (com_image (exit_program v)) = Inl (Fail NotConsoleEntry)"
    by (simp add: compile_console_program_def exit_program_def Let_def)
  moreover have "length (action_image [] v) < 2 ^ 31"
    by (simp add: action_image_def Let_def layout_defs)
  from run_program [OF this, of os] have
    "x86_run os (action_image [] v) 3 start_state = Some [ev_exit (ucast v)]" by simp
  ultimately show ?thesis
    using ts code emit_exit_image [of v] exit_program_runs [of v c_os n h]
    by (simp add: straight_line_exit_code_def straight_line_compile_def exit_compile_def emitted_def
        branching_exit_code_def del: run_block.simps)
qed

text \<open>
  A MOV to memory is undefined behaviour: after the store the effect is defined for the pseudo register
  \<open>register_id::count\<close>, one past the end of the 17-element register array, so no machine has a defined result.
\<close>

theorem memory_store_never_translates:
  assumes "is_memory_store i"
  shows "translate code i m segment \<noteq> Inr r"
proof -
  have "translate_move i m segment \<noteq> Inr r"
    using assms translate_store_fails
    by (cases "ins_operands i") (auto simp: translate_move_def is_memory_store_def)
  then show ?thesis
    using assms by (auto simp: translate_def is_memory_store_def failed_def is_register_arithmetic_def
        is_stack_register_def)
qed

text \<open>
  The graph is complete whatever the program: every position that direct control flow reaches is inside a
  block, also where the builder goes on behind an indirect transfer.
\<close>

theorem reached_positions_covered:
  assumes "build code entry = Inr graph" and "direct_reach code entry position"
  shows "covered code graph position"
  using covered_iff_ireach [OF build_good [OF assms(1)]] direct_reach_ireach [OF assms(2)] by blast

text \<open>A flags value that is a comparison of constants is never taken for parity and the LOOP family.\<close>

theorem unknown_conditions_not_taken:
  assumes "n < length vs" and "sv_operation (vs ! n) = Some op_compare" and "sv_inputs (vs ! n) = [a, b]"
    and "resolve_constant vs a = Some (Inr (Some l))" and "resolve_constant vs b = Some (Inr (Some r))"
    and "compares c l r = None"
  shows "evaluate_condition c vs n = Some (Inr False)"
  using resolve_compare_flags_compare [OF assms(1-5)] unknown_condition_never_taken [OF assms(6)]
  by (auto simp: evaluate_condition_def)

end
